(* ===== verification/Prelude.thy ===== *)
theory Prelude
  imports Main "HOL-Library.State_Monad" "HOL-Library.AList"
begin

text \<open>
  Shared vocabulary of the development.

  Go maps are association lists whose order is the order in which a Go \<open>range\<close> loop visits
  them (Go fixes no order, so statements about such loops quantify over the lists that represent
  the same map).  Effectful code runs in the state monad of \<open>HOL-Library.State_Monad\<close> over an
  opaque world.  Two judgements carry the proofs about effectful code: \<open>state_io_rel R m\<close> of the
  library (every run of \<open>m\<close> relates its start and end world by \<open>R\<close>), whose closure rules are
  collected in \<open>frame_intros\<close>, and \<open>triple P m Q\<close> (a total Hoare triple), whose rules are
  collected in \<open>triple_intros\<close>.
\<close>

named_theorems go_map_simps \<open>evaluation and update laws of Go maps\<close>
named_theorems frame_intros \<open>closure rules for \<open>state_io_rel\<close>\<close>
named_theorems triple_intros \<open>structural rules for Hoare triples\<close>

section \<open>Go maps\<close>

type_synonym ('k, 'v) gomap = "('k \<times> 'v) list"
type_synonym smap = "(string, string) gomap"

text \<open>\<open>m[k]\<close> of a \<open>map[string]string\<close>: the zero value, the empty string, when the key is absent.\<close>

definition mget :: "('k, string) gomap \<Rightarrow> 'k \<Rightarrow> string" where
  "mget m k = (case map_of m k of None \<Rightarrow> '''' | Some v \<Rightarrow> v)"

text \<open>The second result of \<open>v, ok := m[k]\<close>.\<close>

definition mhas :: "('k, 'v) gomap \<Rightarrow> 'k \<Rightarrow> bool" where
  "mhas m k = (map_of m k \<noteq> None)"

text \<open>\<open>m[k] = v\<close>.\<close>

definition mset_key :: "'k \<Rightarrow> 'v \<Rightarrow> ('k, 'v) gomap \<Rightarrow> ('k, 'v) gomap" where
  "mset_key k v m = AList.update k v m"

text \<open>\<open>delete(m, k)\<close>.\<close>

definition mdelete :: "'k \<Rightarrow> ('k, 'v) gomap \<Rightarrow> ('k, 'v) gomap" where
  "mdelete k m = AList.delete k m"

lemma map_of_mset_key [simp, go_map_simps]: "map_of (mset_key k v m) = (map_of m)(k \<mapsto> v)"
  by (simp add: mset_key_def update_conv')

lemma map_of_mdelete [simp, go_map_simps]: "map_of (mdelete k m) = (map_of m)(k := None)"
  by (simp add: mdelete_def delete_conv')

lemma mget_mset_key [simp, go_map_simps]: "mget (mset_key k v m) k' = (if k' = k then v else mget m k')"
  by (simp add: mget_def)

lemma mhas_mset_key [simp, go_map_simps]: "mhas (mset_key k v m) k' = (k' = k \<or> mhas m k')"
  by (simp add: mhas_def)

lemma mhas_mdelete [simp, go_map_simps]: "mhas (mdelete k m) k' = (k' \<noteq> k \<and> mhas m k')"
  by (simp add: mhas_def)

lemma mget_Nil [simp]: "mget [] k = ''''"
  by (simp add: mget_def)

lemma mhas_Nil [simp]: "\<not> mhas [] k"
  by (simp add: mhas_def)

lemma mget_Cons [simp]: "mget ((k', v) # m) k = (if k = k' then v else mget m k)"
  by (simp add: mget_def)

lemma mhas_Cons [simp]: "mhas ((k', v) # m) k = (k = k' \<or> mhas m k)"
  by (simp add: mhas_def)

lemma distinct_mset_key [simp]: "distinct (map fst m) \<Longrightarrow> distinct (map fst (mset_key k v m))"
  by (simp add: mset_key_def distinct_update)

lemma set_mset_key: "distinct (map fst m) \<Longrightarrow>
    set (mset_key k v m) = insert (k, v) {p \<in> set m. fst p \<noteq> k}"
  by (induction m) (auto simp: mset_key_def update_keys rev_image_eqI)

lemma keys_mset_key [simp]: "fst ` set (mset_key k v m) = insert k (fst ` set m)"
  by (simp add: mset_key_def dom_update)

section \<open>Lists\<close>

lemma upt_zero_Suc: "[0..<Suc n] = 0 # map Suc [0..<n]"
  using upt_conv_Cons [of 0 "Suc n"] by (simp add: map_Suc_upt del: upt_Suc)

section \<open>Relations between the worlds before and after a computation\<close>

lemma state_io_rel_return [frame_intros]: "reflp R \<Longrightarrow> state_io_rel R (State_Monad.return a)"
  by (auto simp: state_io_rel_def reflp_def)

lemma state_io_rel_bind [frame_intros]:
  assumes "transp R" and "state_io_rel R m" and "\<And>a. state_io_rel R (f a)"
  shows "state_io_rel R (State_Monad.bind m f)"
  unfolding state_io_rel_def
proof
  fix w
  obtain a w' where r: "run_state m w = (a, w')" by fastforce
  have "R w w'" using assms(2) r by (auto simp: state_io_rel_def dest: spec [of _ w])
  moreover have "R w' (snd (run_state (f a) w'))"
    using assms(3) [of a] by (auto simp: state_io_rel_def)
  ultimately show "R w (snd (run_state (State_Monad.bind m f) w))"
    using assms(1) r by (auto dest: transpD)
qed

lemma state_io_rel_if [frame_intros]:
  "(b \<Longrightarrow> state_io_rel R m) \<Longrightarrow> (\<not> b \<Longrightarrow> state_io_rel R n) \<Longrightarrow> state_io_rel R (if b then m else n)"
  by simp

lemma state_io_rel_case_option [frame_intros]:
  "(x = None \<Longrightarrow> state_io_rel R m) \<Longrightarrow> (\<And>a. x = Some a \<Longrightarrow> state_io_rel R (f a)) \<Longrightarrow>
   state_io_rel R (case x of None \<Rightarrow> m | Some a \<Rightarrow> f a)"
  by (cases x) auto

lemma state_io_rel_case_sum [frame_intros]:
  "(\<And>a. x = Inl a \<Longrightarrow> state_io_rel R (f a)) \<Longrightarrow> (\<And>b. x = Inr b \<Longrightarrow> state_io_rel R (g b)) \<Longrightarrow>
   state_io_rel R (case x of Inl a \<Rightarrow> f a | Inr b \<Rightarrow> g b)"
  by (cases x) auto

lemma state_io_rel_case_prod [frame_intros]:
  "(\<And>a b. x = (a, b) \<Longrightarrow> state_io_rel R (f a b)) \<Longrightarrow> state_io_rel R (case x of (a, b) \<Rightarrow> f a b)"
  by (cases x) auto

lemma state_io_rel_let [frame_intros]: "state_io_rel R (f a) \<Longrightarrow> state_io_rel R (let x = a in f x)"
  by simp

section \<open>Hoare triples over the state monad\<close>

definition triple :: "('w \<Rightarrow> bool) \<Rightarrow> ('w, 'a) state \<Rightarrow> ('a \<Rightarrow> 'w \<Rightarrow> bool) \<Rightarrow> bool" where
  "triple P m Q \<longleftrightarrow> (\<forall>w. P w \<longrightarrow> Q (fst (run_state m w)) (snd (run_state m w)))"

lemma tripleI: "(\<And>w a w'. P w \<Longrightarrow> run_state m w = (a, w') \<Longrightarrow> Q a w') \<Longrightarrow> triple P m Q"
  unfolding triple_def by (metis prod.collapse)

lemma tripleD: "triple P m Q \<Longrightarrow> P w \<Longrightarrow> run_state m w = (a, w') \<Longrightarrow> Q a w'"
  unfolding triple_def by (metis fst_conv snd_conv)

lemma triple_return [triple_intros]: "(\<And>w. P w \<Longrightarrow> Q a w) \<Longrightarrow> triple P (State_Monad.return a) Q"
  by (auto intro!: tripleI)

lemma triple_bind:
  "triple P m R \<Longrightarrow> (\<And>a. triple (R a) (f a) Q) \<Longrightarrow> triple P (State_Monad.bind m f) Q"
  by (rule tripleI) (auto split: prod.splits dest!: tripleD)

lemma triple_if [triple_intros]:
  "(b \<Longrightarrow> triple P m Q) \<Longrightarrow> (\<not> b \<Longrightarrow> triple P n Q) \<Longrightarrow> triple P (if b then m else n) Q"
  by simp

lemma triple_case_option [triple_intros]:
  "(x = None \<Longrightarrow> triple P m Q) \<Longrightarrow> (\<And>a. x = Some a \<Longrightarrow> triple P (f a) Q) \<Longrightarrow>
   triple P (case x of None \<Rightarrow> m | Some a \<Rightarrow> f a) Q"
  by (cases x) auto

lemma triple_case_sum [triple_intros]:
  "(\<And>a. x = Inl a \<Longrightarrow> triple P (f a) Q) \<Longrightarrow> (\<And>b. x = Inr b \<Longrightarrow> triple P (g b) Q) \<Longrightarrow>
   triple P (case x of Inl a \<Rightarrow> f a | Inr b \<Rightarrow> g b) Q"
  by (cases x) auto

lemma triple_case_prod [triple_intros]:
  "(\<And>a b. x = (a, b) \<Longrightarrow> triple P (f a b) Q) \<Longrightarrow> triple P (case x of (a, b) \<Rightarrow> f a b) Q"
  by (cases x) auto

lemma triple_let [triple_intros]: "triple P (f a) Q \<Longrightarrow> triple P (let x = a in f x) Q"
  by simp

lemma triple_conseq:
  "triple P m Q \<Longrightarrow> (\<And>w. P' w \<Longrightarrow> P w) \<Longrightarrow> (\<And>a w. Q a w \<Longrightarrow> Q' a w) \<Longrightarrow> triple P' m Q'"
  unfolding triple_def by blast

end
