(* ===== verification/Go_Strings.thy ===== *)
theory Go_Strings
  imports Prelude "HOL-Library.Sublist" "HOL-Library.Char_ord"
begin

text \<open>
  The functions of Go's \<open>strings\<close>, \<open>strconv\<close>, \<open>path\<close> and \<open>fmt\<close> packages that the repository
  calls.  A Go string is a byte sequence, so it is HOL's \<open>string\<close> (lists of 8-bit characters);
  literals outside ASCII are written as their UTF-8 bytes.
\<close>

section \<open>Package strings\<close>

definition HasPrefix :: "string \<Rightarrow> string \<Rightarrow> bool" where
  "HasPrefix s p = (take (length p) s = p)"

definition HasSuffix :: "string \<Rightarrow> string \<Rightarrow> bool" where
  "HasSuffix s p = HasPrefix (rev s) (rev p)"

text \<open>\<open>strings.Split\<close> with a separator of one byte, the only form the repository uses.\<close>

fun Split :: "string \<Rightarrow> char \<Rightarrow> string list" where
  "Split [] sep = [[]]"
| "Split (c # s) sep =
     (if c = sep then [] # Split s sep
      else (case Split s sep of [] \<Rightarrow> [[c]] | p # ps \<Rightarrow> (c # p) # ps))"

text \<open>\<open>before, after, found := strings.Cut(s, sep)\<close>, again with a one-byte separator.\<close>

definition Cut :: "string \<Rightarrow> char \<Rightarrow> string \<times> string \<times> bool" where
  "Cut s sep =
     (if sep \<in> set s
      then (takeWhile (\<lambda>c. c \<noteq> sep) s, tl (dropWhile (\<lambda>c. c \<noteq> sep) s), True)
      else (s, '''', False))"

text \<open>\<open>strings.TrimRight(s, cutset)\<close> for a cutset of one ASCII character.\<close>

definition TrimRight :: "string \<Rightarrow> char \<Rightarrow> string" where
  "TrimRight s c = rev (dropWhile (\<lambda>x. x = c) (rev s))"

definition Join :: "string list \<Rightarrow> string" where
  "Join ss = concat ss"

text \<open>
  \<open>strings.TrimSpace\<close>: the code points for which \<open>unicode.IsSpace\<close> holds, as UTF-8 byte strings.
\<close>

definition space_runes :: "string list" where
  "space_runes =
     map (\<lambda>n. [char_of n]) [9, 10, 11, 12, 13, 32 :: nat] @
     map (map char_of)
       ([[194, 133], [194, 160], [225, 154, 128], [226, 128, 168], [226, 128, 169],
         [226, 128, 175], [226, 129, 159], [227, 128, 128]] @
        map (\<lambda>n. [226, 128, n]) [128, 129, 130, 131, 132, 133, 134, 135, 136, 137, 138 :: nat])"

function trim_left_runes :: "string list \<Rightarrow> string \<Rightarrow> string" where
  "trim_left_runes rs s =
     (case find (\<lambda>p. p \<noteq> [] \<and> HasPrefix s p) rs of
        None \<Rightarrow> s
      | Some p \<Rightarrow> trim_left_runes rs (drop (length p) s))"
  by pat_completeness auto
termination
  by (relation "measure (\<lambda>(rs, s). length s)") (auto simp: find_Some_iff HasPrefix_def diff_less_mono2 intro!: diff_less)

declare trim_left_runes.simps [simp del]

definition TrimSpace :: "string \<Rightarrow> string" where
  "TrimSpace s =
     rev (trim_left_runes (map rev space_runes) (rev (trim_left_runes space_runes s)))"

section \<open>Package strconv\<close>

text \<open>\<open>strconv.ParseBool\<close>; \<open>None\<close> is its syntax error, with which Go returns \<open>false\<close>.\<close>

definition ParseBool :: "string \<Rightarrow> bool option" where
  "ParseBool s =
     (if s \<in> set [''1'', ''t'', ''T'', ''TRUE'', ''true'', ''True''] then Some True
      else if s \<in> set [''0'', ''f'', ''F'', ''FALSE'', ''false'', ''False''] then Some False
      else None)"

text \<open>The value of \<open>b, _ := strconv.ParseBool(s)\<close>.\<close>

definition parse_bool_or_false :: "string \<Rightarrow> bool" where
  "parse_bool_or_false s = (ParseBool s = Some True)"

definition FormatBool :: "bool \<Rightarrow> string" where
  "FormatBool b = (if b then ''true'' else ''false'')"

datatype num_error = ErrSyntax | ErrRange

abbreviation max_uint64 :: nat where "max_uint64 \<equiv> 18446744073709551615"
abbreviation max_int64 :: int where "max_int64 \<equiv> 9223372036854775807"
abbreviation min_int64 :: int where "min_int64 \<equiv> - 9223372036854775808"

definition digit_value :: "char \<Rightarrow> nat option" where
  "digit_value c = (let n = of_char c :: nat in if 48 \<le> n \<and> n \<le> 57 then Some (n - 48) else None)"

text \<open>
  The digit loop of \<open>ParseUint(s, 10, 64)\<close>: left to right, the first non-digit is a syntax error
  and the first digit that leaves the 64 bits a range error.
\<close>

fun parse_digits :: "nat \<Rightarrow> string \<Rightarrow> num_error + nat" where
  "parse_digits n [] = Inr n"
| "parse_digits n (c # s) =
     (case digit_value c of
        None \<Rightarrow> Inl ErrSyntax
      | Some d \<Rightarrow> if max_uint64 < 10 * n + d then Inl ErrRange else parse_digits (10 * n + d) s)"

text \<open>
  \<open>strconv.Atoi\<close> with a 64-bit \<open>int\<close>: the returned value and the error.  The value is 0 with a
  syntax error and the bound that was exceeded with a range error.
\<close>

definition atoi_unsigned :: "bool \<Rightarrow> string \<Rightarrow> int \<times> num_error option" where
  "atoi_unsigned neg s =
     (let range = (if neg then min_int64 else max_int64, Some ErrRange) in
      if s = [] then (0, Some ErrSyntax)
      else case parse_digits 0 s of
             Inl ErrSyntax \<Rightarrow> (0, Some ErrSyntax)
           | Inl ErrRange \<Rightarrow> range
           | Inr n \<Rightarrow>
               (if neg then (if int n \<le> 9223372036854775808 then (- int n, None) else range)
                else (if int n \<le> max_int64 then (int n, None) else range)))"

definition Atoi :: "string \<Rightarrow> int \<times> num_error option" where
  "Atoi s =
     (case s of
        [] \<Rightarrow> (0, Some ErrSyntax)
      | c # s' \<Rightarrow>
          if c = CHR ''-'' then atoi_unsigned True s'
          else if c = CHR ''+'' then atoi_unsigned False s'
          else atoi_unsigned False s)"

text \<open>\<open>strconv.Itoa\<close>, \<open>strconv.FormatInt(_, 10)\<close> and \<open>fmt.Sprint\<close> of an integer.\<close>

fun nat_digits :: "nat \<Rightarrow> string" where
  "nat_digits n =
     (if n < 10 then [char_of (n + 48)] else nat_digits (n div 10) @ [char_of (n mod 10 + 48)])"

declare nat_digits.simps [simp del]

definition Itoa :: "int \<Rightarrow> string" where
  "Itoa i = (if i < 0 then CHR ''-'' # nat_digits (nat (- i)) else nat_digits (nat i))"

section \<open>Package path\<close>

text \<open>\<open>path.Base\<close>: the last element, trailing slashes removed first.\<close>

definition path_base :: "string \<Rightarrow> string" where
  "path_base p =
     (if p = [] then ''.''
      else let q = TrimRight p (CHR ''/'') in
           if q = [] then ''/''
           else rev (takeWhile (\<lambda>c. c \<noteq> CHR ''/'') (rev q)))"

section \<open>Lemmas\<close>

lemma HasPrefix_iff: "HasPrefix s p \<longleftrightarrow> (\<exists>t. s = p @ t)"
  unfolding HasPrefix_def by (metis append_eq_conv_conj append_take_drop_id)

lemma Split_nonempty [simp]: "Split s sep \<noteq> []"
  by (induction s) (auto split: list.splits)

lemma Split_no_sep: "sep \<notin> set s \<Longrightarrow> Split s sep = [s]"
  by (induction s) auto

lemma Split_append: "sep \<notin> set a \<Longrightarrow> Split (a @ sep # s) sep = a # Split s sep"
  by (induction a) auto

lemma Split_parts: "p \<in> set (Split s sep) \<Longrightarrow> sep \<notin> set p"
  by (induction s arbitrary: p) (auto split: if_splits list.splits)

text \<open>Joining the parts with the separator gives the string back.\<close>

fun join_with :: "char \<Rightarrow> string list \<Rightarrow> string" where
  "join_with sep [] = []"
| "join_with sep [p] = p"
| "join_with sep (p # q # ps) = p @ sep # join_with sep (q # ps)"

lemma join_with_Cons: "ps \<noteq> [] \<Longrightarrow> join_with sep (p # ps) = p @ sep # join_with sep ps"
  by (cases ps) auto

lemma join_with_Split: "join_with sep (Split s sep) = s"
proof (induction s)
  case (Cons c s)
  then show ?case
  proof (cases "Split s sep")
    case (Cons p ps)
    then show ?thesis using Cons.IH by (cases ps) auto
  qed simp
qed simp

lemma Cut_found: "sep \<notin> set a \<Longrightarrow> Cut (a @ sep # b) sep = (a, b, True)"
proof -
  assume "sep \<notin> set a"
  then have "\<And>x. x \<in> set a \<Longrightarrow> x \<noteq> sep" by blast
  then show ?thesis by (simp add: Cut_def takeWhile_append2 dropWhile_append2)
qed

lemma Cut_not_found: "sep \<notin> set s \<Longrightarrow> Cut s sep = (s, '''', False)"
  by (simp add: Cut_def)

lemma TrimRight_idem [simp]: "TrimRight (TrimRight s c) c = TrimRight s c"
  by (simp add: TrimRight_def)

lemma TrimRight_no_suffix: "\<not> HasSuffix (TrimRight s c) [c]"
proof
  assume "HasSuffix (TrimRight s c) [c]"
  then have "dropWhile (\<lambda>x. x = c) (rev s) \<noteq> []" "hd (dropWhile (\<lambda>x. x = c) (rev s)) = c"
    by (cases "dropWhile (\<lambda>x. x = c) (rev s)", auto simp: TrimRight_def HasSuffix_def HasPrefix_def)+
  then show False using hd_dropWhile [of "\<lambda>x. x = c" "rev s"] by simp
qed

lemma ParseBool_FormatBool [simp]: "ParseBool (FormatBool b) = Some b"
  by (simp add: ParseBool_def FormatBool_def)

lemma parse_bool_or_false_FormatBool [simp]: "parse_bool_or_false (FormatBool b) = b"
  by (simp add: parse_bool_or_false_def)

lemma FormatBool_eq_iff [simp]: "FormatBool a = FormatBool b \<longleftrightarrow> a = b"
  by (simp add: FormatBool_def)

lemma digit_value_char_of: "d < 10 \<Longrightarrow> digit_value (char_of (d + 48 :: nat)) = Some d"
  by (simp add: digit_value_def of_char_of)

lemma parse_digits_append:
  "parse_digits n (s @ t) = (case parse_digits n s of Inl e \<Rightarrow> Inl e | Inr m \<Rightarrow> parse_digits m t)"
  by (induction s arbitrary: n) (auto split: option.splits)

lemma parse_digits_nat_digits: "n \<le> max_uint64 \<Longrightarrow> parse_digits 0 (nat_digits n) = Inr n"
proof (induction n rule: nat_digits.induct)
  case (1 n)
  show ?case
  proof (cases "n < 10")
    case True
    then show ?thesis using "1.prems" by (simp add: nat_digits.simps [of n] digit_value_char_of)
  next
    case False
    have "n div 10 \<le> max_uint64" using "1.prems" by linarith
    with False "1.IH" have "parse_digits 0 (nat_digits (n div 10)) = Inr (n div 10)" by blast
    then show ?thesis
      using "1.prems" False
      by (simp add: nat_digits.simps [of n] parse_digits_append digit_value_char_of)
  qed
qed

lemma nat_digits_nonempty [simp]: "nat_digits n \<noteq> []"
  by (subst nat_digits.simps) simp

lemma set_nat_digits: "c \<in> set (nat_digits n) \<Longrightarrow> \<exists>d<10. c = char_of (d + 48 :: nat)"
proof (induction n rule: nat_digits.induct)
  case (1 n)
  then show ?case
    by (cases "n < 10") (auto simp: nat_digits.simps [of n] intro: exI [of _ "n mod 10"])
qed

lemma nat_digits_digit: "c \<in> set (nat_digits n) \<Longrightarrow> 48 \<le> (of_char c :: nat) \<and> of_char c \<le> (57 :: nat)"
  using set_nat_digits [of c n] by (auto simp: of_char_of)

lemma Atoi_Itoa_nat: "int n \<le> max_int64 \<Longrightarrow> Atoi (Itoa (int n)) = (int n, None)"
proof -
  assume n: "int n \<le> max_int64"
  obtain c s where s: "nat_digits n = c # s" by (cases "nat_digits n") auto
  then have "c \<in> set (nat_digits n)" by simp
  then have "c \<noteq> CHR ''-''" "c \<noteq> CHR ''+''"
    using nat_digits_digit [of c n] by auto
  moreover have "parse_digits 0 (nat_digits n) = Inr n"
    by (rule parse_digits_nat_digits) (use n in linarith)
  ultimately show ?thesis using n s by (simp add: Atoi_def Itoa_def atoi_unsigned_def)
qed

lemma nat_digits_no_dot: "CHR ''.'' \<notin> set (nat_digits n)"
  using nat_digits_digit [of "CHR ''.''" n] by auto

lemma parse_digits_unbounded_inj:
  assumes "nat_digits m = nat_digits n"
  shows "m = n"
  using assms
proof (induction m arbitrary: n rule: nat_digits.induct)
  case (1 m)
  have c: "char_of (a + 48 :: nat) = char_of (b + 48) \<Longrightarrow> a = b" if "a < 10" "b < 10" for a b :: nat
  proof -
    assume "char_of (a + 48 :: nat) = (char_of (b + 48) :: char)"
    then have "(of_char (char_of (a + 48 :: nat) :: char) :: nat) = of_char (char_of (b + 48) :: char)"
      by simp
    then show "a = b" using that by (simp add: of_char_of)
  qed
  show ?case
  proof (cases "m < 10")
    case True
    then show ?thesis using "1.prems" c [of m n] nat_digits_nonempty [of "n div 10"]
      by (cases "n < 10")
        (auto simp: nat_digits.simps [of m] nat_digits.simps [of n] simp del: nat_digits_nonempty)
  next
    case False
    then have "\<not> n < 10" using "1.prems"
      by (auto simp: nat_digits.simps [of m] nat_digits.simps [of n])
    then have "nat_digits (m div 10) = nat_digits (n div 10)"
      "char_of (m mod 10 + 48) = (char_of (n mod 10 + 48) :: char)"
      using "1.prems" False by (auto simp: nat_digits.simps [of m] nat_digits.simps [of n])
    then have "m div 10 = n div 10" "m mod 10 = n mod 10"
      using "1.IH" [OF False] c [of "m mod 10" "n mod 10"] by auto
    then show ?thesis by (metis div_mult_mod_eq)
  qed
qed

lemma Itoa_nat_inj [simp]: "Itoa (int m) = Itoa (int n) \<longleftrightarrow> m = n"
  using parse_digits_unbounded_inj by (auto simp: Itoa_def)

lemma path_base_file: "d \<noteq> [] \<Longrightarrow> CHR ''/'' \<notin> set f \<Longrightarrow> f \<noteq> [] \<Longrightarrow> path_base (d @ CHR ''/'' # f) = f"
proof -
  assume d: "d \<noteq> []" and f: "CHR ''/'' \<notin> set f" "f \<noteq> []"
  have "takeWhile (\<lambda>c. c \<noteq> CHR ''/'') (rev f @ CHR ''/'' # rev d) = rev f"
    by (rule takeWhile_tail [of _ _ "rev f", THEN trans]) (use f in \<open>auto simp: takeWhile_eq_all_conv\<close>)
  moreover have "TrimRight (d @ CHR ''/'' # f) (CHR ''/'') = d @ CHR ''/'' # f"
    using f by (cases f rule: rev_cases) (auto simp: TrimRight_def)
  ultimately show ?thesis by (simp add: path_base_def)
qed

text \<open>A string that starts and ends with printable ASCII has nothing to trim.\<close>

definition plain :: "char \<Rightarrow> bool" where
  "plain c \<longleftrightarrow> 33 \<le> (of_char c :: nat) \<and> of_char c \<le> (126 :: nat)"

lemma space_runes_not_plain: "p \<in> set space_runes \<Longrightarrow> p \<noteq> [] \<and> \<not> plain (hd p) \<and> \<not> plain (last p)"
  by (auto simp: space_runes_def plain_def of_char_of)

lemma trim_left_runes_plain:
  assumes "\<And>p. p \<in> set rs \<Longrightarrow> p \<noteq> [] \<Longrightarrow> \<not> plain (hd p)" and "s = [] \<or> plain (hd s)"
  shows "trim_left_runes rs s = s"
proof -
  have "find (\<lambda>p. p \<noteq> [] \<and> HasPrefix s p) rs = None"
    using assms by (auto simp: find_None_iff HasPrefix_iff)
  then show ?thesis by (simp add: trim_left_runes.simps)
qed

lemma TrimSpace_plain: "s = [] \<or> plain (hd s) \<and> plain (last s) \<Longrightarrow> TrimSpace s = s"
proof -
  assume s: "s = [] \<or> plain (hd s) \<and> plain (last s)"
  have "trim_left_runes space_runes s = s"
    by (rule trim_left_runes_plain) (use s space_runes_not_plain in auto)
  moreover have "trim_left_runes (map rev space_runes) (rev s) = rev s"
    by (rule trim_left_runes_plain) (use s space_runes_not_plain in \<open>auto simp: hd_rev\<close>)
  ultimately show ?thesis by (simp add: TrimSpace_def)
qed

section \<open>Paths of the CSI drivers\<close>

text \<open>\<open>strings.Contains(s, substr)\<close>.\<close>

fun Contains :: "string \<Rightarrow> string \<Rightarrow> bool" where
  "Contains [] sub = (sub = [])"
| "Contains (c # s) sub = (HasPrefix (c # s) sub \<or> Contains s sub)"

text \<open>
  \<open>path.Clean\<close>, which on Unix is also \<open>filepath.Clean\<close>: the elements between slashes are read from the left;
  the accumulator holds the elements of the result, last first.
\<close>

fun clean_elements :: "bool \<Rightarrow> string list \<Rightarrow> string list \<Rightarrow> string list" where
  "clean_elements rooted acc [] = rev acc"
| "clean_elements rooted acc (e # es) =
     (if e = '''' \<or> e = ''.'' then clean_elements rooted acc es
      else if e = ''..'' then
        (case acc of
           [] \<Rightarrow> clean_elements rooted (if rooted then [] else [''..'']) es
         | a # as \<Rightarrow> clean_elements rooted (if a = ''..'' then ''..'' # acc else as) es)
      else clean_elements rooted (e # acc) es)"

definition path_Clean :: "string \<Rightarrow> string" where
  "path_Clean p =
     (let rooted = HasPrefix p ''/'';
          q = join_with (CHR ''/'') (clean_elements rooted [] (Split p (CHR ''/''))) in
      if rooted then ''/'' @ q else if q = '''' then ''.'' else q)"

text \<open>\<open>path.Join\<close>: empty elements are ignored.\<close>

definition path_Join :: "string list \<Rightarrow> string" where
  "path_Join es =
     (let ne = filter (\<lambda>e. e \<noteq> '''') es in
      if ne = [] then '''' else path_Clean (join_with (CHR ''/'') ne))"

end
