(* ===== verification/K8s_Api.thy ===== *)
theory K8s_Api
  imports Go_Strings
begin

text \<open>
  The Kubernetes objects the operator handles and the API server it talks to.

  The custom resources (\<open>api/v1alpha1/dataset_types.go\<close>, \<open>datasetinternal_types.go\<close>) are modelled
  field by field; of the core Kubernetes types only the fields the repository reads or writes are
  kept.  The controller-runtime client, the API server behind it, the UUID generator and the
  environment variables are not code of this repository: they are the fields of the record
  \<open>'w cluster_api\<close>, a parameter of every definition that uses them, over an opaque world \<open>'w\<close>.
  What the controllers rely on is the locale \<open>api_server\<close>: the documented contract of the
  object store, stated over a \<open>view\<close> of the world as a map from object keys to objects, with
  failed writes allowed to have taken effect.  The theory ends with an in-memory API server with
  fault injection that interprets the locale.
\<close>

section \<open>Object metadata\<close>

record owner_ref =
  or_name :: string
  or_uid :: string

record object_meta =
  om_name :: string
  om_namespace :: string
  om_labels :: smap
  om_annotations :: smap
  om_finalizers :: "string list"
  om_deletionTimestamp :: "string option"
  om_uid :: string
  om_resourceVersion :: string
  om_ownerReferences :: "owner_ref list"

text \<open>\<open>metav1.ObjectMeta{Name: n, Namespace: ns, Labels: ls}\<close>.\<close>

definition ObjectMeta :: "string \<Rightarrow> string \<Rightarrow> smap \<Rightarrow> object_meta" where
  "ObjectMeta n ns ls =
     \<lparr>om_name = n, om_namespace = ns, om_labels = ls, om_annotations = [], om_finalizers = [],
      om_deletionTimestamp = None, om_uid = '''', om_resourceVersion = '''', om_ownerReferences = []\<rparr>"

section \<open>Custom resources\<close>

text \<open>Status constants of \<open>dataset_types.go\<close>.\<close>

definition StatusEmpty :: string where "StatusEmpty = ''''"
definition StatusInitial :: string where "StatusInitial = ''Initializing''"
definition StatusPending :: string where "StatusPending = ''Pending''"
definition StatusOK :: string where "StatusOK = ''OK''"
definition StatusDisabled :: string where "StatusDisabled = ''Disabled''"
definition StatusFail :: string where "StatusFail = ''Failed''"

lemmas status_defs = StatusEmpty_def StatusInitial_def StatusPending_def StatusOK_def
  StatusDisabled_def StatusFail_def

text \<open>\<open>None\<close> is the nil map: the controllers compare \<open>Spec.Local\<close> and \<open>Spec.Remote\<close> with nil.\<close>

record DatasetSpec =
  sp_Local :: "smap option"
  sp_Remote :: "smap option"
  sp_Type :: string
  sp_Url :: string
  sp_Format :: string
  sp_Extract :: string

record DatasetStatusCondition =
  sc_Status :: string
  sc_Info :: string

record DatasetStatus =
  st_Caching :: DatasetStatusCondition
  st_Provision :: DatasetStatusCondition

record Dataset =
  ds_meta :: object_meta
  ds_Spec :: DatasetSpec
  ds_Status :: DatasetStatus

record CachingPlacementInfo =
  cpi_Key :: string
  cpi_Value :: string

record CachingPlacement =
  cp_Gateways :: "CachingPlacementInfo list"
  cp_DataLocations :: "CachingPlacementInfo list"

record DatasetInternal =
  di_meta :: object_meta
  di_Spec :: DatasetSpec
  di_Placements :: CachingPlacement

text \<open>A read \<open>Spec.Local[k]\<close>, which is legal on the nil map.\<close>

abbreviation local_map :: "DatasetSpec \<Rightarrow> smap" where
  "local_map s \<equiv> (case sp_Local s of None \<Rightarrow> [] | Some m \<Rightarrow> m)"

abbreviation remote_map :: "DatasetSpec \<Rightarrow> smap" where
  "remote_map s \<equiv> (case sp_Remote s of None \<Rightarrow> [] | Some m \<Rightarrow> m)"

definition empty_condition :: DatasetStatusCondition where
  "empty_condition = \<lparr>sc_Status = '''', sc_Info = ''''\<rparr>"

definition empty_status :: DatasetStatus where
  "empty_status = \<lparr>st_Caching = empty_condition, st_Provision = empty_condition\<rparr>"

definition empty_placement :: CachingPlacement where
  "empty_placement = \<lparr>cp_Gateways = [], cp_DataLocations = []\<rparr>"

definition empty_spec :: DatasetSpec where
  "empty_spec = \<lparr>sp_Local = None, sp_Remote = None, sp_Type = '''', sp_Url = '''', sp_Format = '''',
                 sp_Extract = ''''\<rparr>"

section \<open>Core Kubernetes objects\<close>

datatype access_mode = ReadWriteOnce | ReadOnlyMany | ReadWriteMany

datatype claim_phase = ClaimUnset | ClaimPending | ClaimBound | ClaimLost

text \<open>Resource quantities are kept as the literals given to \<open>resource.MustParse\<close>.\<close>

record PersistentVolumeClaim =
  pvc_meta :: object_meta
  pvc_accessModes :: "access_mode list"
  pvc_volumeName :: string
  pvc_storageClassName :: "string option"
  pvc_requests :: smap
  pvc_limits :: smap
  pvc_selector :: "smap option"
  pvc_phase :: claim_phase

datatype host_path_type = HostPathDirectory | HostPathDirectoryOrCreate

datatype pv_source =
    CSIPersistentVolumeSource string string smap
  | HostPathVolumeSource string host_path_type

record PersistentVolume =
  pv_meta :: object_meta
  pv_storageClassName :: string
  pv_accessModes :: "access_mode list"
  pv_capacity :: smap
  pv_source :: pv_source

record Secret =
  sec_meta :: object_meta
  sec_Data :: smap
  sec_StringData :: smap

record ConfigMap =
  cm_meta :: object_meta
  cm_Data :: smap

record Service =
  svc_meta :: object_meta
  svc_ClusterIP :: string
  svc_Ports :: "(string \<times> int) list"

record EnvFromSource =
  ef_Prefix :: string
  ef_ConfigMapRef :: "string option"
  ef_SecretRef :: "string option"

record VolumeMount =
  vm_Name :: string
  vm_MountPath :: string

record Container =
  ct_Name :: string
  ct_Image :: string
  ct_ImagePullPolicy :: string
  ct_Command :: "string list"
  ct_EnvFrom :: "EnvFromSource list"
  ct_VolumeMounts :: "VolumeMount list"

text \<open>A pod volume; \<open>vol_PVC\<close> is the claim name of its \<open>PersistentVolumeClaim\<close> source, if it has one.\<close>

record Volume =
  vol_Name :: string
  vol_PVC :: "string option"

record Pod =
  pod_meta :: object_meta
  pod_Volumes :: "Volume list"
  pod_InitContainers :: "Container list"
  pod_Containers :: "Container list"
  pod_NodeName :: string

record Job =
  job_meta :: object_meta
  job_BackoffLimit :: int
  job_TTLSecondsAfterFinished :: int
  job_Containers :: "Container list"
  job_RestartPolicy :: string

section \<open>Objects and keys\<close>

datatype kind = KDataset | KDatasetInternal | KPersistentVolumeClaim | KPersistentVolume | KSecret
  | KConfigMap | KService | KPod | KJob

datatype k8s_object = ODataset Dataset | ODatasetInternal DatasetInternal
  | OPersistentVolumeClaim PersistentVolumeClaim | OPersistentVolume PersistentVolume
  | OSecret Secret | OConfigMap ConfigMap | OService Service | OPod Pod | OJob Job

text \<open>\<open>types.NamespacedName\<close> as (namespace, name).\<close>

type_synonym namespaced_name = "string \<times> string"
type_synonym obj_key = "kind \<times> namespaced_name"
type_synonym cluster = "obj_key \<rightharpoonup> k8s_object"

fun meta_of :: "k8s_object \<Rightarrow> object_meta" where
  "meta_of (ODataset d) = ds_meta d"
| "meta_of (ODatasetInternal d) = di_meta d"
| "meta_of (OPersistentVolumeClaim p) = pvc_meta p"
| "meta_of (OPersistentVolume p) = pv_meta p"
| "meta_of (OSecret s) = sec_meta s"
| "meta_of (OConfigMap c) = cm_meta c"
| "meta_of (OService s) = svc_meta s"
| "meta_of (OPod p) = pod_meta p"
| "meta_of (OJob j) = job_meta j"

fun map_meta :: "(object_meta \<Rightarrow> object_meta) \<Rightarrow> k8s_object \<Rightarrow> k8s_object" where
  "map_meta f (ODataset d) = ODataset (d\<lparr>ds_meta := f (ds_meta d)\<rparr>)"
| "map_meta f (ODatasetInternal d) = ODatasetInternal (d\<lparr>di_meta := f (di_meta d)\<rparr>)"
| "map_meta f (OPersistentVolumeClaim p) = OPersistentVolumeClaim (p\<lparr>pvc_meta := f (pvc_meta p)\<rparr>)"
| "map_meta f (OPersistentVolume p) = OPersistentVolume (p\<lparr>pv_meta := f (pv_meta p)\<rparr>)"
| "map_meta f (OSecret s) = OSecret (s\<lparr>sec_meta := f (sec_meta s)\<rparr>)"
| "map_meta f (OConfigMap c) = OConfigMap (c\<lparr>cm_meta := f (cm_meta c)\<rparr>)"
| "map_meta f (OService s) = OService (s\<lparr>svc_meta := f (svc_meta s)\<rparr>)"
| "map_meta f (OPod p) = OPod (p\<lparr>pod_meta := f (pod_meta p)\<rparr>)"
| "map_meta f (OJob j) = OJob (j\<lparr>job_meta := f (job_meta j)\<rparr>)"

fun kind_of :: "k8s_object \<Rightarrow> kind" where
  "kind_of (ODataset _) = KDataset"
| "kind_of (ODatasetInternal _) = KDatasetInternal"
| "kind_of (OPersistentVolumeClaim _) = KPersistentVolumeClaim"
| "kind_of (OPersistentVolume _) = KPersistentVolume"
| "kind_of (OSecret _) = KSecret"
| "kind_of (OConfigMap _) = KConfigMap"
| "kind_of (OService _) = KService"
| "kind_of (OPod _) = KPod"
| "kind_of (OJob _) = KJob"

text \<open>Persistent volumes are cluster-scoped: their key carries no namespace.\<close>

definition key_of :: "kind \<Rightarrow> namespaced_name \<Rightarrow> obj_key" where
  "key_of k n = (if k = KPersistentVolume then (k, ('''', snd n)) else (k, n))"

definition obj_key :: "k8s_object \<Rightarrow> obj_key" where
  "obj_key x = key_of (kind_of x) (om_namespace (meta_of x), om_name (meta_of x))"

section \<open>The API the operator calls\<close>

datatype api_error = NotFound string | AlreadyExists string | Conflict string | BadRequest string
  | InternalError string | ServiceUnavailable string | OtherError string

definition IsNotFound :: "api_error \<Rightarrow> bool" where
  "IsNotFound e = (case e of NotFound _ \<Rightarrow> True | _ \<Rightarrow> False)"

record 'w cluster_api =
  api_Get :: "kind \<Rightarrow> namespaced_name \<Rightarrow> ('w, api_error + k8s_object) state"
  api_Create :: "k8s_object \<Rightarrow> ('w, api_error option) state"
  api_Update :: "k8s_object \<Rightarrow> ('w, api_error option) state"
  api_StatusUpdate :: "k8s_object \<Rightarrow> ('w, api_error option) state"
  api_Delete :: "k8s_object \<Rightarrow> ('w, api_error option) state"
  api_ListPods :: "string \<Rightarrow> smap \<Rightarrow> string list \<Rightarrow> ('w, api_error + Pod list) state"
  api_ListEvents :: "string \<Rightarrow> string \<Rightarrow> string \<Rightarrow> string \<Rightarrow> ('w, api_error + string list) state"
  api_NewUUID :: "('w, string) state"
  api_SetControllerReference :: "k8s_object \<Rightarrow> k8s_object \<Rightarrow> api_error + k8s_object"
  api_Getenv :: "string \<Rightarrow> string"

text \<open>\<open>reconcile.Result\<close>; the delay is in seconds.  A reconciler returns it with an error.\<close>

record reconcile_result =
  rr_Requeue :: bool
  rr_RequeueAfter :: nat

definition Result :: reconcile_result where
  "Result = \<lparr>rr_Requeue = False, rr_RequeueAfter = 0\<rparr>"

definition ResultRequeue :: reconcile_result where
  "ResultRequeue = \<lparr>rr_Requeue = True, rr_RequeueAfter = 0\<rparr>"

type_synonym reconcile_return = "reconcile_result \<times> api_error option"

section \<open>The contract of the API server\<close>

text \<open>
  \<open>payload\<close> is what a stored object shares with the object that was sent: the server fills in uid,
  resource version, deletion timestamp and may add finalizers, keeps the status apart (the status
  subresource), and folds a Secret's write-only \<open>StringData\<close> into its \<open>Data\<close>.
\<close>

definition strip_meta :: "object_meta \<Rightarrow> object_meta" where
  "strip_meta m = m\<lparr>om_uid := '''', om_resourceVersion := '''', om_deletionTimestamp := None,
                     om_finalizers := []\<rparr>"

definition fold_string_data :: "Secret \<Rightarrow> Secret" where
  "fold_string_data s =
     s\<lparr>sec_Data := fold (\<lambda>(k, v). mset_key k v) (sec_StringData s) (sec_Data s), sec_StringData := []\<rparr>"

fun admit :: "k8s_object \<Rightarrow> k8s_object" where
  "admit (ODataset d) = ODataset (d\<lparr>ds_Status := empty_status\<rparr>)"
| "admit (ODatasetInternal d) = ODatasetInternal (d\<lparr>di_Placements := empty_placement\<rparr>)"
| "admit (OPersistentVolumeClaim p) = OPersistentVolumeClaim (p\<lparr>pvc_phase := ClaimUnset\<rparr>)"
| "admit (OSecret s) = OSecret (fold_string_data s)"
| "admit x = x"

definition payload :: "k8s_object \<Rightarrow> k8s_object" where
  "payload x = map_meta strip_meta (admit x)"

datatype obj_status = StDataset DatasetStatus | StInternal CachingPlacement | StClaim claim_phase | StNone

fun status_of :: "k8s_object \<Rightarrow> obj_status" where
  "status_of (ODataset d) = StDataset (ds_Status d)"
| "status_of (ODatasetInternal d) = StInternal (di_Placements d)"
| "status_of (OPersistentVolumeClaim p) = StClaim (pvc_phase p)"
| "status_of _ = StNone"

abbreviation finalizers_of :: "k8s_object \<Rightarrow> string list" where
  "finalizers_of x \<equiv> om_finalizers (meta_of x)"

abbreviation deletion_of :: "k8s_object \<Rightarrow> string option" where
  "deletion_of x \<equiv> om_deletionTimestamp (meta_of x)"

text \<open>
  What the server stores: a Secret without \<open>StringData\<close>, and an object being deleted only as long as
  it has finalizers (pods, which are deleted gracefully, apart).
\<close>

definition stored_form :: "k8s_object \<Rightarrow> bool" where
  "stored_form x \<longleftrightarrow>
     (case x of OSecret s \<Rightarrow> sec_StringData s = [] | _ \<Rightarrow> True) \<and>
     (deletion_of x \<noteq> None \<and> kind_of x \<noteq> KPod \<longrightarrow> finalizers_of x \<noteq> [])"

text \<open>The effect of a successful write.\<close>

definition created :: "k8s_object \<Rightarrow> cluster \<Rightarrow> cluster \<Rightarrow> bool" where
  "created x v v' \<longleftrightarrow> v (obj_key x) = None \<and>
     (\<exists>y. v' = v(obj_key x \<mapsto> y) \<and> obj_key y = obj_key x \<and> payload y = payload x \<and>
          set (finalizers_of x) \<subseteq> set (finalizers_of y) \<and> deletion_of y = None)"

definition updated :: "k8s_object \<Rightarrow> cluster \<Rightarrow> cluster \<Rightarrow> bool" where
  "updated x v v' \<longleftrightarrow> (\<exists>old. v (obj_key x) = Some old \<and>
     (if deletion_of old \<noteq> None \<and> finalizers_of x = [] then v' = v(obj_key x := None)
      else \<exists>y. v' = v(obj_key x \<mapsto> y) \<and> obj_key y = obj_key x \<and> payload y = payload x \<and>
               finalizers_of y = finalizers_of x \<and> deletion_of y = deletion_of old \<and>
               status_of y = status_of old))"

definition status_updated :: "k8s_object \<Rightarrow> cluster \<Rightarrow> cluster \<Rightarrow> bool" where
  "status_updated x v v' \<longleftrightarrow> (\<exists>old y. v (obj_key x) = Some old \<and> v' = v(obj_key x \<mapsto> y) \<and>
     obj_key y = obj_key x \<and> payload y = payload old \<and> finalizers_of y = finalizers_of old \<and>
     deletion_of y = deletion_of old \<and> status_of y = status_of x)"

definition deleted :: "k8s_object \<Rightarrow> cluster \<Rightarrow> cluster \<Rightarrow> bool" where
  "deleted x v v' \<longleftrightarrow> (\<exists>old. v (obj_key x) = Some old \<and>
     (if finalizers_of old = [] then v' = v(obj_key x := None)
      else \<exists>y. v' = v(obj_key x \<mapsto> y) \<and> obj_key y = obj_key x \<and> payload y = payload old \<and>
               finalizers_of y = finalizers_of old \<and> deletion_of y \<noteq> None \<and>
               status_of y = status_of old))"

text \<open>Two clusters agree outside a set of keys.\<close>

definition agree_off :: "obj_key set \<Rightarrow> cluster \<Rightarrow> cluster \<Rightarrow> bool" where
  "agree_off K v v' \<longleftrightarrow> (\<forall>k. k \<notin> K \<longrightarrow> v' k = v k)"

lemma agree_off_refl [simp]: "agree_off K v v"
  by (simp add: agree_off_def)

lemma agree_off_trans: "agree_off K u v \<Longrightarrow> agree_off K v w \<Longrightarrow> agree_off K u w"
  by (simp add: agree_off_def)

lemma agree_offD: "agree_off K v w \<Longrightarrow> k \<notin> K \<Longrightarrow> w k = v k"
  unfolding agree_off_def by blast

lemma created_agree: "created x v v' \<Longrightarrow> obj_key x \<in> K \<Longrightarrow> agree_off K v v'"
  by (auto simp: created_def agree_off_def)

lemma updated_agree: "updated x v v' \<Longrightarrow> obj_key x \<in> K \<Longrightarrow> agree_off K v v'"
  by (auto simp: updated_def agree_off_def split: if_splits)

lemma status_updated_agree: "status_updated x v v' \<Longrightarrow> obj_key x \<in> K \<Longrightarrow> agree_off K v v'"
  by (auto simp: status_updated_def agree_off_def)

lemma deleted_agree: "deleted x v v' \<Longrightarrow> obj_key x \<in> K \<Longrightarrow> agree_off K v v'"
  by (auto simp: deleted_def agree_off_def split: if_splits)

lemmas effect_agree = created_agree updated_agree status_updated_agree deleted_agree

locale api_server =
  fixes api :: "'w cluster_api"
    and view :: "'w \<Rightarrow> cluster"
  assumes view_key: "view w ky = Some x \<Longrightarrow> obj_key x = ky"
    and view_stored: "view w ky = Some x \<Longrightarrow> stored_form x"
    and get_view: "run_state (api_Get api k n) w = (r, w') \<Longrightarrow> view w' = view w"
    and get_found: "run_state (api_Get api k n) w = (Inr x, w') \<Longrightarrow> view w (key_of k n) = Some x"
    and get_missing: "run_state (api_Get api k n) w = (Inl e, w') \<Longrightarrow> IsNotFound e \<Longrightarrow>
      view w (key_of k n) = None"
    and create_ok: "run_state (api_Create api x) w = (None, w') \<Longrightarrow> created x (view w) (view w')"
    and create_failed: "run_state (api_Create api x) w = (Some e, w') \<Longrightarrow>
      view w' = view w \<or> created x (view w) (view w')"
    and update_ok: "run_state (api_Update api x) w = (None, w') \<Longrightarrow> updated x (view w) (view w')"
    and update_failed: "run_state (api_Update api x) w = (Some e, w') \<Longrightarrow>
      view w' = view w \<or> updated x (view w) (view w')"
    and status_update_ok: "run_state (api_StatusUpdate api x) w = (None, w') \<Longrightarrow>
      status_updated x (view w) (view w')"
    and status_update_failed: "run_state (api_StatusUpdate api x) w = (Some e, w') \<Longrightarrow>
      view w' = view w \<or> status_updated x (view w) (view w')"
    and delete_ok: "run_state (api_Delete api x) w = (None, w') \<Longrightarrow> deleted x (view w) (view w')"
    and delete_failed: "run_state (api_Delete api x) w = (Some e, w') \<Longrightarrow>
      view w' = view w \<or> deleted x (view w) (view w')"
    and list_pods_view: "run_state (api_ListPods api ns ls hs) w = (ps, w') \<Longrightarrow> view w' = view w"
    and list_events_view: "run_state (api_ListEvents api ns nm rv why) w = (es, w') \<Longrightarrow> view w' = view w"
    and new_uuid_view: "run_state (api_NewUUID api) w = (u, w') \<Longrightarrow> view w' = view w"
    and set_reference: "api_SetControllerReference api own x = Inr y \<Longrightarrow>
      \<exists>rs. y = map_meta (\<lambda>m. m\<lparr>om_ownerReferences := rs\<rparr>) x"
begin

text \<open>Worlds whose views agree outside \<open>K\<close>: the relation of every frame statement.\<close>

definition off :: "obj_key set \<Rightarrow> 'w \<Rightarrow> 'w \<Rightarrow> bool" where
  "off K w w' \<longleftrightarrow> agree_off K (view w) (view w')"

lemma off_reflp [simp, intro]: "reflp (off K)"
  by (simp add: off_def reflp_def)

lemma off_transp [simp, intro]: "transp (off K)"
  by (auto simp: off_def transp_def intro: agree_off_trans)

lemma frame_get [frame_intros]: "state_io_rel (off K) (api_Get api k n)"
  by (rule state_io_relI) (auto simp: off_def dest: get_view)

lemma frame_list_pods [frame_intros]: "state_io_rel (off K) (api_ListPods api ns ls hs)"
  by (rule state_io_relI) (auto simp: off_def dest: list_pods_view)

lemma frame_list_events [frame_intros]: "state_io_rel (off K) (api_ListEvents api ns n rv why)"
  by (rule state_io_relI) (auto simp: off_def dest: list_events_view)

lemma frame_uuid [frame_intros]: "state_io_rel (off K) (api_NewUUID api)"
  by (rule state_io_relI) (auto simp: off_def dest: new_uuid_view)

lemma frame_create [frame_intros]: "obj_key x \<in> K \<Longrightarrow> state_io_rel (off K) (api_Create api x)"
proof (rule state_io_relI)
  fix r w w'
  assume "obj_key x \<in> K" "run_state (api_Create api x) w = (r, w')"
  then show "off K w w'"
    by (cases r) (auto simp: off_def dest!: create_ok create_failed intro: created_agree)
qed

lemma frame_update [frame_intros]: "obj_key x \<in> K \<Longrightarrow> state_io_rel (off K) (api_Update api x)"
proof (rule state_io_relI)
  fix r w w'
  assume "obj_key x \<in> K" "run_state (api_Update api x) w = (r, w')"
  then show "off K w w'"
    by (cases r) (auto simp: off_def dest!: update_ok update_failed intro: updated_agree)
qed

lemma frame_status_update [frame_intros]:
  "obj_key x \<in> K \<Longrightarrow> state_io_rel (off K) (api_StatusUpdate api x)"
proof (rule state_io_relI)
  fix r w w'
  assume "obj_key x \<in> K" "run_state (api_StatusUpdate api x) w = (r, w')"
  then show "off K w w'"
    by (cases r) (auto simp: off_def dest!: status_update_ok status_update_failed
        intro: status_updated_agree)
qed

lemma frame_delete [frame_intros]: "obj_key x \<in> K \<Longrightarrow> state_io_rel (off K) (api_Delete api x)"
proof (rule state_io_relI)
  fix r w w'
  assume "obj_key x \<in> K" "run_state (api_Delete api x) w = (r, w')"
  then show "off K w w'"
    by (cases r) (auto simp: off_def dest!: delete_ok delete_failed intro: deleted_agree)
qed

end

text \<open>
  A cluster in a calm spell: from a calm world no request fails spuriously.  A \<open>Get\<close> fails only
  with \<open>NotFound\<close>, a \<open>Create\<close> of an absent and a \<open>Delete\<close> of a present object succeed, and so does
  an \<open>Update\<close> of a present one unless it adds a finalizer to an object that is being deleted, which
  the API server forbids.
\<close>

locale calm_api_server = api_server api view
  for api :: "'w cluster_api" and view :: "'w \<Rightarrow> cluster" +
  fixes calm :: "'w \<Rightarrow> bool"
  assumes calm_get: "calm w \<Longrightarrow> run_state (api_Get api k n) w = (r, w') \<Longrightarrow>
      calm w' \<and> (\<forall>e. r = Inl e \<longrightarrow> IsNotFound e)"
    and calm_create: "calm w \<Longrightarrow> run_state (api_Create api x) w = (res, w') \<Longrightarrow>
      calm w' \<and> (view w (obj_key x) = None \<longrightarrow> res = None)"
    and calm_update: "calm w \<Longrightarrow> run_state (api_Update api x) w = (res, w') \<Longrightarrow>
      calm w' \<and> (\<forall>old. view w (obj_key x) = Some old \<longrightarrow>
        (deletion_of old = None \<or> set (finalizers_of x) \<subseteq> set (finalizers_of old)) \<longrightarrow> res = None)"
    and calm_status_update: "calm w \<Longrightarrow> run_state (api_StatusUpdate api x) w = (res, w') \<Longrightarrow>
      calm w' \<and> (view w (obj_key x) \<noteq> None \<longrightarrow> res = None)"
    and calm_delete: "calm w \<Longrightarrow> run_state (api_Delete api x) w = (res, w') \<Longrightarrow>
      calm w' \<and> (view w (obj_key x) \<noteq> None \<longrightarrow> res = None)"
    and calm_list_pods: "calm w \<Longrightarrow> run_state (api_ListPods api ns ls hs) w = (ps, w') \<Longrightarrow>
      calm w' \<and> (\<exists>l. ps = Inr l)"
    and calm_list_events: "calm w \<Longrightarrow> run_state (api_ListEvents api ns nm rv why) w = (es, w') \<Longrightarrow>
      calm w' \<and> (\<exists>l. es = Inr l)"
    and calm_new_uuid: "calm w \<Longrightarrow> run_state (api_NewUUID api) w = (u, w') \<Longrightarrow> calm w'"
    and calm_set_reference: "\<exists>y. api_SetControllerReference api own x = Inr y"
begin

lemma calm_get_cases:
  assumes "calm w"
  obtains e w' where "run_state (api_Get api k n) w = (Inl e, w')" "IsNotFound e"
      "view w (key_of k n) = None" "view w' = view w" "calm w'"
  | x w' where "run_state (api_Get api k n) w = (Inr x, w')"
      "view w (key_of k n) = Some x" "view w' = view w" "calm w'"
proof -
  obtain r w' where r: "run_state (api_Get api k n) w = (r, w')" by fastforce
  show thesis
  proof (cases r)
    case (Inl e)
    then show ?thesis using r that(1) calm_get [OF assms r] get_view [OF r] get_missing by blast
  next
    case (Inr x)
    then show ?thesis using r that(2) calm_get [OF assms r] get_view [OF r] get_found by blast
  qed
qed

end

section \<open>An in-memory API server with fault injection\<close>

text \<open>
  The object store of a test cluster: each request consumes one entry of the fault schedule and
  fails without effect when the entry is \<open>True\<close>.
\<close>

record mem_world =
  mw_store :: cluster
  mw_faults :: "bool list"
  mw_uuids :: "string list"
  mw_pods :: "Pod list"
  mw_events :: "((string \<times> string \<times> string \<times> string) \<times> string) list"

definition store_view :: "cluster \<Rightarrow> cluster" where
  "store_view st k =
     (case st k of None \<Rightarrow> None | Some x \<Rightarrow> if obj_key x = k \<and> stored_form x then Some x else None)"

definition mem_view :: "mem_world \<Rightarrow> cluster" where
  "mem_view w = store_view (mw_store w)"

definition mem_request :: "(mem_world \<Rightarrow> 'a) \<Rightarrow> (mem_world, api_error + 'a) state" where
  "mem_request f = State (\<lambda>w.
     case mw_faults w of
       [] \<Rightarrow> (Inr (f w), w)
     | b # fs \<Rightarrow> (if b then Inl (OtherError ''injected fault'') else Inr (f w), w\<lparr>mw_faults := fs\<rparr>))"

definition mem_write :: "(cluster \<Rightarrow> api_error option \<times> cluster) \<Rightarrow> (mem_world, api_error option) state" where
  "mem_write f = State (\<lambda>w.
     case mw_faults w of
       [] \<Rightarrow> (fst (f (mw_store w)), w\<lparr>mw_store := snd (f (mw_store w))\<rparr>)
     | b # fs \<Rightarrow>
         if b then (Some (OtherError ''injected fault''), w\<lparr>mw_faults := fs\<rparr>)
         else (fst (f (mw_store w)), w\<lparr>mw_faults := fs, mw_store := snd (f (mw_store w))\<rparr>))"

definition set_deletion :: "string option \<Rightarrow> k8s_object \<Rightarrow> k8s_object" where
  "set_deletion t = map_meta (\<lambda>m. m\<lparr>om_deletionTimestamp := t\<rparr>)"

fun set_status :: "obj_status \<Rightarrow> k8s_object \<Rightarrow> k8s_object" where
  "set_status (StDataset s) (ODataset d) = ODataset (d\<lparr>ds_Status := s\<rparr>)"
| "set_status (StInternal p) (ODatasetInternal d) = ODatasetInternal (d\<lparr>di_Placements := p\<rparr>)"
| "set_status (StClaim p) (OPersistentVolumeClaim c) = OPersistentVolumeClaim (c\<lparr>pvc_phase := p\<rparr>)"
| "set_status _ x = x"

definition mem_Get :: "kind \<Rightarrow> namespaced_name \<Rightarrow> (mem_world, api_error + k8s_object) state" where
  "mem_Get k n = do {
     r \<leftarrow> mem_request (\<lambda>w. mem_view w (key_of k n));
     State_Monad.return
       (case r of Inl e \<Rightarrow> Inl e | Inr None \<Rightarrow> Inl (NotFound (snd n)) | Inr (Some x) \<Rightarrow> Inr x)
   }"

definition create_body :: "k8s_object \<Rightarrow> cluster \<Rightarrow> api_error option \<times> cluster" where
  "create_body x st =
     (case store_view st (obj_key x) of
        Some _ \<Rightarrow> (Some (AlreadyExists (om_name (meta_of x))), st)
      | None \<Rightarrow> (None, st(obj_key x \<mapsto> set_deletion None (admit x))))"

definition update_body :: "k8s_object \<Rightarrow> cluster \<Rightarrow> api_error option \<times> cluster" where
  "update_body x st =
     (case store_view st (obj_key x) of
        None \<Rightarrow> (Some (NotFound (om_name (meta_of x))), st)
      | Some old \<Rightarrow>
          if deletion_of old \<noteq> None \<and> \<not> set (finalizers_of x) \<subseteq> set (finalizers_of old) then
            (Some (BadRequest ''no new finalizers can be added if the object is being deleted''), st)
          else if deletion_of old \<noteq> None \<and> finalizers_of x = [] then (None, st(obj_key x := None))
          else (None, st(obj_key x \<mapsto>
                  set_status (status_of old) (set_deletion (deletion_of old) (admit x)))))"

definition status_update_body :: "k8s_object \<Rightarrow> cluster \<Rightarrow> api_error option \<times> cluster" where
  "status_update_body x st =
     (case store_view st (obj_key x) of
        None \<Rightarrow> (Some (NotFound (om_name (meta_of x))), st)
      | Some old \<Rightarrow> (None, st(obj_key x \<mapsto> set_status (status_of x) old)))"

definition delete_body :: "k8s_object \<Rightarrow> cluster \<Rightarrow> api_error option \<times> cluster" where
  "delete_body x st =
     (case store_view st (obj_key x) of
        None \<Rightarrow> (Some (NotFound (om_name (meta_of x))), st)
      | Some old \<Rightarrow>
          if finalizers_of old = [] then (None, st(obj_key x := None))
          else (None, st(obj_key x \<mapsto> set_deletion (Some ''now'') old)))"

definition mem_ListPods :: "string \<Rightarrow> smap \<Rightarrow> string list \<Rightarrow> (mem_world, api_error + Pod list) state" where
  "mem_ListPods ns ls hs = mem_request (\<lambda>w.
     filter (\<lambda>p. om_namespace (pod_meta p) = ns \<and>
               (\<forall>(k, v) \<in> set ls. map_of (om_labels (pod_meta p)) k = Some v) \<and>
               (\<forall>h \<in> set hs. mhas (om_labels (pod_meta p)) h)) (mw_pods w))"

definition mem_ListEvents ::
  "string \<Rightarrow> string \<Rightarrow> string \<Rightarrow> string \<Rightarrow> (mem_world, api_error + string list) state" where
  "mem_ListEvents ns n rv why = mem_request (\<lambda>w.
     map snd (filter (\<lambda>e. fst e = (ns, n, rv, why)) (mw_events w)))"

definition mem_NewUUID :: "(mem_world, string) state" where
  "mem_NewUUID = State (\<lambda>w.
     case mw_uuids w of
       [] \<Rightarrow> (''00000000-0000-0000-0000-000000000000'', w)
     | u # us \<Rightarrow> (u, w\<lparr>mw_uuids := us\<rparr>))"

definition mem_SetControllerReference :: "k8s_object \<Rightarrow> k8s_object \<Rightarrow> api_error + k8s_object" where
  "mem_SetControllerReference own x =
     Inr (map_meta (\<lambda>m. m\<lparr>om_ownerReferences :=
       [\<lparr>or_name = om_name (meta_of own), or_uid = om_uid (meta_of own)\<rparr>]\<rparr>) x)"

definition mem_api :: "mem_world cluster_api" where
  "mem_api = \<lparr>api_Get = mem_Get, api_Create = (\<lambda>x. mem_write (create_body x)),
     api_Update = (\<lambda>x. mem_write (update_body x)),
     api_StatusUpdate = (\<lambda>x. mem_write (status_update_body x)),
     api_Delete = (\<lambda>x. mem_write (delete_body x)), api_ListPods = mem_ListPods,
     api_ListEvents = mem_ListEvents, api_NewUUID = mem_NewUUID,
     api_SetControllerReference = mem_SetControllerReference,
     api_Getenv = (\<lambda>v. if v = ''OPERATOR_NAMESPACE'' then ''dlf'' else '''')\<rparr>"

lemmas mem_op_defs = mem_api_def mem_Get_def mem_request_def mem_write_def create_body_def
  update_body_def status_update_body_def delete_body_def mem_ListPods_def mem_ListEvents_def
  mem_NewUUID_def mem_SetControllerReference_def mem_view_def store_view_def stored_form_def

definition mem_calm :: "mem_world \<Rightarrow> bool" where
  "mem_calm w \<longleftrightarrow> mw_faults w = []"

lemma meta_of_map_meta [simp]: "meta_of (map_meta f x) = f (meta_of x)"
  by (cases x) auto

lemma kind_of_map_meta [simp]: "kind_of (map_meta f x) = kind_of x"
  by (cases x) auto

lemma meta_of_admit [simp]: "meta_of (admit x) = meta_of x"
  by (cases x) (auto simp: fold_string_data_def)

lemma kind_of_admit [simp]: "kind_of (admit x) = kind_of x"
  by (cases x) auto

lemma meta_of_set_status [simp]: "meta_of (set_status s x) = meta_of x"
  by (cases "(s, x)" rule: set_status.cases) auto

lemma kind_of_set_status [simp]: "kind_of (set_status s x) = kind_of x"
  by (cases "(s, x)" rule: set_status.cases) auto

lemma payload_set_deletion [simp]: "payload (set_deletion t x) = payload x"
  by (cases x) (auto simp: payload_def set_deletion_def strip_meta_def fold_string_data_def)

lemma payload_admit [simp]: "payload (admit x) = payload x"
  by (cases x) (auto simp: payload_def fold_string_data_def)

lemma payload_set_status [simp]: "payload (set_status s x) = payload x"
  by (cases "(s, x)" rule: set_status.cases) (auto simp: payload_def)

lemma status_of_set_status: "kind_of x = kind_of y \<Longrightarrow> status_of (set_status (status_of x) y) = status_of x"
  by (cases x; cases y) auto

lemma obj_key_set_deletion [simp]: "obj_key (set_deletion t x) = obj_key x"
  by (simp add: obj_key_def set_deletion_def)

lemma obj_key_admit [simp]: "obj_key (admit x) = obj_key x"
  by (simp add: obj_key_def)

lemma obj_key_set_status [simp]: "obj_key (set_status s x) = obj_key x"
  by (simp add: obj_key_def)

lemma status_of_set_deletion [simp]: "status_of (set_deletion t x) = status_of x"
  by (cases x) (auto simp: set_deletion_def)

lemma meta_of_set_deletion [simp]: "meta_of (set_deletion t x) = (meta_of x)\<lparr>om_deletionTimestamp := t\<rparr>"
  by (simp add: set_deletion_def)

lemma kind_of_set_deletion [simp]: "kind_of (set_deletion t x) = kind_of x"
  by (simp add: set_deletion_def)

lemma obj_key_kind: "obj_key x = obj_key y \<Longrightarrow> kind_of x = kind_of y"
  by (auto simp: obj_key_def key_of_def split: if_splits)

lemma store_view_key: "store_view st k = Some x \<Longrightarrow> obj_key x = k"
  by (auto simp: store_view_def split: option.splits if_splits)

lemma store_view_stored: "store_view st k = Some x \<Longrightarrow> stored_form x"
  by (auto simp: store_view_def split: option.splits if_splits)

lemma stored_form_admit: "deletion_of x = None \<or> finalizers_of x \<noteq> [] \<Longrightarrow> stored_form (admit x)"
  by (cases x) (auto simp: stored_form_def fold_string_data_def)

lemma stored_form_set_status [simp]: "stored_form (set_status s x) = stored_form x"
  by (cases "(s, x)" rule: set_status.cases) (auto simp: stored_form_def)

lemma stored_form_set_deletion:
  "stored_form x \<Longrightarrow> t = None \<or> finalizers_of x \<noteq> [] \<Longrightarrow> stored_form (set_deletion t x)"
  by (cases x) (auto simp: stored_form_def set_deletion_def)

lemma set_deletion_admit: "set_deletion t (admit x) = admit (set_deletion t x)"
  by (cases x) (auto simp: set_deletion_def fold_string_data_def)

lemma store_view_put: "obj_key y = k \<Longrightarrow> stored_form y \<Longrightarrow> store_view (st(k \<mapsto> y)) = (store_view st)(k \<mapsto> y)"
  by (auto simp: store_view_def fun_eq_iff)

lemma store_view_drop: "store_view (st(k := None)) = (store_view st)(k := None)"
  by (auto simp: store_view_def fun_eq_iff)

text \<open>A write fails by injection without effect, or runs its body on the store.\<close>

lemma mem_write_lift:
  assumes run: "run_state (mem_write f) w = (r, w')"
    and ok: "\<And>st st'. f st = (None, st') \<Longrightarrow> E (store_view st) (store_view st')"
    and bad: "\<And>st st' e. f st = (Some e, st') \<Longrightarrow> st' = st"
  shows "r = None \<Longrightarrow> E (mem_view w) (mem_view w')" and "r = Some e \<Longrightarrow> mem_view w' = mem_view w"
proof -
  obtain r0 st' where f: "f (mw_store w) = (r0, st')" by fastforce
  show "r = None \<Longrightarrow> E (mem_view w) (mem_view w')"
    using run f ok [of "mw_store w" st']
    by (auto simp: mem_write_def mem_view_def split: list.splits if_splits)
  show "r = Some e \<Longrightarrow> mem_view w' = mem_view w"
    using run f bad [of "mw_store w" _ st']
    by (auto simp: mem_write_def mem_view_def split: list.splits if_splits)
qed

lemma mem_write_calm:
  assumes run: "run_state (mem_write f) w = (r, w')" and "mem_calm w"
  shows "mem_calm w'" and "r = fst (f (mw_store w))"
  using assms by (auto simp: mem_write_def mem_calm_def)

lemma create_body_laws:
  shows "create_body x st = (None, st') \<Longrightarrow> created x (store_view st) (store_view st')"
    and "create_body x st = (Some e, st') \<Longrightarrow> st' = st"
  by (auto simp: create_body_def created_def store_view_put set_deletion_admit stored_form_admit
      split: option.splits intro!: exI [of _ "set_deletion None (admit x)"])

lemma update_body_laws:
  shows "update_body x st = (None, st') \<Longrightarrow> updated x (store_view st) (store_view st')"
    and "update_body x st = (Some e, st') \<Longrightarrow> st' = st"
proof -
  assume run: "update_body x st = (None, st')"
  then obtain old where old: "store_view st (obj_key x) = Some old"
    by (auto simp: update_body_def split: option.splits)
  define y where "y = set_status (status_of old) (set_deletion (deletion_of old) (admit x))"
  have "kind_of old = kind_of (set_deletion (deletion_of old) (admit x))"
    using obj_key_kind [OF store_view_key [OF old]] by simp
  then have y: "obj_key y = obj_key x" "payload y = payload x" "finalizers_of y = finalizers_of x"
    "deletion_of y = deletion_of old" "status_of y = status_of old"
    by (simp_all add: y_def status_of_set_status)
  show "updated x (store_view st) (store_view st')"
  proof (cases "deletion_of old \<noteq> None \<and> finalizers_of x = []")
    case True
    then have "st' = st(obj_key x := None)"
      using run old by (auto simp: update_body_def split: if_splits)
    then show ?thesis using True old by (auto simp: updated_def store_view_drop)
  next
    case False
    then have "st' = st(obj_key x \<mapsto> y)"
      using run old by (auto simp: update_body_def y_def split: if_splits)
    moreover have "stored_form y"
      using False y by (simp add: y_def set_deletion_admit stored_form_admit)
    ultimately have "store_view st' = (store_view st)(obj_key x \<mapsto> y)" using y by (simp add: store_view_put)
    then show ?thesis unfolding updated_def using False old y by auto
  qed
qed (auto simp: update_body_def split: option.splits if_splits)

lemma status_update_body_laws:
  shows "status_update_body x st = (None, st') \<Longrightarrow> status_updated x (store_view st) (store_view st')"
    and "status_update_body x st = (Some e, st') \<Longrightarrow> st' = st"
proof -
  assume run: "status_update_body x st = (None, st')"
  then obtain old where old: "store_view st (obj_key x) = Some old"
    and st': "st' = st(obj_key x \<mapsto> set_status (status_of x) old)"
    by (auto simp: status_update_body_def split: option.splits)
  have k: "obj_key old = obj_key x" "kind_of x = kind_of old"
    using store_view_key [OF old] obj_key_kind [OF store_view_key [OF old]] by simp_all
  then show "status_updated x (store_view st) (store_view st')"
    using old store_view_stored [OF old]
    by (auto simp: st' status_updated_def store_view_put status_of_set_status
        intro!: exI [of _ "set_status (status_of x) old"])
qed (auto simp: status_update_body_def split: option.splits)

lemma delete_body_laws:
  shows "delete_body x st = (None, st') \<Longrightarrow> deleted x (store_view st) (store_view st')"
    and "delete_body x st = (Some e, st') \<Longrightarrow> st' = st"
proof -
  assume run: "delete_body x st = (None, st')"
  then obtain old where old: "store_view st (obj_key x) = Some old"
    by (auto simp: delete_body_def split: option.splits)
  have k: "obj_key old = obj_key x" using store_view_key [OF old] by simp
  show "deleted x (store_view st) (store_view st')"
  proof (cases "finalizers_of old = []")
    case True
    then show ?thesis using run old by (auto simp: delete_body_def deleted_def store_view_drop)
  next
    case False
    then have "store_view st' = (store_view st)(obj_key x \<mapsto> set_deletion (Some ''now'') old)"
      using run old k store_view_stored [OF old]
      by (auto simp: delete_body_def store_view_put stored_form_set_deletion)
    then show ?thesis unfolding deleted_def using False old k
      by (intro exI [of _ old]) (auto intro!: exI [of _ "set_deletion (Some ''now'') old"])
  qed
qed (auto simp: delete_body_def split: option.splits if_splits)

lemmas create_laws =
  mem_write_lift [where f = "create_body x" and E = "created x" for x, OF _ create_body_laws]
lemmas update_laws =
  mem_write_lift [where f = "update_body x" and E = "updated x" for x, OF _ update_body_laws]
lemmas status_update_laws =
  mem_write_lift [where f = "status_update_body x" and E = "status_updated x" for x, OF _ status_update_body_laws]
lemmas delete_laws =
  mem_write_lift [where f = "delete_body x" and E = "deleted x" for x, OF _ delete_body_laws]

lemma mem_request_laws:
  assumes "run_state (mem_request f) w = (r, w')"
  shows "mem_view w' = mem_view w" and "r = Inr x \<Longrightarrow> x = f w" and "r = Inl e \<Longrightarrow> \<not> IsNotFound e"
    and "mem_calm w \<Longrightarrow> mem_calm w' \<and> r = Inr (f w)"
  using assms
  by (auto simp: mem_request_def mem_view_def mem_calm_def IsNotFound_def split: list.splits if_splits)

lemma mem_get_laws:
  assumes "run_state (mem_Get k n) w = (r, w')"
  shows "mem_view w' = mem_view w"
    and "r = Inr x \<Longrightarrow> mem_view w (key_of k n) = Some x"
    and "r = Inl e \<Longrightarrow> IsNotFound e \<Longrightarrow> mem_view w (key_of k n) = None"
    and "mem_calm w \<Longrightarrow> mem_calm w' \<and> (\<forall>e. r = Inl e \<longrightarrow> IsNotFound e)"
proof -
  obtain r0 where req: "run_state (mem_request (\<lambda>w. mem_view w (key_of k n))) w = (r0, w')"
    and r: "r = (case r0 of Inl e \<Rightarrow> Inl e | Inr None \<Rightarrow> Inl (NotFound (snd n)) | Inr (Some x) \<Rightarrow> Inr x)"
    using assms by (auto simp: mem_Get_def split: prod.splits)
  note laws = mem_request_laws [OF req]
  show "mem_view w' = mem_view w" by (rule laws(1))
  show "r = Inr x \<Longrightarrow> mem_view w (key_of k n) = Some x"
    using laws(2) by (auto simp: r split: sum.splits option.splits)
  show "r = Inl e \<Longrightarrow> IsNotFound e \<Longrightarrow> mem_view w (key_of k n) = None"
    using laws(2,3) by (auto simp: r split: sum.splits option.splits)
  show "mem_calm w \<Longrightarrow> mem_calm w' \<and> (\<forall>e. r = Inl e \<longrightarrow> IsNotFound e)"
    using laws(4) by (auto simp: r IsNotFound_def split: sum.splits option.splits)
qed

lemma mem_uuid_laws:
  assumes "run_state mem_NewUUID w = (u, w')"
  shows "mem_view w' = mem_view w" and "mem_calm w \<Longrightarrow> mem_calm w'"
  using assms by (auto simp: mem_NewUUID_def mem_view_def mem_calm_def split: list.splits)

lemma mem_calm_body:
  shows "mem_view w (obj_key x) = None \<Longrightarrow> fst (create_body x (mw_store w)) = None"
    and "mem_view w (obj_key x) = Some old \<Longrightarrow>
      deletion_of old = None \<or> set (finalizers_of x) \<subseteq> set (finalizers_of old) \<Longrightarrow>
      fst (update_body x (mw_store w)) = None"
    and "mem_view w (obj_key x) = Some old \<Longrightarrow> fst (status_update_body x (mw_store w)) = None"
    and "mem_view w (obj_key x) = Some old \<Longrightarrow> fst (delete_body x (mw_store w)) = None"
  by (auto simp: mem_view_def create_body_def update_body_def status_update_body_def delete_body_def)

interpretation mem: api_server mem_api mem_view
proof unfold_locales
  show "\<exists>rs. y = map_meta (\<lambda>m. m\<lparr>om_ownerReferences := rs\<rparr>) x"
    if "api_SetControllerReference mem_api own x = Inr y" for own x y
    using that by (auto simp: mem_api_def mem_SetControllerReference_def)
qed (simp_all add: mem_api_def mem_get_laws mem_uuid_laws create_laws update_laws
    status_update_laws delete_laws mem_request_laws(1) mem_ListPods_def mem_ListEvents_def,
  simp_all add: mem_view_def store_view_key store_view_stored)

interpretation mem_calm: calm_api_server mem_api mem_view mem_calm
proof unfold_locales
  show "mem_calm w' \<and> (\<exists>l. ps = Inr l)"
    if "mem_calm w" "run_state (api_ListPods mem_api ns ls hs) w = (ps, w')" for w ns ls hs ps w'
    using that mem_request_laws(4) by (fastforce simp: mem_api_def mem_ListPods_def)
  show "mem_calm w' \<and> (\<exists>l. es = Inr l)"
    if "mem_calm w" "run_state (api_ListEvents mem_api ns nm rv why) w = (es, w')" for w ns nm rv why es w'
    using that mem_request_laws(4) by (fastforce simp: mem_api_def mem_ListEvents_def)
  show "\<exists>y. api_SetControllerReference mem_api own x = Inr y" for own x
    by (simp add: mem_api_def mem_SetControllerReference_def)
qed (auto simp: mem_api_def mem_get_laws(4) mem_uuid_laws(2) mem_calm_body
    dest: mem_write_calm)

end
