(* ===== verification/Pod_Mutator.thy ===== *)
theory Pod_Mutator
  imports K8s_Api
begin

text \<open>
  The pod-mutating admission webhook, \<open>admissioncontroller/mutatingwebhook.go\<close>: it reads the
  \<open>dataset.<index>.id\<close> and \<open>dataset.<index>.useas\<close> labels of a pod, looks the datasets up and
  answers with a JSON patch that adds volumes, volume mounts and \<open>envFrom\<close> entries.

  Go maps with integer keys are association lists in the order of their \<open>range\<close> loop; the loops over
  the config map names take the order of each \<open>range\<close> from a parameter \<open>ord\<close>.  Logging is left out.
  A nil dereference is the value \<open>Inl (GoPanic _)\<close>.
\<close>

section \<open>Data\<close>

datatype json = JString string | JBool bool | JObject "(string \<times> json) list" | JArray "json list"

record JsonPatchOperation =
  op_Operation :: string
  op_Path :: string
  op_Value :: json

datatype go_failure = GoError string | GoPanic string

record DatasetInput =
  in_name :: string
  in_index :: int
  in_useasLabels :: "string list"
  in_resource :: Dataset

definition zero_dataset :: Dataset where
  "zero_dataset = \<lparr>ds_meta = ObjectMeta '''' '''' [], ds_Spec = empty_spec, ds_Status = empty_status\<rparr>"

definition NewDatasetInput :: DatasetInput where
  "NewDatasetInput = \<lparr>in_name = '''', in_index = 0, in_useasLabels = [], in_resource = zero_dataset\<rparr>"

definition RequestedUseContains :: "DatasetInput \<Rightarrow> string \<Rightarrow> bool" where
  "RequestedUseContains d useas = (\<exists>u \<in> set (in_useasLabels d). u = useas)"

definition SetName :: "string \<Rightarrow> DatasetInput \<Rightarrow> DatasetInput" where
  "SetName n d = d\<lparr>in_name := n\<rparr>"

definition SetIndex :: "int \<Rightarrow> DatasetInput \<Rightarrow> DatasetInput" where
  "SetIndex idx d = d\<lparr>in_index := idx\<rparr>"

definition AddToRequestedUse :: "string \<Rightarrow> DatasetInput \<Rightarrow> DatasetInput" where
  "AddToRequestedUse u d = d\<lparr>in_useasLabels := in_useasLabels d @ [u]\<rparr>"

definition prefixLabels :: string where "prefixLabels = ''dataset.''"

definition labelSeparator :: char where "labelSeparator = CHR ''.''"

type_synonym inputs = "(int, DatasetInput) gomap"

section \<open>Reading the labels\<close>

text \<open>
  The loop over the parts of a \<open>useas\<close> label.  The flag \<open>isPresent\<close> is declared before the loop and
  set, never cleared, inside it.
\<close>

fun add_uses :: "bool \<Rightarrow> string list \<Rightarrow> DatasetInput \<Rightarrow> DatasetInput" where
  "add_uses isPresent [] d = d"
| "add_uses isPresent (use # uArray) d =
     (let isPresent' = isPresent \<or> RequestedUseContains d (TrimSpace use) in
      if \<not> isPresent' then add_uses isPresent' uArray (AddToRequestedUse (TrimSpace use) d)
      else add_uses isPresent' uArray d)"

text \<open>One iteration of the loop over the labels: \<open>datasets\<close> and the keys of \<open>unique_datasets\<close>.\<close>

definition process_label ::
  "string \<times> string \<Rightarrow> inputs \<times> string list \<Rightarrow> string + (inputs \<times> string list)" where
  "process_label l st = (case (l, st) of ((k, v), (datasets, unique)) \<Rightarrow>
     if \<not> HasPrefix k prefixLabels then Inr (datasets, unique)
     else let datasetNameArray = Split k labelSeparator in
       if length datasetNameArray \<noteq> 3 then Inl (''label '' @ k @ '' is not in the right format'')
       else case Atoi (datasetNameArray ! 1) of
         (_, Some _) \<Rightarrow> Inl (''could not convert dataset index '' @ datasetNameArray ! 1 @ '' to int'')
       | (idx, None) \<Rightarrow>
           (let dataset = (case map_of datasets idx of Some d \<Rightarrow> d | None \<Rightarrow> NewDatasetInput) in
            if datasetNameArray ! 2 = ''id'' then
              (if in_name dataset \<noteq> '''' then
                 Inl (''repeat declaration of name '' @ datasetNameArray ! 2 @ '' for dataset '' @ in_name dataset)
               else if v \<in> set unique then
                 Inl (''dataset name '' @ v @ '' has been used in a previous label'')
               else Inr (mset_key idx (SetName v dataset) datasets, v # unique))
            else if datasetNameArray ! 2 = ''useas'' then
              Inr (mset_key idx (add_uses False (Split v labelSeparator) dataset) datasets, unique)
            else Inl (''dataset label is in the wrong format '' @ k)))"

fun process_labels :: "smap \<Rightarrow> inputs \<times> string list \<Rightarrow> string + (inputs \<times> string list)" where
  "process_labels [] st = Inr st"
| "process_labels (l # ls) st =
     (case process_label l st of Inl e \<Rightarrow> Inl e | Inr st' \<Rightarrow> process_labels ls st')"

definition DatasetInputFromPod :: "Pod \<Rightarrow> string + inputs" where
  "DatasetInputFromPod pod =
     (case process_labels (om_labels (pod_meta pod)) ([], []) of
        Inl e \<Rightarrow> Inl e
      | Inr (datasets, _) \<Rightarrow> Inr datasets)"

section \<open>Looking the datasets up\<close>

fun retrieve_loop :: "'w cluster_api \<Rightarrow> string \<Rightarrow> inputs \<Rightarrow> ('w, string + inputs) state" where
  "retrieve_loop api ns [] = State_Monad.return (Inr [])"
| "retrieve_loop api ns ((idx, dataset) # ds) = do {
     r \<leftarrow> api_Get api KDataset (ns, in_name dataset);
     case r of
       Inr (ODataset x) \<Rightarrow> do {
         rest \<leftarrow> retrieve_loop api ns ds;
         State_Monad.return (case rest of Inl e \<Rightarrow> Inl e
                             | Inr ds' \<Rightarrow> Inr ((idx, dataset\<lparr>in_resource := x\<rparr>) # ds'))
       }
     | Inl e \<Rightarrow> State_Monad.return (Inl
         (if IsNotFound e then ''dataset '' @ in_name dataset @ '' not found in namespace '' @ ns
          else ''dataset '' @ in_name dataset @ '' could not be queried successfully''))
     | _ \<Rightarrow> State_Monad.return (Inl (''dataset '' @ in_name dataset @ '' could not be queried successfully''))
   }"

definition RetrieveDatasetsFromAPIServer ::
  "'w cluster_api \<Rightarrow> Pod \<Rightarrow> inputs \<Rightarrow> ('w, string + inputs) state" where
  "RetrieveDatasetsFromAPIServer api pod datasets = retrieve_loop api (om_namespace (pod_meta pod)) datasets"

section \<open>Building the patch\<close>

definition add_op :: "string \<Rightarrow> json \<Rightarrow> JsonPatchOperation" where
  "add_op p v = \<lparr>op_Operation = ''add'', op_Path = p, op_Value = v\<rparr>"

text \<open>The value of one volume patch.\<close>

definition volume_value :: "DatasetInput \<Rightarrow> json" where
  "volume_value d =
     (let readonly = map_of (local_map (ds_Spec (in_resource d))) ''readonly'';
          pvc = (if readonly = Some ''true''
                 then JObject [(''claimName'', JString (in_name d)), (''readOnly'', JBool True)]
                 else JObject [(''claimName'', JString (in_name d))])
      in JObject [(''name'', JString (in_name d)), (''persistentVolumeClaim'', pvc)])"

text \<open>\<open>for d := range keys\<close>: \<open>d\<close> counts positions, and \<open>datasets[d]\<close> panics when the key is absent.\<close>

fun volume_loop :: "inputs \<Rightarrow> nat \<Rightarrow> int list \<Rightarrow> go_failure + JsonPatchOperation list" where
  "volume_loop datasets vol_id [] = Inr []"
| "volume_loop datasets vol_id (d # ds) =
     (case map_of datasets d of
        None \<Rightarrow> Inl (GoPanic ''nil pointer dereference'')
      | Some x \<Rightarrow>
          (case volume_loop datasets (Suc vol_id) ds of
             Inl e \<Rightarrow> Inl e
           | Inr ps \<Rightarrow> Inr (add_op (''/spec/volumes/'' @ Itoa (int vol_id)) (volume_value x) # ps)))"

definition in_array :: "'a \<Rightarrow> 'a list \<Rightarrow> bool \<times> int" where
  "in_array val array =
     (let i = length (takeWhile (\<lambda>x. x \<noteq> val) array) in
      if i < length array then (True, int i) else (False, - 1))"

definition mount_path :: "string \<Rightarrow> nat \<Rightarrow> nat \<Rightarrow> string" where
  "mount_path container_typ container_idx mount_idx =
     ''/spec/'' @ container_typ @ ''/'' @ Itoa (int container_idx) @ ''/volumeMounts/'' @ Itoa (int mount_idx)"

definition mount_value :: "DatasetInput \<Rightarrow> json" where
  "mount_value d =
     JObject [(''name'', JString (in_name d)), (''mountPath'', JString (''/mnt/datasets/'' @ in_name d))]"

fun mount_loop ::
  "inputs \<Rightarrow> string \<Rightarrow> nat \<Rightarrow> string list \<Rightarrow> nat \<Rightarrow> int list \<Rightarrow> go_failure + JsonPatchOperation list" where
  "mount_loop datasets typ cidx mount_names mount_idx [] = Inr []"
| "mount_loop datasets typ cidx mount_names mount_idx (oi # os) =
     (case map_of datasets oi of
        None \<Rightarrow> Inl (GoPanic ''nil pointer dereference'')
      | Some x \<Rightarrow>
          if \<not> fst (in_array (in_name x) mount_names) then
            (case mount_loop datasets typ cidx mount_names (Suc mount_idx) os of
               Inl e \<Rightarrow> Inl e
             | Inr ps \<Rightarrow> Inr (add_op (mount_path typ cidx mount_idx) (mount_value x) # ps))
          else mount_loop datasets typ cidx mount_names mount_idx os)"

text \<open>\<open>order\<close> is a list of keys of which only the positions are used.\<close>

fun container_mounts_loop ::
  "inputs \<Rightarrow> int list \<Rightarrow> string \<Rightarrow> nat \<Rightarrow> Container list \<Rightarrow> go_failure + JsonPatchOperation list" where
  "container_mounts_loop datasets order typ cidx [] = Inr []"
| "container_mounts_loop datasets order typ cidx (c # cs) =
     (let mount_names = map vm_Name (ct_VolumeMounts c) in
      case mount_loop datasets typ cidx mount_names (length (ct_VolumeMounts c))
             (map int [0..<length order]) of
        Inl e \<Rightarrow> Inl e
      | Inr ps \<Rightarrow>
          (case container_mounts_loop datasets order typ (Suc cidx) cs of
             Inl e \<Rightarrow> Inl e
           | Inr qs \<Rightarrow> Inr (ps @ qs)))"

definition patchContainersWithDatasetVolumes ::
  "inputs \<Rightarrow> int list \<Rightarrow> Container list \<Rightarrow> bool \<Rightarrow> go_failure + JsonPatchOperation list" where
  "patchContainersWithDatasetVolumes datasets order containers init =
     container_mounts_loop datasets order (if init then ''initContainers'' else ''containers'') 0 containers"

definition patchPodSpecWithDatasetPVCs :: "Pod \<Rightarrow> inputs \<Rightarrow> go_failure + JsonPatchOperation list" where
  "patchPodSpecWithDatasetPVCs pod datasets =
     (let keys = sort (map fst datasets) in
      case volume_loop datasets (length (pod_Volumes pod)) (map int [0..<length keys]) of
        Inl e \<Rightarrow> Inl e
      | Inr patches \<Rightarrow>
          (case (if pod_InitContainers pod \<noteq> []
                 then patchContainersWithDatasetVolumes datasets keys (pod_InitContainers pod) True
                 else Inr []) of
             Inl e \<Rightarrow> Inl e
           | Inr initPatches \<Rightarrow>
               (case patchContainersWithDatasetVolumes datasets keys (pod_Containers pod) False of
                  Inl e \<Rightarrow> Inl e
                | Inr volPatches \<Rightarrow> Inr (patches @ initPatches @ volPatches))))"

section \<open>Injecting config maps and secrets\<close>

definition configmap_ref :: "string \<Rightarrow> json" where
  "configmap_ref d = JObject [(''prefix'', JString (d @ ''_'')), (''configMapRef'', JObject [(''name'', JString d)])]"

definition secret_ref :: "string \<Rightarrow> json" where
  "secret_ref d = JObject [(''prefix'', JString (d @ ''_'')), (''secretRef'', JObject [(''name'', JString d)])]"

definition env_path :: "string \<Rightarrow> nat \<Rightarrow> string" where
  "env_path typ cidx = ''/spec/'' @ typ @ ''/'' @ Itoa (int cidx) @ ''/envFrom''"

definition env_refers :: "string \<Rightarrow> EnvFromSource \<Rightarrow> bool" where
  "env_refers d env \<longleftrightarrow> ef_ConfigMapRef env = Some d \<or> ef_SecretRef env = Some d"

text \<open>
  The loop over the containers.  The slice \<open>values\<close> is declared before the loop and appended to by
  every container without \<open>envFrom\<close>.
\<close>

fun env_loop ::
  "(nat \<Rightarrow> (int, string) gomap \<Rightarrow> (int, string) gomap) \<Rightarrow> (int, string) gomap \<Rightarrow> string \<Rightarrow> json list \<Rightarrow>
   nat \<Rightarrow> Container list \<Rightarrow> JsonPatchOperation list" where
  "env_loop ord datasets typ values cidx [] = []"
| "env_loop ord datasets typ values cidx (c # cs) =
     (if ct_EnvFrom c \<noteq> [] then
        concat (map (\<lambda>(_, d).
          if \<exists>env \<in> set (ct_EnvFrom c). env_refers d env then []
          else [add_op (env_path typ cidx @ ''/-'') (configmap_ref d),
                add_op (env_path typ cidx @ ''/-'') (secret_ref d)]) (ord cidx datasets)) @
        env_loop ord datasets typ values (Suc cidx) cs
      else
        let values' = values @ concat (map (\<lambda>(_, d). [configmap_ref d, secret_ref d]) (ord cidx datasets))
        in add_op (env_path typ cidx) (JArray values') # env_loop ord datasets typ values' (Suc cidx) cs)"

definition patchContainersWithDatasetMaps ::
  "(nat \<Rightarrow> (int, string) gomap \<Rightarrow> (int, string) gomap) \<Rightarrow> (int, string) gomap \<Rightarrow> Container list \<Rightarrow> bool \<Rightarrow>
   JsonPatchOperation list" where
  "patchContainersWithDatasetMaps ord datasets containers init =
     env_loop ord datasets (if init then ''initContainers'' else ''containers'') [] 0 containers"

section \<open>The patch of a pod\<close>

definition mounted_pvcs :: "Pod \<Rightarrow> string list" where
  "mounted_pvcs pod = List.map_filter vol_PVC (pod_Volumes pod)"

text \<open>The inner loop over the uses of one dataset, with the counters \<open>d\<close> and \<open>c\<close>.\<close>

fun uses_loop ::
  "string list \<Rightarrow> DatasetInput \<Rightarrow> string list \<Rightarrow> (int \<times> inputs) \<times> (int \<times> (int, string) gomap) \<Rightarrow>
   go_failure + ((int \<times> inputs) \<times> (int \<times> (int, string) gomap))" where
  "uses_loop mounted ds [] st = Inr st"
| "uses_loop mounted ds (u # us) ((d, tomount), (c, toinject)) =
     (if u = ''mount'' then
        (if in_name ds \<notin> set mounted
         then uses_loop mounted ds us ((d + 1, mset_key d ds tomount), (c, toinject))
         else uses_loop mounted ds us ((d, tomount), (c, toinject)))
      else if u = ''configmap'' then
        uses_loop mounted ds us ((d, tomount), (c + 1, mset_key c (in_name ds) toinject))
      else Inl (GoError ''encountered an unknown useas''))"

fun collect_loop ::
  "string list \<Rightarrow> inputs \<Rightarrow> int list \<Rightarrow> (int \<times> inputs) \<times> (int \<times> (int, string) gomap) \<Rightarrow>
   go_failure + ((int \<times> inputs) \<times> (int \<times> (int, string) gomap))" where
  "collect_loop mounted datasets [] st = Inr st"
| "collect_loop mounted datasets (idx # s_idx) st =
     (case map_of datasets idx of
        None \<Rightarrow> Inl (GoPanic ''nil pointer dereference'')
      | Some ds \<Rightarrow>
          (case uses_loop mounted ds (in_useasLabels ds) st of
             Inl e \<Rightarrow> Inl e
           | Inr st' \<Rightarrow> collect_loop mounted datasets s_idx st'))"

definition PatchPodWithDatasetLabels ::
  "(bool \<Rightarrow> nat \<Rightarrow> (int, string) gomap \<Rightarrow> (int, string) gomap) \<Rightarrow> Pod \<Rightarrow> inputs \<Rightarrow>
   go_failure + JsonPatchOperation list" where
  "PatchPodWithDatasetLabels ord pod datasets =
     (if length datasets = 0 then Inr []
      else case collect_loop (mounted_pvcs pod) datasets (sort (map fst datasets)) ((0, []), (0, [])) of
        Inl e \<Rightarrow> Inl e
      | Inr ((_, tomount), (_, toinject)) \<Rightarrow>
          (case (if length tomount > 0 then patchPodSpecWithDatasetPVCs pod tomount else Inr []) of
             Inl e \<Rightarrow> Inl e
           | Inr patch_ds \<Rightarrow>
               Inr (patch_ds @
                 (if length toinject > 0
                  then patchContainersWithDatasetMaps (ord True) toinject (pod_InitContainers pod) True @
                       patchContainersWithDatasetMaps (ord False) toinject (pod_Containers pod) False
                  else []))))"

section \<open>The admission handler\<close>

datatype admission_response = Allowed string | Errored nat string
  | Patched string "JsonPatchOperation list" | HandlerPanic string

record 'raw admission_request =
  ar_Operation :: string
  ar_Object :: 'raw

text \<open>\<open>decode\<close> is the admission decoder of controller-runtime.\<close>

definition Handle ::
  "'w cluster_api \<Rightarrow> ('raw \<Rightarrow> string + Pod) \<Rightarrow>
   (bool \<Rightarrow> nat \<Rightarrow> (int, string) gomap \<Rightarrow> (int, string) gomap) \<Rightarrow> 'raw admission_request \<Rightarrow>
   ('w, admission_response) state" where
  "Handle api decode ord req =
     (if ar_Operation req \<noteq> ''CREATE'' then
        State_Monad.return (Allowed (''No Pod mutation required for operation '' @ ar_Operation req @ ''.''))
      else case decode (ar_Object req) of
        Inl e \<Rightarrow> State_Monad.return (Errored 400 e)
      | Inr pod \<Rightarrow>
          (case DatasetInputFromPod pod of
             Inl e \<Rightarrow> State_Monad.return (Errored 400 e)
           | Inr datasetInputs \<Rightarrow> do {
               r \<leftarrow> RetrieveDatasetsFromAPIServer api pod datasetInputs;
               State_Monad.return
                 (case r of
                    Inl e \<Rightarrow> Errored 400 e
                  | Inr inputs \<Rightarrow>
                      (case PatchPodWithDatasetLabels ord pod inputs of
                         Inl (GoError e) \<Rightarrow> Errored 400 ''useas for this dataset is not recognized''
                       | Inl (GoPanic e) \<Rightarrow> HandlerPanic e
                       | Inr patchops \<Rightarrow>
                           if length patchops = 0 then
                             Allowed (''Pod '' @ om_namespace (pod_meta pod) @ ''/'' @ om_name (pod_meta pod) @
                                      '' does not need to be mutated - skipping'' @ [CHR 0x0A])
                           else Patched ''added volumes to Pod in response to dataset'' patchops))
             }))"

end
