(* ===== verification/Pod_Patch.thy ===== *)
theory Pod_Patch
  imports Pod_Mutator "HOL-Library.Multiset"
begin

text \<open>
  What the webhook's patch contains.  The code numbers the datasets to mount and the config maps to
  inject by counters and reads them back by position; \<open>enum\<close> is the resulting map, and the loops
  over it are shown equal to declarative descriptions of the patch (\<open>volume_patches\<close>,
  \<open>mount_patches\<close>, \<open>patch_spec\<close>).
\<close>

section \<open>Densely numbered maps\<close>

definition enum :: "'a list \<Rightarrow> (int, 'a) gomap" where
  "enum xs = zip (map int [0..<length xs]) xs"

lemma update_absent: "k \<notin> fst ` set m \<Longrightarrow> AList.update k v m = m @ [(k, v)]"
  by (induction m) auto

lemma enum_Nil [simp]: "enum [] = []"
  by (simp add: enum_def)

lemma length_enum [simp]: "length (enum xs) = length xs"
  by (simp add: enum_def)

lemma enum_empty_iff [simp]: "enum xs = [] \<longleftrightarrow> xs = []"
  by (cases xs) (simp_all add: enum_def)

lemma map_fst_enum [simp]: "map fst (enum xs) = map int [0..<length xs]"
  by (simp add: enum_def)

lemma map_snd_enum [simp]: "map snd (enum xs) = xs"
  by (simp add: enum_def)

lemma mset_key_enum [simp]: "mset_key (int (length xs)) v (enum xs) = enum (xs @ [v])"
proof -
  have "fst ` set (enum xs) = int ` {0..<length xs}"
    by (metis atLeastLessThan_upt list.set_map map_fst_enum)
  then have "int (length xs) \<notin> fst ` set (enum xs)" by auto
  then show ?thesis by (simp add: mset_key_def update_absent) (simp add: enum_def)
qed

lemma map_of_enum: "i < length xs \<Longrightarrow> map_of (enum xs) (int i) = Some (xs ! i)"
proof -
  assume i: "i < length xs"
  then have "(int i, xs ! i) \<in> set (enum xs)" by (auto simp: enum_def in_set_zip intro!: exI [of _ i])
  moreover have "distinct (map fst (enum xs))" by (simp add: distinct_map)
  ultimately show ?thesis by simp
qed

lemma sort_keys_enum [simp]: "sort (map int [0..<n]) = map int [0..<n]"
  by (rule sorted_sort_id) (simp add: sorted_map sorted_wrt_upt)

section \<open>What the patch should contain\<close>

text \<open>Patches that append the elements of a list to an array of \<open>n\<close> elements.\<close>

definition append_patches ::
  "(nat \<Rightarrow> string) \<Rightarrow> (DatasetInput \<Rightarrow> json) \<Rightarrow> nat \<Rightarrow> DatasetInput list \<Rightarrow> JsonPatchOperation list" where
  "append_patches path val n xs = map (\<lambda>i. add_op (path (n + i)) (val (xs ! i))) [0..<length xs]"

definition volume_patches :: "nat \<Rightarrow> DatasetInput list \<Rightarrow> JsonPatchOperation list" where
  "volume_patches = append_patches (\<lambda>i. ''/spec/volumes/'' @ Itoa (int i)) volume_value"

text \<open>The datasets a container does not mount already.\<close>

definition not_mounted :: "Container \<Rightarrow> DatasetInput list \<Rightarrow> DatasetInput list" where
  "not_mounted c xs = filter (\<lambda>x. in_name x \<notin> vm_Name ` set (ct_VolumeMounts c)) xs"

definition mount_patches :: "string \<Rightarrow> nat \<Rightarrow> Container \<Rightarrow> DatasetInput list \<Rightarrow> JsonPatchOperation list" where
  "mount_patches typ cidx c xs =
     append_patches (mount_path typ cidx) mount_value (length (ct_VolumeMounts c)) (not_mounted c xs)"

definition containers_patches :: "string \<Rightarrow> Container list \<Rightarrow> DatasetInput list \<Rightarrow> JsonPatchOperation list" where
  "containers_patches typ cs xs = concat (map (\<lambda>i. mount_patches typ i (cs ! i) xs) [0..<length cs])"

definition known_uses :: "DatasetInput \<Rightarrow> bool" where
  "known_uses d \<longleftrightarrow> set (in_useasLabels d) \<subseteq> {''mount'', ''configmap''}"

definition mounts_of :: "string list \<Rightarrow> DatasetInput \<Rightarrow> string list \<Rightarrow> DatasetInput list" where
  "mounts_of mounted ds us =
     (if in_name ds \<in> set mounted then [] else map (\<lambda>_. ds) (filter (\<lambda>u. u = ''mount'') us))"

definition configs_of :: "DatasetInput \<Rightarrow> string list \<Rightarrow> string list" where
  "configs_of ds us = map (\<lambda>_. in_name ds) (filter (\<lambda>u. u = ''configmap'') us)"

text \<open>The inputs in the order of their index.\<close>

definition in_order :: "inputs \<Rightarrow> DatasetInput list" where
  "in_order datasets = map snd (sort_key fst datasets)"

definition to_mount :: "Pod \<Rightarrow> inputs \<Rightarrow> DatasetInput list" where
  "to_mount pod datasets =
     concat (map (\<lambda>d. mounts_of (mounted_pvcs pod) d (in_useasLabels d)) (in_order datasets))"

definition to_inject :: "inputs \<Rightarrow> string list" where
  "to_inject datasets = concat (map (\<lambda>d. configs_of d (in_useasLabels d)) (in_order datasets))"

definition mount_part :: "Pod \<Rightarrow> DatasetInput list \<Rightarrow> JsonPatchOperation list" where
  "mount_part pod xs =
     (if xs = [] then []
      else volume_patches (length (pod_Volumes pod)) xs @
           containers_patches ''initContainers'' (pod_InitContainers pod) xs @
           containers_patches ''containers'' (pod_Containers pod) xs)"

definition env_part ::
  "(bool \<Rightarrow> nat \<Rightarrow> (int, string) gomap \<Rightarrow> (int, string) gomap) \<Rightarrow> Pod \<Rightarrow> string list \<Rightarrow>
   JsonPatchOperation list" where
  "env_part ord pod names =
     (if names = [] then []
      else patchContainersWithDatasetMaps (ord True) (enum names) (pod_InitContainers pod) True @
           patchContainersWithDatasetMaps (ord False) (enum names) (pod_Containers pod) False)"

definition patch_spec ::
  "(bool \<Rightarrow> nat \<Rightarrow> (int, string) gomap \<Rightarrow> (int, string) gomap) \<Rightarrow> Pod \<Rightarrow> inputs \<Rightarrow>
   JsonPatchOperation list" where
  "patch_spec ord pod datasets =
     mount_part pod (to_mount pod datasets) @ env_part ord pod (to_inject datasets)"

section \<open>The loops compute it\<close>

lemma append_patches_Cons:
  "append_patches path val n (x # xs) = add_op (path n) (val x) # append_patches path val (Suc n) xs"
  by (simp add: append_patches_def upt_zero_Suc o_def del: upt_Suc)

lemma append_patches_Nil [simp]: "append_patches path val n [] = []"
  by (simp add: append_patches_def)

lemma volume_loop_enum:
  "k \<le> length xs \<Longrightarrow> volume_loop (enum xs) n (map int [k..<length xs]) = Inr (volume_patches n (drop k xs))"
proof (induction "length xs - k" arbitrary: k n)
  case 0
  then show ?case by (simp add: volume_patches_def)
next
  case (Suc m)
  then have k: "k < length xs" by simp
  have "volume_loop (enum xs) (Suc n) (map int [Suc k..<length xs]) =
      Inr (volume_patches (Suc n) (drop (Suc k) xs))"
    using Suc.hyps(1) [of "Suc k" "Suc n"] Suc.hyps(2) k by simp
  then show ?case
    using k by (simp add: upt_conv_Cons map_of_enum volume_patches_def append_patches_Cons
        flip: Cons_nth_drop_Suc)
qed

lemma in_array_iff [simp]: "fst (in_array val array) \<longleftrightarrow> val \<in> set array"
proof -
  have "length (takeWhile (\<lambda>x. x \<noteq> val) array) < length array \<longleftrightarrow> val \<in> set array"
    by (induction array) auto
  then show ?thesis by (simp add: in_array_def Let_def)
qed

lemma mount_loop_enum:
  "k \<le> length xs \<Longrightarrow>
   mount_loop (enum xs) typ c names n (map int [k..<length xs]) =
     Inr (append_patches (mount_path typ c) mount_value n
            (filter (\<lambda>x. in_name x \<notin> set names) (drop k xs)))"
proof (induction "length xs - k" arbitrary: k n)
  case 0
  then show ?case by simp
next
  case (Suc m)
  then have k: "k < length xs" by simp
  have IH: "mount_loop (enum xs) typ c names n' (map int [Suc k..<length xs]) =
      Inr (append_patches (mount_path typ c) mount_value n'
            (filter (\<lambda>x. in_name x \<notin> set names) (drop (Suc k) xs)))" for n'
    using Suc.hyps(1) [of "Suc k" n'] Suc.hyps(2) k by simp
  show ?case
    using k IH by (simp add: upt_conv_Cons map_of_enum append_patches_Cons
        flip: Cons_nth_drop_Suc)
qed

lemma container_mounts_loop_enum:
  "container_mounts_loop (enum xs) order typ n cs =
     Inr (concat (map (\<lambda>i. mount_patches typ (n + i) (cs ! i) xs) [0..<length cs]))"
  if "length order = length xs"
proof (induction cs arbitrary: n)
  case (Cons c cs)
  show ?case
    using that mount_loop_enum [of 0 xs "typ" n "map vm_Name (ct_VolumeMounts c)"] Cons.IH [of "Suc n"]
    by (simp add: mount_patches_def not_mounted_def o_def upt_zero_Suc del: upt_Suc)
qed simp

lemma patchPodSpec_enum: "xs \<noteq> [] \<Longrightarrow> patchPodSpecWithDatasetPVCs pod (enum xs) = Inr (mount_part pod xs)"
  using volume_loop_enum [of 0 xs]
  by (simp add: patchPodSpecWithDatasetPVCs_def patchContainersWithDatasetVolumes_def
      container_mounts_loop_enum mount_part_def containers_patches_def Let_def)

lemma uses_loop_enum:
  "uses_loop mounted ds us ((int (length xs), enum xs), (int (length ys), enum ys)) =
     (if set us \<subseteq> {''mount'', ''configmap''}
      then let xs' = xs @ mounts_of mounted ds us; ys' = ys @ configs_of ds us in
           Inr ((int (length xs'), enum xs'), (int (length ys'), enum ys'))
      else Inl (GoError ''encountered an unknown useas''))"
proof (induction us arbitrary: xs ys)
  case Nil
  show ?case by (simp add: mounts_of_def configs_of_def)
next
  case (Cons u us)
  have "int (length zs) + 1 = int (length (zs @ [z]))" for zs :: "'b list" and z by simp
  note IH = Cons.IH [of "xs @ [ds]" ys] Cons.IH [of xs ys] Cons.IH [of xs "ys @ [in_name ds]"]
  consider "u = ''mount''" | "u = ''configmap''" | "u \<notin> {''mount'', ''configmap''}" by blast
  then show ?case
    by cases (use IH in \<open>auto simp: mounts_of_def configs_of_def Let_def add.commute\<close>)
qed

lemma collect_loop_enum:
  assumes "distinct (map fst datasets)"
  shows "set ps \<subseteq> set datasets \<Longrightarrow>
   collect_loop mounted datasets (map fst ps) ((int (length xs), enum xs), (int (length ys), enum ys)) =
     (if \<forall>p \<in> set ps. known_uses (snd p)
      then let xs' = xs @ concat (map (\<lambda>d. mounts_of mounted d (in_useasLabels d)) (map snd ps));
               ys' = ys @ concat (map (\<lambda>d. configs_of d (in_useasLabels d)) (map snd ps)) in
           Inr ((int (length xs'), enum xs'), (int (length ys'), enum ys'))
      else Inl (GoError ''encountered an unknown useas''))"
proof (induction ps arbitrary: xs ys)
  case (Cons p ps)
  obtain idx d where p: "p = (idx, d)" by fastforce
  with Cons.prems assms have m: "map_of datasets idx = Some d" by simp
  show ?case
    using Cons.IH [of "xs @ mounts_of mounted d (in_useasLabels d)" "ys @ configs_of d (in_useasLabels d)"]
      Cons.prems
    by (simp add: p m uses_loop_enum known_uses_def Let_def)
qed simp

lemma sort_map_fst: "sort (map fst xs) = map fst (sort_key fst xs)"
  by (rule properties_for_sort) (simp_all only: mset_map mset_sort sorted_sort_key)

lemma PatchPod_characterised:
  assumes "distinct (map fst datasets)"
  shows "PatchPodWithDatasetLabels ord pod datasets =
    (if \<forall>d \<in> snd ` set datasets. known_uses d then Inr (patch_spec ord pod datasets)
     else Inl (GoError ''encountered an unknown useas''))"
proof (cases "datasets = []")
  case True
  then show ?thesis
    by (simp add: PatchPodWithDatasetLabels_def patch_spec_def to_mount_def to_inject_def in_order_def
        mount_part_def env_part_def)
next
  case False
  have "collect_loop (mounted_pvcs pod) datasets (sort (map fst datasets)) ((0, []), (0, [])) =
     (if \<forall>d \<in> snd ` set datasets. known_uses d
      then Inr ((int (length (to_mount pod datasets)), enum (to_mount pod datasets)),
                (int (length (to_inject datasets)), enum (to_inject datasets)))
      else Inl (GoError ''encountered an unknown useas''))"
    using collect_loop_enum [OF assms, of "sort_key fst datasets" "mounted_pvcs pod" "[]" "[]"]
    by (simp add: sort_map_fst to_mount_def to_inject_def in_order_def Let_def)
  then show ?thesis
    using False
    by (simp add: PatchPodWithDatasetLabels_def patch_spec_def patchPodSpec_enum mount_part_def
        env_part_def)
qed

end
