(* ===== verification/Pod_Labels.thy ===== *)
theory Pod_Labels
  imports Pod_Patch
begin

text \<open>
  What the webhook reads from a pod's labels.  Go visits a map in an arbitrary order, so the result
  of \<open>DatasetInputFromPod\<close> is compared with a description that does not mention an order:
  \<open>keyed\<close> lists the labels by the index and field they address, \<open>label_inputs\<close> is the map they
  describe, and \<open>acceptable\<close> is the condition for success.
\<close>

section \<open>The loop over the parts of a useas label\<close>

text \<open>The elements of a list up to the first that was seen before.\<close>

fun first_run :: "string list \<Rightarrow> string list \<Rightarrow> string list" where
  "first_run seen [] = []"
| "first_run seen (u # us) = (if u \<in> set seen then [] else u # first_run (seen @ [u]) us)"

lemma add_uses_True [simp]: "add_uses True us d = d"
  by (induction us arbitrary: d) auto

lemma add_uses_labels:
  "in_useasLabels (add_uses False us d) =
     in_useasLabels d @ first_run (in_useasLabels d) (map TrimSpace us)"
  by (induction us arbitrary: d) (auto simp: RequestedUseContains_def AddToRequestedUse_def Let_def)

lemma add_uses_other [simp]: "in_name (add_uses b us d) = in_name d"
  "in_resource (add_uses b us d) = in_resource d"
  by (induction b us d rule: add_uses.induct) (auto simp: AddToRequestedUse_def Let_def)

lemma add_uses_set_name: "add_uses b us (d\<lparr>in_name := n\<rparr>) = (add_uses b us d)\<lparr>in_name := n\<rparr>"
proof (induction us arbitrary: b d)
  case (Cons u us)
  show ?case
    using Cons.IH [of False "d\<lparr>in_useasLabels := in_useasLabels d @ [TrimSpace u]\<rparr>"] Cons.IH [of b d]
    by (cases d) (simp add: AddToRequestedUse_def Let_def RequestedUseContains_def)
qed simp

lemma first_run_distinct: "distinct seen \<Longrightarrow> distinct (seen @ first_run seen us)"
proof (induction us arbitrary: seen)
  case (Cons u us)
  then show ?case using Cons.IH [of "seen @ [u]"] by auto
qed simp

lemma first_run_subset: "set (first_run seen us) \<subseteq> set us"
  by (induction us arbitrary: seen) (auto dest: subsetD)

section \<open>A description of the labels\<close>

text \<open>The index and field (\<open>True\<close> for \<open>id\<close>, \<open>False\<close> for \<open>useas\<close>) a label key addresses.\<close>

definition label_key :: "string \<Rightarrow> (int \<times> bool) option" where
  "label_key k =
     (let a = Split k labelSeparator in
      if length a \<noteq> 3 then None
      else case Atoi (a ! 1) of
        (_, Some _) \<Rightarrow> None
      | (idx, None) \<Rightarrow>
          if a ! 2 = ''id'' then Some (idx, True) else if a ! 2 = ''useas'' then Some (idx, False) else None)"

definition dataset_labels :: "smap \<Rightarrow> smap" where
  "dataset_labels ls = filter (\<lambda>l. HasPrefix (fst l) prefixLabels) ls"

definition keyed :: "smap \<Rightarrow> ((int \<times> bool) \<times> string) list" where
  "keyed ls = map (\<lambda>l. (the (label_key (fst l)), snd l)) (dataset_labels ls)"

text \<open>No two dataset labels address the same field of the same index (as \<open>dataset.0.id\<close> and
  \<open>dataset.00.id\<close> would).\<close>

definition canonical :: "smap \<Rightarrow> bool" where
  "canonical ls \<longleftrightarrow> distinct (map fst (keyed ls))"

definition id_values :: "smap \<Rightarrow> string list" where
  "id_values ls = map snd (filter (\<lambda>p. snd (fst p)) (keyed ls))"

definition acceptable :: "smap \<Rightarrow> bool" where
  "acceptable ls \<longleftrightarrow>
     (\<forall>l \<in> set (dataset_labels ls). label_key (fst l) \<noteq> None) \<and> distinct (id_values ls)"

definition input_of :: "string option \<Rightarrow> string option \<Rightarrow> DatasetInput" where
  "input_of n u =
     (case u of None \<Rightarrow> NewDatasetInput | Some v \<Rightarrow> add_uses False (Split v labelSeparator) NewDatasetInput)
     \<lparr>in_name := (case n of None \<Rightarrow> '''' | Some v \<Rightarrow> v)\<rparr>"

definition label_inputs :: "smap \<Rightarrow> int \<Rightarrow> DatasetInput option" where
  "label_inputs ls idx =
     (case (map_of (keyed ls) (idx, True), map_of (keyed ls) (idx, False)) of
        (None, None) \<Rightarrow> None
      | (n, u) \<Rightarrow> Some (input_of n u))"

section \<open>The loop over the labels computes it\<close>

lemma process_labels_snoc:
  "process_labels (ls @ [l]) st =
     (case process_labels ls st of Inl e \<Rightarrow> Inl e | Inr st' \<Rightarrow> process_label l st')"
  by (induction ls arbitrary: st) (auto split: sum.splits)

lemma input_of_simps [simp]:
  "in_name (input_of n u) = (case n of None \<Rightarrow> '''' | Some v \<Rightarrow> v)"
  "SetName v (input_of None u) = input_of (Some v) u"
  "add_uses False (Split v labelSeparator) (input_of n None) = input_of n (Some v)"
  "SetName v NewDatasetInput = input_of (Some v) None"
  "add_uses False (Split v labelSeparator) NewDatasetInput = input_of None (Some v)"
proof -
  show "add_uses False (Split v labelSeparator) NewDatasetInput = input_of None (Some v)"
    using add_uses_set_name [where n = "''''" and d = NewDatasetInput and b = False]
    by (simp add: input_of_def NewDatasetInput_def)
qed (simp_all add: input_of_def SetName_def add_uses_set_name)

definition labels_inv :: "smap \<Rightarrow> inputs \<times> string list \<Rightarrow> bool" where
  "labels_inv ls st \<longleftrightarrow> distinct (map fst (fst st)) \<and> map_of (fst st) = label_inputs ls \<and>
     set (snd st) = set (id_values ls)"

lemma keyed_snoc:
  "keyed (ls @ [l]) =
     keyed ls @ (if HasPrefix (fst l) prefixLabels then [(the (label_key (fst l)), snd l)] else [])"
  by (simp add: keyed_def dataset_labels_def)

lemma process_label_keyed:
  assumes "HasPrefix k prefixLabels"
  shows "label_key k = None \<Longrightarrow> isl (process_label (k, v) (D, U))"
    and "label_key k = Some (idx, True) \<Longrightarrow>
      in_name (case map_of D idx of Some d \<Rightarrow> d | None \<Rightarrow> NewDatasetInput) = '''' \<Longrightarrow>
      (v \<in> set U \<longrightarrow> isl (process_label (k, v) (D, U))) \<and>
      (v \<notin> set U \<longrightarrow> process_label (k, v) (D, U) =
         Inr (mset_key idx (SetName v (case map_of D idx of Some d \<Rightarrow> d | None \<Rightarrow> NewDatasetInput)) D, v # U))"
    and "label_key k = Some (idx, False) \<Longrightarrow> process_label (k, v) (D, U) =
         Inr (mset_key idx (add_uses False (Split v labelSeparator)
                (case map_of D idx of Some d \<Rightarrow> d | None \<Rightarrow> NewDatasetInput)) D, U)"
  using assms
  by (auto simp: process_label_def label_key_def Let_def split: prod.splits option.splits if_splits)

text \<open>One label, added to labels that satisfy the invariant.\<close>

lemma process_label_step:
  assumes inv: "labels_inv ls (D, U)" and can: "canonical (ls @ [l])" and acc: "acceptable ls"
  shows "if acceptable (ls @ [l])
         then \<exists>st. process_label l (D, U) = Inr st \<and> labels_inv (ls @ [l]) st
         else isl (process_label l (D, U))"
proof -
  obtain k v where l: "l = (k, v)" by fastforce
  have inv': "distinct (map fst D)" "map_of D = label_inputs ls" "set U = set (id_values ls)"
    using inv by (auto simp: labels_inv_def)
  show ?thesis
  proof (cases "HasPrefix k prefixLabels")
    case False
    then have "process_label l (D, U) = Inr (D, U)" "keyed (ls @ [l]) = keyed ls"
      "acceptable (ls @ [l]) = acceptable ls" "labels_inv (ls @ [l]) = labels_inv ls"
      by (simp_all add: l process_label_def keyed_snoc acceptable_def dataset_labels_def id_values_def
          labels_inv_def label_inputs_def fun_eq_iff)
    then show ?thesis using inv acc by simp
  next
    case prefixed: True
    show ?thesis
    proof (cases "label_key k")
      case None
      then have "\<not> acceptable (ls @ [l])"
        using prefixed by (auto simp: acceptable_def dataset_labels_def l)
      then show ?thesis using process_label_keyed(1) [OF prefixed None] by (simp add: l)
    next
      case (Some p)
      obtain idx b where p: "p = (idx, b)" by fastforce
      have keyed: "keyed (ls @ [l]) = keyed ls @ [((idx, b), v)]"
        using prefixed Some by (simp add: keyed_snoc l p)
      then have new: "(idx, b) \<notin> fst ` set (keyed ls)" and newm: "map_of (keyed ls) (idx, b) = None"
        using can by (auto simp: canonical_def map_of_eq_None_iff)
      have all_keyed: "\<forall>l \<in> set (dataset_labels (ls @ [l])). label_key (fst l) \<noteq> None"
        using acc prefixed Some by (auto simp: acceptable_def dataset_labels_def l)
      have ids: "id_values (ls @ [l]) = id_values ls @ (if b then [v] else [])"
        using keyed by (simp add: id_values_def)
      have acc': "acceptable (ls @ [l]) \<longleftrightarrow> (b \<longrightarrow> v \<notin> set U)"
        using all_keyed acc inv' by (auto simp: acceptable_def ids)
      have lookup: "map_of (keyed (ls @ [l])) = (map_of (keyed ls))((idx, b) \<mapsto> v)"
        using newm by (auto simp: keyed map_add_def fun_eq_iff split: option.splits)
      define d where "d = (case map_of D idx of Some d \<Rightarrow> d | None \<Rightarrow> NewDatasetInput)"
      show ?thesis
      proof (cases b)
        case True
        have d: "d = (case map_of (keyed ls) (idx, False) of None \<Rightarrow> NewDatasetInput | u \<Rightarrow> input_of None u)"
          using newm True by (auto simp: d_def inv' label_inputs_def split: option.splits)
        then have "in_name d = ''''"
          by (auto simp: NewDatasetInput_def split: option.splits)
        then have step: "(v \<in> set U \<longrightarrow> isl (process_label l (D, U))) \<and>
          (v \<notin> set U \<longrightarrow> process_label l (D, U) = Inr (mset_key idx (SetName v d) D, v # U))"
          using process_label_keyed(2) [OF prefixed, of idx D v U] Some p True by (simp add: l d_def)
        have "(label_inputs ls)(idx \<mapsto> SetName v d) = label_inputs (ls @ [l])"
          using newm True
          by (auto simp: fun_eq_iff label_inputs_def lookup d split: option.splits)
        then have "labels_inv (ls @ [l]) (mset_key idx (SetName v d) D, v # U)"
          using inv' True by (auto simp: labels_inv_def ids)
        then show ?thesis using step acc' True by auto
      next
        case False
        have d: "d = (case map_of (keyed ls) (idx, True) of None \<Rightarrow> NewDatasetInput | n \<Rightarrow> input_of n None)"
          using newm False by (auto simp: d_def inv' label_inputs_def split: option.splits)
        have step: "process_label l (D, U) =
            Inr (mset_key idx (add_uses False (Split v labelSeparator) d) D, U)"
          using process_label_keyed(3) [OF prefixed, of idx v D U] Some p False by (simp add: l d_def)
        have "(label_inputs ls)(idx \<mapsto> add_uses False (Split v labelSeparator) d) = label_inputs (ls @ [l])"
          using newm False
          by (auto simp: fun_eq_iff label_inputs_def lookup d split: option.splits)
        then have "labels_inv (ls @ [l]) (mset_key idx (add_uses False (Split v labelSeparator) d) D, U)"
          using inv' False by (auto simp: labels_inv_def ids)
        then show ?thesis using step acc' False by auto
      qed
    qed
  qed
qed

lemma canonical_snocD: "canonical (ls @ [l]) \<Longrightarrow> canonical ls"
  by (auto simp: canonical_def keyed_snoc)

lemma acceptable_snocD: "acceptable (ls @ [l]) \<Longrightarrow> acceptable ls"
  by (auto simp: acceptable_def id_values_def keyed_def dataset_labels_def)

lemma process_labels_spec:
  "canonical ls \<Longrightarrow>
   if acceptable ls then \<exists>st. process_labels ls ([], []) = Inr st \<and> labels_inv ls st
   else isl (process_labels ls ([], []))"
proof (induction ls rule: rev_induct)
  case Nil
  show ?case
    by (auto simp: acceptable_def labels_inv_def id_values_def keyed_def dataset_labels_def
        label_inputs_def fun_eq_iff)
next
  case (snoc l ls)
  note IH = snoc.IH [OF canonical_snocD [OF snoc.prems]]
  show ?case
  proof (cases "acceptable ls")
    case True
    with IH obtain D U where st: "process_labels ls ([], []) = Inr (D, U)" "labels_inv ls (D, U)"
      by auto
    then show ?thesis
      using process_label_step [OF st(2) snoc.prems True]
      by (auto simp: process_labels_snoc split: if_splits)
  next
    case False
    then have "\<not> acceptable (ls @ [l])" using acceptable_snocD by blast
    then show ?thesis using IH False by (auto simp: process_labels_snoc isl_def)
  qed
qed

text \<open>The pod with its labels visited in another order.\<close>

definition with_labels :: "smap \<Rightarrow> Pod \<Rightarrow> Pod" where
  "with_labels ls pod = pod\<lparr>pod_meta := (pod_meta pod)\<lparr>om_labels := ls\<rparr>\<rparr>"

lemma DatasetInputFromPod_with_labels:
  "DatasetInputFromPod (with_labels ls pod) =
     (case process_labels ls ([], []) of Inl e \<Rightarrow> Inl e | Inr (datasets, _) \<Rightarrow> Inr datasets)"
  by (simp add: DatasetInputFromPod_def with_labels_def)

lemma map_of_mset_eq:
  assumes "distinct (map fst xs)" and "mset xs = mset ys"
  shows "map_of xs = map_of ys"
proof -
  have "mset (map fst xs) = mset (map fst ys)" unfolding mset_map assms(2) ..
  then have d: "distinct (map fst ys)" using assms(1) mset_eq_imp_distinct_iff by blast
  have "set xs = set ys" using assms(2) by (metis set_mset_mset)
  then have "map_of xs k = Some v \<longleftrightarrow> map_of ys k = Some v" for k v
    using assms(1) d by (simp add: map_of_eq_Some_iff)
  then show ?thesis by (metis ext not_None_eq)
qed

lemma description_order_irrelevant:
  assumes "mset ls' = mset ls"
  shows "canonical ls' \<longleftrightarrow> canonical ls" and "acceptable ls' \<longleftrightarrow> acceptable ls"
    and "canonical ls \<Longrightarrow> label_inputs ls' = label_inputs ls"
proof -
  have labels: "mset (dataset_labels ls') = mset (dataset_labels ls)"
    using assms by (simp add: dataset_labels_def mset_filter)
  then have k: "mset (keyed ls') = mset (keyed ls)"
    unfolding keyed_def mset_map by simp
  have "mset (map fst (keyed ls')) = mset (map fst (keyed ls))" unfolding mset_map k ..
  then show can: "canonical ls' \<longleftrightarrow> canonical ls"
    unfolding canonical_def by (rule mset_eq_imp_distinct_iff)
  have "mset (id_values ls') = mset (id_values ls)"
    unfolding id_values_def mset_map mset_filter k ..
  then have "distinct (id_values ls') \<longleftrightarrow> distinct (id_values ls)"
    by (rule mset_eq_imp_distinct_iff)
  moreover have "set (dataset_labels ls') = set (dataset_labels ls)"
    using labels by (metis set_mset_mset)
  ultimately show "acceptable ls' \<longleftrightarrow> acceptable ls" by (simp add: acceptable_def)
  show "canonical ls \<Longrightarrow> label_inputs ls' = label_inputs ls"
    using map_of_mset_eq [OF _ k] can by (simp add: label_inputs_def canonical_def fun_eq_iff)
qed

lemma in_order_cong:
  assumes "distinct (map fst D)" "distinct (map fst D')" "map_of D = map_of D'"
  shows "in_order D = in_order D'"
proof -
  have "set D = set D'"
    using assms by (metis (no_types, lifting) map_of_eq_Some_iff set_eqI surj_pair)
  moreover have "distinct D" "distinct D'" using assms by (auto simp: distinct_map)
  ultimately have "mset D = mset D'" by (simp add: set_eq_iff_mset_eq_distinct)
  moreover have "inj_on fst (set D)" using assms(1) by (simp add: distinct_map)
  ultimately have "sort_key fst D' = sort_key fst D"
    by (metis mset_sort sort_key_inj_key_eq sorted_sort_key set_mset_mset)
  then show ?thesis by (simp add: in_order_def)
qed

section \<open>Names and uses\<close>

text \<open>
  Whatever the labels: the indices are distinct, a non-empty name belongs to one index only, and no
  use is recorded twice.
\<close>

definition names_inv :: "inputs \<times> string list \<Rightarrow> bool" where
  "names_inv st \<longleftrightarrow> distinct (map fst (fst st)) \<and>
     (\<forall>i d. map_of (fst st) i = Some d \<longrightarrow>
        distinct (in_useasLabels d) \<and> (in_name d \<noteq> '''' \<longrightarrow> in_name d \<in> set (snd st))) \<and>
     (\<forall>i j d e. map_of (fst st) i = Some d \<longrightarrow> map_of (fst st) j = Some e \<longrightarrow> i \<noteq> j \<longrightarrow>
        in_name d \<noteq> '''' \<longrightarrow> in_name d \<noteq> in_name e)"

lemma process_label_names:
  assumes "names_inv (D, U)" and "process_label l (D, U) = Inr st"
  shows "names_inv st"
proof -
  obtain k v where l: "l = (k, v)" by fastforce
  have uses: "distinct (in_useasLabels (add_uses False us d))" if "distinct (in_useasLabels d)" for us d
    using first_run_distinct [OF that] by (simp add: add_uses_labels)
  have new: "in_name NewDatasetInput = ''''" "distinct (in_useasLabels NewDatasetInput)"
    by (simp_all add: NewDatasetInput_def)
  consider "st = (D, U)"
    | idx d where "map_of D idx = Some d \<or> d = NewDatasetInput"
        "in_name d = ''''" "v \<notin> set U" "st = (mset_key idx (SetName v d) D, v # U)"
    | idx d where "map_of D idx = Some d \<or> d = NewDatasetInput"
        "st = (mset_key idx (add_uses False (Split v labelSeparator) d) D, U)"
    using assms(2)
    by (auto simp: l process_label_def Let_def simp del: input_of_simps
        split: if_splits prod.splits option.splits)
  then show ?thesis
  proof cases
    case 1
    then show ?thesis using assms(1) by simp
  next
    case 2
    then show ?thesis
      using assms(1) 2 new
      unfolding names_inv_def by (auto simp: SetName_def split: if_splits)
  next
    case 3
    have keys: "distinct (map fst D)" using assms(1) by (simp add: names_inv_def)
    have apart: "in_name d = '''' \<or> in_name d \<noteq> in_name e" if "map_of D j = Some e" "j \<noteq> idx" for j e
      using assms(1) 3(1) new(1) that unfolding names_inv_def by (metis fst_conv)
    then show ?thesis
      using assms(1) 3 new uses keys
      unfolding names_inv_def by (simp split: if_splits) metis
  qed
qed

lemma process_labels_names:
  "names_inv st \<Longrightarrow> process_labels ls st = Inr st' \<Longrightarrow> names_inv st'"
  by (induction ls arbitrary: st) (auto split: sum.splits dest: process_label_names)

lemma DatasetInputFromPod_names:
  assumes "DatasetInputFromPod pod = Inr datasets"
  shows "\<exists>U. names_inv (datasets, U)"
proof -
  have "names_inv ([], [])" by (simp add: names_inv_def)
  then show ?thesis
    using assms process_labels_names
    by (fastforce simp: DatasetInputFromPod_def split: sum.splits prod.splits)
qed

end
