(* ===== verification/Pod_Json.thy ===== *)
theory Pod_Json
  imports Pod_Patch
begin

text \<open>
  The effect of the webhook's patch.  The API server applies the answer of the webhook to the pod as
  a JSON patch (RFC 6902); \<open>json_add\<close> is its \<open>add\<close> operation, \<open>pod_doc\<close> the part of the pod
  document the webhook changes, and \<open>patched_ctr\<close> says what a container should look like
  afterwards.  \<open>patch_spec\<close> is shown to do exactly that.
\<close>

section \<open>JSON patches\<close>

definition array_index :: "string \<Rightarrow> nat option" where
  "array_index t =
     (if t = [] \<or> (\<exists>c \<in> set t. digit_value c = None) \<or> (hd t = CHR ''0'' \<and> tl t \<noteq> []) then None
      else Some (foldl (\<lambda>n c. 10 * n + the (digit_value c)) 0 t))"

fun json_add :: "string list \<Rightarrow> json \<Rightarrow> json \<Rightarrow> json option" where
  "json_add [] v doc = Some v"
| "json_add [t] v (JObject fs) = Some (JObject (AList.update t v fs))"
| "json_add [t] v (JArray xs) =
     (if t = ''-'' then Some (JArray (xs @ [v]))
      else case array_index t of
        None \<Rightarrow> None
      | Some i \<Rightarrow> if i \<le> length xs then Some (JArray (take i xs @ v # drop i xs)) else None)"
| "json_add (t # t' # ts) v (JObject fs) =
     (case map_of fs t of
        None \<Rightarrow> None
      | Some d \<Rightarrow> map_option (\<lambda>d'. JObject (AList.update t d' fs)) (json_add (t' # ts) v d))"
| "json_add (t # t' # ts) v (JArray xs) =
     (case array_index t of
        None \<Rightarrow> None
      | Some i \<Rightarrow>
          if i < length xs then map_option (\<lambda>d'. JArray (xs[i := d'])) (json_add (t' # ts) v (xs ! i))
          else None)"
| "json_add _ v _ = None"

text \<open>The reference tokens of a pointer; the ones the webhook writes need no unescaping.\<close>

definition pointer :: "string \<Rightarrow> string list" where
  "pointer p = tl (Split p (CHR ''/''))"

fun apply_patch :: "JsonPatchOperation list \<Rightarrow> json \<Rightarrow> json option" where
  "apply_patch [] doc = Some doc"
| "apply_patch (p # ps) doc =
     (if op_Operation p \<noteq> ''add'' then None
      else case json_add (pointer (op_Path p)) (op_Value p) doc of
        None \<Rightarrow> None
      | Some doc' \<Rightarrow> apply_patch ps doc')"

lemma apply_add [simp]:
  "apply_patch (add_op p v # ps) doc =
     (case json_add (pointer p) v doc of None \<Rightarrow> None | Some doc' \<Rightarrow> apply_patch ps doc')"
  by (simp add: add_op_def)

lemma apply_patch_append:
  "apply_patch (ps @ qs) doc = Option.bind (apply_patch ps doc) (apply_patch qs)"
  by (induction ps arbitrary: doc) (auto split: option.splits)

lemma hd_nat_digits: "0 < n \<Longrightarrow> hd (nat_digits n) \<noteq> CHR ''0''"
proof (induction n rule: nat_digits.induct)
  case (1 n)
  show ?case
  proof (cases "n < 10")
    case True
    have "digit_value (char_of (n + 48)) = Some n" "digit_value CHR ''0'' = Some 0"
      using True by (simp add: digit_value_char_of) (simp add: digit_value_def)
    then have "char_of (n + 48) \<noteq> CHR ''0''" using 1(2) by auto
    then show ?thesis using True by (simp add: nat_digits.simps [of n])
  next
    case False
    then show ?thesis using 1 by (simp add: nat_digits.simps [of n])
  qed
qed

lemma foldl_nat_digits: "foldl (\<lambda>n c. 10 * n + the (digit_value c)) 0 (nat_digits n) = n"
proof (induction n rule: nat_digits.induct)
  case (1 n)
  then show ?case by (simp add: nat_digits.simps [of n] digit_value_char_of)
qed

lemma array_index_Itoa [simp]: "array_index (Itoa (int n)) = Some n"
proof -
  have "digit_value c \<noteq> None" if "c \<in> set (nat_digits n)" for c
    using set_nat_digits [OF that] digit_value_char_of by auto
  moreover have "hd (nat_digits n) = CHR ''0'' \<Longrightarrow> tl (nat_digits n) = []"
    using hd_nat_digits [of n] by (cases "n = 0") (auto simp: nat_digits.simps [of 0])
  ultimately show ?thesis by (auto simp: array_index_def Itoa_def foldl_nat_digits)
qed

lemma Itoa_token [simp]:
  "Split (Itoa (int n)) (CHR ''/'') = [Itoa (int n)]" "Itoa (int n) \<noteq> ''-''"
  "Split (Itoa (int n) @ CHR ''/'' # s) (CHR ''/'') = Itoa (int n) # Split s (CHR ''/'')"
proof -
  have "CHR ''/'' \<notin> set (nat_digits n)" "CHR ''-'' \<notin> set (nat_digits n)"
    using nat_digits_digit [of "CHR ''/''" n] nat_digits_digit [of "CHR ''-''" n] by auto
  then show "Split (Itoa (int n)) (CHR ''/'') = [Itoa (int n)]" "Itoa (int n) \<noteq> ''-''"
    "Split (Itoa (int n) @ CHR ''/'' # s) (CHR ''/'') = Itoa (int n) # Split s (CHR ''/'')"
    by (auto simp: Itoa_def intro: Split_no_sep Split_append)
qed

section \<open>The pod document\<close>

text \<open>A container: its name, its volume mounts and its \<open>envFrom\<close> entries.\<close>

type_synonym ctr = "string \<times> json list \<times> json list"

text \<open>An array field with \<open>omitempty\<close>.\<close>

definition array_field :: "string \<Rightarrow> json list \<Rightarrow> (string \<times> json) list" where
  "array_field n xs = (if xs = [] then [] else [(n, JArray xs)])"

definition ctr_doc :: "ctr \<Rightarrow> json" where
  "ctr_doc c = (case c of (n, ms, es) \<Rightarrow>
     JObject ((''name'', JString n) # array_field ''volumeMounts'' ms @ array_field ''envFrom'' es))"

definition list_name :: "bool \<Rightarrow> string" where
  "list_name init = (if init then ''initContainers'' else ''containers'')"

definition pod_doc :: "json list \<Rightarrow> (bool \<Rightarrow> ctr list) \<Rightarrow> json" where
  "pod_doc vs cs = JObject [(''spec'', JObject (array_field ''volumes'' vs @
     array_field ''initContainers'' (map ctr_doc (cs True)) @
     array_field ''containers'' (map ctr_doc (cs False))))]"

definition volume_json :: "Volume \<Rightarrow> json" where
  "volume_json v = JObject ((''name'', JString (vol_Name v)) #
     (case vol_PVC v of None \<Rightarrow> []
      | Some n \<Rightarrow> [(''persistentVolumeClaim'', JObject [(''claimName'', JString n)])]))"

definition volume_mount_json :: "VolumeMount \<Rightarrow> json" where
  "volume_mount_json m =
     JObject [(''name'', JString (vm_Name m)), (''mountPath'', JString (vm_MountPath m))]"

definition env_from_json :: "EnvFromSource \<Rightarrow> json" where
  "env_from_json e = JObject ((''prefix'', JString (ef_Prefix e)) #
     (case ef_ConfigMapRef e of None \<Rightarrow> [] | Some n \<Rightarrow> [(''configMapRef'', JObject [(''name'', JString n)])]) @
     (case ef_SecretRef e of None \<Rightarrow> [] | Some n \<Rightarrow> [(''secretRef'', JObject [(''name'', JString n)])]))"

definition ctr_of :: "Container \<Rightarrow> ctr" where
  "ctr_of c = (ct_Name c, map volume_mount_json (ct_VolumeMounts c), map env_from_json (ct_EnvFrom c))"

definition containers_of :: "Pod \<Rightarrow> bool \<Rightarrow> Container list" where
  "containers_of pod init = (if init then pod_InitContainers pod else pod_Containers pod)"

definition json_of_pod :: "Pod \<Rightarrow> json" where
  "json_of_pod pod = pod_doc (map volume_json (pod_Volumes pod)) (\<lambda>b. map ctr_of (containers_of pod b))"

section \<open>What the pod should become\<close>

definition refs :: "string \<Rightarrow> json list" where
  "refs d = [configmap_ref d, secret_ref d]"

definition refs_at ::
  "(nat \<Rightarrow> (int, string) gomap \<Rightarrow> (int, string) gomap) \<Rightarrow> string list \<Rightarrow> nat \<Rightarrow> json list" where
  "refs_at ord names j = concat (map refs (map snd (ord j (enum names))))"

text \<open>
  The \<open>envFrom\<close> entries of container \<open>i\<close>.  A container that has some gets the missing ones; one
  that has none gets those of every container without \<open>envFrom\<close> up to and including itself.
\<close>

definition env_after ::
  "(nat \<Rightarrow> (int, string) gomap \<Rightarrow> (int, string) gomap) \<Rightarrow> string list \<Rightarrow> Container list \<Rightarrow> nat \<Rightarrow> json list" where
  "env_after ord names cs i =
     (if ct_EnvFrom (cs ! i) \<noteq> [] then
        map env_from_json (ct_EnvFrom (cs ! i)) @
        concat (map refs (filter (\<lambda>d. \<not> (\<exists>e \<in> set (ct_EnvFrom (cs ! i)). env_refers d e))
          (map snd (ord i (enum names)))))
      else concat (map (refs_at ord names) (filter (\<lambda>j. ct_EnvFrom (cs ! j) = []) [0..<Suc i])))"

text \<open>Container \<open>i\<close> after mounting \<open>xs\<close> and injecting \<open>names\<close>.\<close>

definition patched_ctr ::
  "(nat \<Rightarrow> (int, string) gomap \<Rightarrow> (int, string) gomap) \<Rightarrow> DatasetInput list \<Rightarrow> string list \<Rightarrow>
   Container list \<Rightarrow> nat \<Rightarrow> ctr" where
  "patched_ctr ord xs names cs i =
     (ct_Name (cs ! i),
      map volume_mount_json (ct_VolumeMounts (cs ! i)) @ map mount_value (not_mounted (cs ! i) xs),
      if names = [] then map env_from_json (ct_EnvFrom (cs ! i)) else env_after ord names cs i)"

lemma map_nth_upt: "map (\<lambda>i. f (xs ! i)) [0..<length xs] = map f xs"
  by (rule nth_equalityI) simp_all

section \<open>Single operations\<close>

lemma array_field_simps [simp]: "array_field n [] = []" "xs \<noteq> [] \<Longrightarrow> array_field n xs = [(n, JArray xs)]"
  by (auto simp: array_field_def)

lemma add_volume:
  assumes "vs \<noteq> []"
  shows "json_add [''spec'', ''volumes'', Itoa (int (length vs))] v (pod_doc vs cs) =
     Some (pod_doc (vs @ [v]) cs)"
  using assms by (simp add: pod_doc_def)

text \<open>An operation inside container \<open>i\<close> of the pod.\<close>

lemma add_in_container:
  assumes "i < length (cs b)" and "json_add (t # ts) v (ctr_doc (cs b ! i)) = Some (ctr_doc c)"
  shows "json_add (''spec'' # list_name b # Itoa (int i) # t # ts) v (pod_doc vs cs) =
     Some (pod_doc vs (cs(b := (cs b)[i := c])))"
proof -
  have "cs b \<noteq> []" using assms(1) by auto
  have list: "json_add (Itoa (int i) # t # ts) v (JArray (map ctr_doc (cs b))) =
      Some (JArray (map ctr_doc ((cs b)[i := c])))"
    using assms by (simp add: map_update)
  show ?thesis
    using \<open>cs b \<noteq> []\<close> list
    by (cases b; cases "cs True = []"; cases "vs = []") (simp_all add: pod_doc_def list_name_def)
qed

lemma add_mount:
  assumes "ms \<noteq> []"
  shows "json_add [''volumeMounts'', Itoa (int (length ms))] v (ctr_doc (n, ms, es)) =
     Some (ctr_doc (n, ms @ [v], es))"
  using assms by (cases "es = []") (simp_all add: ctr_doc_def)

lemma add_env_entry:
  assumes "es \<noteq> []"
  shows "json_add [''envFrom'', ''-''] v (ctr_doc (n, ms, es)) = Some (ctr_doc (n, ms, es @ [v]))"
  using assms by (cases "ms = []") (simp_all add: ctr_doc_def)

lemma add_env:
  assumes "vs \<noteq> []"
  shows "json_add [''envFrom''] (JArray vs) (ctr_doc (n, ms, [])) = Some (ctr_doc (n, ms, vs))"
  using assms by (cases "ms = []") (simp_all add: ctr_doc_def)

lemma pointers [simp]:
  "pointer (''/spec/volumes/'' @ Itoa (int n)) = [''spec'', ''volumes'', Itoa (int n)]"
  "pointer (mount_path (list_name b) i n) = [''spec'', list_name b, Itoa (int i), ''volumeMounts'', Itoa (int n)]"
  "pointer (env_path (list_name b) i) = [''spec'', list_name b, Itoa (int i), ''envFrom'']"
  "pointer (env_path (list_name b) i @ ''/-'') = [''spec'', list_name b, Itoa (int i), ''envFrom'', ''-'']"
  by (cases b; simp add: pointer_def mount_path_def env_path_def list_name_def)+

lemmas volume_pointer [simp] = pointers(1) [simplified append.simps]

declare apply_patch.simps(2) [simp del]

section \<open>The whole patch\<close>

lemma apply_volumes:
  "vs \<noteq> [] \<Longrightarrow> apply_patch (volume_patches (length vs) xs) (pod_doc vs cs) =
     Some (pod_doc (vs @ map volume_value xs) cs)"
proof (induction xs arbitrary: vs)
  case Nil
  show ?case by (simp add: volume_patches_def)
next
  case (Cons x xs)
  show ?case
    using Cons.IH [of "vs @ [volume_value x]"] add_volume [OF Cons.prems]
    by (simp add: volume_patches_def append_patches_Cons)
qed

lemma apply_container_mounts:
  "i < length (cs b) \<Longrightarrow> cs b ! i = (n, ms, es) \<Longrightarrow> ms \<noteq> [] \<Longrightarrow>
   apply_patch (append_patches (mount_path (list_name b) i) mount_value (length ms) xs) (pod_doc vs cs) =
     Some (pod_doc vs (cs(b := (cs b)[i := (n, ms @ map mount_value xs, es)])))"
proof (induction xs arbitrary: ms cs)
  case Nil
  then have "(cs b)[i := (n, ms, es)] = cs b" using list_update_id [of "cs b" i] by simp
  then show ?case by simp
next
  case (Cons x xs)
  define cs' where "cs' = cs(b := (cs b)[i := (n, ms @ [mount_value x], es)])"
  have step: "json_add [''spec'', list_name b, Itoa (int i), ''volumeMounts'', Itoa (int (length ms))]
      (mount_value x) (pod_doc vs cs) = Some (pod_doc vs cs')"
    unfolding cs'_def using Cons.prems by (intro add_in_container) (auto simp: add_mount)
  have "cs' b = (cs b)[i := (n, ms @ [mount_value x], es)]" "cs'(b := l) = cs(b := l)" for l
    by (simp_all add: cs'_def)
  then show ?case
    using Cons.IH [of cs' "ms @ [mount_value x]"] Cons.prems step by (simp add: append_patches_Cons)
qed

text \<open>The containers before position \<open>k\<close> are done, the others still as they were.\<close>

definition progress :: "(nat \<Rightarrow> 'a) \<Rightarrow> (nat \<Rightarrow> 'a) \<Rightarrow> nat \<Rightarrow> nat \<Rightarrow> 'a list" where
  "progress new old k n = map (\<lambda>i. if i < k then new i else old i) [0..<n]"

lemma progress_simps [simp]: "length (progress new old k n) = n"
  "i < n \<Longrightarrow> progress new old k n ! i = (if i < k then new i else old i)"
  "progress new old n n = map new [0..<n]" "progress new old 0 n = map old [0..<n]"
  by (auto simp: progress_def)

lemma progress_step: "k < n \<Longrightarrow> (progress new old k n)[k := new k] = progress new old (Suc k) n"
  by (rule nth_equalityI) (auto simp: nth_list_update less_Suc_eq)

text \<open>Patches for one container after the other, each of which does its part.\<close>

lemma apply_containers:
  assumes step: "\<And>i cs. i < n \<Longrightarrow> length (cs b) = n \<Longrightarrow> cs b ! i = old i \<Longrightarrow>
    apply_patch (ps i) (pod_doc vs cs) = Some (pod_doc vs (cs(b := (cs b)[i := new i])))"
  shows "k \<le> n \<Longrightarrow> cs b = progress new old k n \<Longrightarrow>
    apply_patch (concat (map ps [k..<n])) (pod_doc vs cs) = Some (pod_doc vs (cs(b := map new [0..<n])))"
proof (induction "n - k" arbitrary: k cs)
  case 0
  then have "cs(b := map new [0..<n]) = cs" by auto
  then show ?case using 0 by simp
next
  case (Suc m)
  then have k: "k < n" by simp
  define cs' where "cs' = cs(b := progress new old (Suc k) n)"
  have "apply_patch (ps k) (pod_doc vs cs) = Some (pod_doc vs cs')"
    using step [of k cs] k Suc.prems by (simp add: cs'_def progress_step)
  moreover have "apply_patch (concat (map ps [Suc k..<n])) (pod_doc vs cs') =
      Some (pod_doc vs (cs'(b := map new [0..<n])))"
    using Suc.hyps(1) [of "Suc k" cs'] Suc.hyps(2) k by (simp add: cs'_def)
  ultimately show ?case using k by (simp add: upt_conv_Cons apply_patch_append cs'_def)
qed

definition mounted_ctr :: "DatasetInput list \<Rightarrow> Container \<Rightarrow> ctr" where
  "mounted_ctr xs c =
     (ct_Name c, map volume_mount_json (ct_VolumeMounts c) @ map mount_value (not_mounted c xs),
      map env_from_json (ct_EnvFrom c))"

lemma apply_mounts:
  assumes "\<forall>c \<in> set cl. ct_VolumeMounts c \<noteq> []" and "cs b = map ctr_of cl"
  shows "apply_patch (containers_patches (list_name b) cl xs) (pod_doc vs cs) =
    Some (pod_doc vs (cs(b := map (mounted_ctr xs) cl)))"
proof -
  have "apply_patch (concat (map (\<lambda>i. mount_patches (list_name b) i (cl ! i) xs) [0..<length cl]))
      (pod_doc vs cs) = Some (pod_doc vs (cs(b := map (\<lambda>i. mounted_ctr xs (cl ! i)) [0..<length cl])))"
  proof (rule apply_containers [where old = "\<lambda>i. ctr_of (cl ! i)"])
    fix i and cs :: "bool \<Rightarrow> ctr list"
    assume i: "i < length cl" "length (cs b) = length cl" "cs b ! i = ctr_of (cl ! i)"
    then have "ct_VolumeMounts (cl ! i) \<noteq> []" using assms(1) by simp
    then show "apply_patch (mount_patches (list_name b) i (cl ! i) xs) (pod_doc vs cs) =
        Some (pod_doc vs (cs(b := (cs b)[i := mounted_ctr xs (cl ! i)])))"
      using apply_container_mounts [of i cs b "ct_Name (cl ! i)"
          "map volume_mount_json (ct_VolumeMounts (cl ! i))"] i
      by (simp add: mount_patches_def mounted_ctr_def ctr_of_def)
  qed (simp_all add: assms(2) map_nth_upt)
  then show ?thesis by (simp add: containers_patches_def map_nth_upt)
qed

text \<open>The \<open>envFrom\<close> patches of container \<open>i\<close>, and the loop as one list per container.\<close>

definition env_patches ::
  "(nat \<Rightarrow> (int, string) gomap \<Rightarrow> (int, string) gomap) \<Rightarrow> string list \<Rightarrow> string \<Rightarrow> Container list \<Rightarrow> nat \<Rightarrow>
   JsonPatchOperation list" where
  "env_patches ord names typ cs i =
     (if ct_EnvFrom (cs ! i) \<noteq> [] then
        map (add_op (env_path typ i @ ''/-''))
          (concat (map refs (filter (\<lambda>d. \<not> (\<exists>e \<in> set (ct_EnvFrom (cs ! i)). env_refers d e))
             (map snd (ord i (enum names))))))
      else [add_op (env_path typ i) (JArray (env_after ord names cs i))])"

lemma concat_map_pairs:
  "concat (map (\<lambda>(_, d). if P d then [] else [add_op p (configmap_ref d), add_op p (secret_ref d)]) ps) =
     map (add_op p) (concat (map refs (filter (\<lambda>d. \<not> P d) (map snd ps))))"
  "concat (map (\<lambda>(_, d). [configmap_ref d, secret_ref d]) ps) = concat (map refs (map snd ps))"
  by (induction ps) (auto simp: refs_def)

lemma env_loop_patches:
  "k \<le> length cs \<Longrightarrow>
   env_loop ord (enum names) typ
     (concat (map (refs_at ord names) (filter (\<lambda>j. ct_EnvFrom (cs ! j) = []) [0..<k]))) k (drop k cs) =
   concat (map (env_patches ord names typ cs) [k..<length cs])"
proof (induction "length cs - k" arbitrary: k)
  case 0
  then show ?case by simp
next
  case (Suc m)
  then have k: "k < length cs" by simp
  then have "drop k cs = cs ! k # drop (Suc k) cs" by (simp add: Cons_nth_drop_Suc)
  moreover have "[0..<Suc k] = [0..<k] @ [k]" by simp
  moreover note IH = Suc.hyps(1) [of "Suc k"]
  ultimately show ?case
    using Suc.hyps(2) k
    by (cases "ct_EnvFrom (cs ! k) = []")
      (simp_all add: upt_conv_Cons env_patches_def env_after_def refs_at_def Let_def concat_map_pairs
        del: upt_Suc map_map)
qed

lemma apply_env_entries:
  "i < length (cs b) \<Longrightarrow> cs b ! i = (n, ms, es) \<Longrightarrow> es \<noteq> [] \<Longrightarrow>
   apply_patch (map (add_op (env_path (list_name b) i @ ''/-'')) vals) (pod_doc vs cs) =
     Some (pod_doc vs (cs(b := (cs b)[i := (n, ms, es @ vals)])))"
proof (induction vals arbitrary: es cs)
  case Nil
  then have "(cs b)[i := (n, ms, es)] = cs b" using list_update_id [of "cs b" i] by simp
  then show ?case by simp
next
  case (Cons x vals)
  define cs' where "cs' = cs(b := (cs b)[i := (n, ms, es @ [x])])"
  have step: "json_add [''spec'', list_name b, Itoa (int i), ''envFrom'', ''-''] x (pod_doc vs cs) =
      Some (pod_doc vs cs')"
    unfolding cs'_def using Cons.prems by (intro add_in_container) (auto simp: add_env_entry)
  have "cs' b = (cs b)[i := (n, ms, es @ [x])]" "cs'(b := l) = cs(b := l)" for l
    by (simp_all add: cs'_def)
  then show ?case
    using Cons.IH [of cs' "es @ [x]"] Cons.prems step by simp
qed

lemma apply_env:
  assumes ord: "\<And>i m. mset (ord i m) = mset m" and "names \<noteq> []"
    and cs: "cs b = map (\<lambda>i. (ct_Name (cl ! i), ms i, map env_from_json (ct_EnvFrom (cl ! i)))) [0..<length cl]"
  shows "apply_patch (patchContainersWithDatasetMaps ord (enum names) cl b) (pod_doc vs cs) =
    Some (pod_doc vs (cs(b := map (\<lambda>i. (ct_Name (cl ! i), ms i, env_after ord names cl i)) [0..<length cl])))"
proof -
  have patches: "patchContainersWithDatasetMaps ord (enum names) cl b =
      concat (map (env_patches ord names (list_name b) cl) [0..<length cl])"
    using env_loop_patches [of 0 cl ord names "list_name b"]
    by (simp add: patchContainersWithDatasetMaps_def list_name_def)
  have some: "env_after ord names cl i \<noteq> []" if "ct_EnvFrom (cl ! i) = []" for i
  proof -
    have "ord i (enum names) \<noteq> []" using ord [of i "enum names"] \<open>names \<noteq> []\<close> by (metis enum_empty_iff mset_zero_iff)
    then have "refs_at ord names i \<noteq> []" by (cases "ord i (enum names)") (auto simp: refs_at_def refs_def)
    then show ?thesis using that by (simp add: env_after_def)
  qed
  show ?thesis
    unfolding patches
  proof (rule apply_containers
      [where old = "\<lambda>i. (ct_Name (cl ! i), ms i, map env_from_json (ct_EnvFrom (cl ! i)))"])
    fix i and cs :: "bool \<Rightarrow> ctr list"
    assume i: "i < length cl" "length (cs b) = length cl"
      "cs b ! i = (ct_Name (cl ! i), ms i, map env_from_json (ct_EnvFrom (cl ! i)))"
    show "apply_patch (env_patches ord names (list_name b) cl i) (pod_doc vs cs) =
      Some (pod_doc vs (cs(b := (cs b)[i := (ct_Name (cl ! i), ms i, env_after ord names cl i)])))"
    proof (cases "ct_EnvFrom (cl ! i) = []")
      case True
      have "json_add [''spec'', list_name b, Itoa (int i), ''envFrom''] (JArray (env_after ord names cl i))
          (pod_doc vs cs) =
          Some (pod_doc vs (cs(b := (cs b)[i := (ct_Name (cl ! i), ms i, env_after ord names cl i)])))"
        using i True add_env [OF some [OF True]] by (intro add_in_container) simp_all
      then show ?thesis using True by (simp add: env_patches_def)
    next
      case False
      then show ?thesis
        using apply_env_entries [of i cs b, OF _ i(3)] i
        by (simp add: env_patches_def env_after_def)
    qed
  qed (use cs in simp_all)
qed

text \<open>The API server can mount into a pod that has volumes and whose containers have mounts.\<close>

definition has_arrays :: "Pod \<Rightarrow> bool" where
  "has_arrays pod \<longleftrightarrow> pod_Volumes pod \<noteq> [] \<and>
     (\<forall>b. \<forall>c \<in> set (containers_of pod b). ct_VolumeMounts c \<noteq> [])"

lemma apply_mount_part:
  assumes "xs \<noteq> [] \<Longrightarrow> has_arrays pod"
  shows "apply_patch (mount_part pod xs) (json_of_pod pod) =
    Some (pod_doc (map volume_json (pod_Volumes pod) @ map volume_value xs)
           (\<lambda>b. map (mounted_ctr xs) (containers_of pod b)))"
proof (cases "xs = []")
  case True
  then have "mounted_ctr xs = ctr_of" by (auto simp: mounted_ctr_def ctr_of_def not_mounted_def)
  then show ?thesis using True by (simp add: mount_part_def json_of_pod_def)
next
  case False
  then have arrays: "pod_Volumes pod \<noteq> []" "\<And>b. \<forall>c \<in> set (containers_of pod b). ct_VolumeMounts c \<noteq> []"
    using assms by (auto simp: has_arrays_def)
  define cs where "cs = (\<lambda>b. map ctr_of (containers_of pod b))"
  define vs where "vs = map volume_json (pod_Volumes pod)"
  have "apply_patch (volume_patches (length (pod_Volumes pod)) xs) (pod_doc vs cs) =
      Some (pod_doc (vs @ map volume_value xs) cs)"
    using apply_volumes [of vs xs cs] arrays by (simp add: vs_def)
  moreover have "apply_patch (containers_patches (list_name b) (containers_of pod b) xs) (pod_doc vs' cs') =
      Some (pod_doc vs' (cs'(b := map (mounted_ctr xs) (containers_of pod b))))" if "cs' b = cs b" for vs' cs' b
    using apply_mounts [of "containers_of pod b" cs' b] arrays that by (simp add: cs_def)
  note this [of cs True] this [of "cs(True := map (mounted_ctr xs) (containers_of pod True))" False]
  moreover have "cs(True := map (mounted_ctr xs) (containers_of pod True),
      False := map (mounted_ctr xs) (containers_of pod False)) = (\<lambda>b. map (mounted_ctr xs) (containers_of pod b))"
    by (auto simp: fun_eq_iff)
  moreover have "json_of_pod pod = pod_doc vs cs" by (simp add: json_of_pod_def vs_def cs_def)
  moreover have "mount_part pod xs = volume_patches (length (pod_Volumes pod)) xs @
      containers_patches (list_name True) (containers_of pod True) xs @
      containers_patches (list_name False) (containers_of pod False) xs"
    using False by (simp add: mount_part_def list_name_def containers_of_def)
  ultimately show ?thesis by (simp add: apply_patch_append vs_def)
qed

theorem apply_patch_spec:
  assumes "to_mount pod D \<noteq> [] \<Longrightarrow> has_arrays pod" and ord: "\<And>b i m. mset (ord b i m) = mset m"
  shows "apply_patch (patch_spec ord pod D) (json_of_pod pod) =
    Some (pod_doc (map volume_json (pod_Volumes pod) @ map volume_value (to_mount pod D))
      (\<lambda>b. map (patched_ctr (ord b) (to_mount pod D) (to_inject D) (containers_of pod b))
             [0..<length (containers_of pod b)]))"
proof (cases "to_inject D = []")
  case True
  have "map (mounted_ctr (to_mount pod D)) cl =
      map (patched_ctr (ord b) (to_mount pod D) (to_inject D) cl) [0..<length cl]" for b cl
  proof -
    have "patched_ctr (ord b) (to_mount pod D) (to_inject D) cl = (\<lambda>i. mounted_ctr (to_mount pod D) (cl ! i))"
      using True by (simp add: mounted_ctr_def patched_ctr_def fun_eq_iff)
    then show ?thesis by (simp only: map_nth_upt)
  qed
  then show ?thesis
    using apply_mount_part [OF assms(1)] True by (simp add: patch_spec_def env_part_def)
next
  case False
  define xs where "xs = to_mount pod D"
  define vs where "vs = map volume_json (pod_Volumes pod) @ map volume_value xs"
  define new where "new = (\<lambda>b. map (patched_ctr (ord b) xs (to_inject D) (containers_of pod b))
      [0..<length (containers_of pod b)])"
  define cs where "cs = (\<lambda>b. map (mounted_ctr xs) (containers_of pod b))"
  have env: "apply_patch (patchContainersWithDatasetMaps (ord b) (enum (to_inject D)) (containers_of pod b) b)
      (pod_doc vs cs') = Some (pod_doc vs (cs'(b := new b)))" if "cs' b = cs b" for cs' b
  proof -
    define ms where "ms = (\<lambda>i. map volume_mount_json (ct_VolumeMounts (containers_of pod b ! i)) @
      map mount_value (not_mounted (containers_of pod b ! i) xs))"
    have old: "cs' b = map (\<lambda>i. (ct_Name (containers_of pod b ! i), ms i,
        map env_from_json (ct_EnvFrom (containers_of pod b ! i)))) [0..<length (containers_of pod b)]"
      using map_nth_upt [of "mounted_ctr xs" "containers_of pod b"]
      unfolding that by (simp add: cs_def mounted_ctr_def ms_def)
    have new: "new b = map (\<lambda>i. (ct_Name (containers_of pod b ! i), ms i,
        env_after (ord b) (to_inject D) (containers_of pod b) i)) [0..<length (containers_of pod b)]"
      using False by (auto simp: new_def patched_ctr_def ms_def)
    from apply_env [where ord = "ord b" and cl = "containers_of pod b" and ms = ms and cs = cs' and b = b
        and names = "to_inject D" and vs = vs, OF ord False old] show ?thesis
      by (simp only: new)
  qed
  have "cs(True := new True, False := new False) = new" by (auto simp: fun_eq_iff)
  then have "apply_patch (env_part ord pod (to_inject D)) (pod_doc vs cs) = Some (pod_doc vs new)"
    using False env [of cs True] env [of "cs(True := new True)" False]
    by (simp add: env_part_def apply_patch_append containers_of_def)
  then show ?thesis
    using apply_mount_part [OF assms(1)]
    by (simp add: patch_spec_def apply_patch_append xs_def [symmetric] vs_def [symmetric] cs_def [symmetric]
        new_def [symmetric])
qed

end
