(* ===== verification/Pod_Webhook.thy ===== *)
theory Pod_Webhook
  imports Pod_Labels Pod_Json
begin

text \<open>
  The webhook as a whole: the lookup of the datasets against the contract of the API server, and the
  properties of \<open>Handle\<close> and of the functions it calls.
\<close>

section \<open>The lookup\<close>

definition dataset_at :: "cluster \<Rightarrow> string \<Rightarrow> string \<Rightarrow> Dataset option" where
  "dataset_at v ns n = (case v (KDataset, (ns, n)) of Some (ODataset x) \<Rightarrow> Some x | _ \<Rightarrow> None)"

text \<open>The inputs with the datasets of a cluster filled in.\<close>

definition resolved :: "cluster \<Rightarrow> string \<Rightarrow> inputs \<Rightarrow> inputs" where
  "resolved v ns D = map (\<lambda>p. (fst p, (snd p)\<lparr>in_resource := the (dataset_at v ns (in_name (snd p)))\<rparr>)) D"

definition all_exist :: "cluster \<Rightarrow> string \<Rightarrow> inputs \<Rightarrow> bool" where
  "all_exist v ns D \<longleftrightarrow> (\<forall>d \<in> set (map snd D). dataset_at v ns (in_name d) \<noteq> None)"

lemma resolved_keys [simp]: "map fst (resolved v ns D) = map fst D"
  by (simp add: resolved_def)

lemma map_of_resolved:
  "map_of (resolved v ns D) i =
     map_option (\<lambda>d. d\<lparr>in_resource := the (dataset_at v ns (in_name d))\<rparr>) (map_of D i)"
  by (induction D) (auto simp: resolved_def)

lemma names_inv_resolved: "names_inv (D, U) \<Longrightarrow> names_inv (resolved v ns D, U)"
  unfolding names_inv_def fst_conv snd_conv resolved_keys map_of_resolved map_option_eq_Some
  by (elim conjE, intro conjI allI impI) fastforce+

lemma known_uses_resolved:
  "(\<forall>d \<in> snd ` set (resolved v ns D). known_uses d) \<longleftrightarrow> (\<forall>d \<in> snd ` set D. known_uses d)"
  by (simp add: resolved_def known_uses_def)

context api_server
begin

lemma retrieve_found:
  "run_state (retrieve_loop api ns D) w = (Inr D', w') \<Longrightarrow>
   all_exist (view w) ns D \<and> D' = resolved (view w) ns D \<and> view w' = view w"
proof (induction D arbitrary: w D' w')
  case Nil
  then show ?case by (simp add: all_exist_def resolved_def)
next
  case (Cons p D)
  obtain i d where p: "p = (i, d)" by fastforce
  from Cons.prems obtain x w1 D1 where get: "run_state (api_Get api KDataset (ns, in_name d)) w = (Inr (ODataset x), w1)"
    and rest: "run_state (retrieve_loop api ns D) w1 = (Inr D1, w')"
    and D': "D' = (i, d\<lparr>in_resource := x\<rparr>) # D1"
    by (auto simp: p split: prod.splits sum.splits k8s_object.splits)
  have "dataset_at (view w) ns (in_name d) = Some x"
    using get_found [OF get] by (simp add: dataset_at_def key_of_def)
  then show ?case
    using Cons.IH [OF rest] get_view [OF get] D' by (auto simp: all_exist_def resolved_def p)
qed

lemma retrieve_view: "run_state (retrieve_loop api ns D) w = (r, w') \<Longrightarrow> view w' = view w"
proof (induction D arbitrary: w r w')
  case (Cons p D)
  obtain i d where p: "p = (i, d)" by fastforce
  obtain r1 w1 where get: "run_state (api_Get api KDataset (ns, in_name d)) w = (r1, w1)" by fastforce
  show ?case
    using Cons.prems get_view [OF get] Cons.IH [of w1]
    by (auto simp: p get split: sum.splits prod.splits k8s_object.splits)
qed simp

lemma Handle_patched:
  assumes "run_state (Handle api decode ord req) w = (Patched m ps, w')"
  obtains pod D where "ar_Operation req = ''CREATE''" "decode (ar_Object req) = Inr pod"
    "DatasetInputFromPod pod = Inr D" "all_exist (view w) (om_namespace (pod_meta pod)) D"
    "PatchPodWithDatasetLabels ord pod (resolved (view w) (om_namespace (pod_meta pod)) D) = Inr ps"
    "view w' = view w"
  using assms that
  by (auto simp: Handle_def RetrieveDatasetsFromAPIServer_def
      split: if_splits sum.splits prod.splits go_failure.splits dest!: retrieve_found)

lemma Handle_view: "run_state (Handle api decode ord req) w = (r, w') \<Longrightarrow> view w' = view w"
  by (auto simp: Handle_def RetrieveDatasetsFromAPIServer_def dest: retrieve_view
      split: if_splits sum.splits prod.splits)

end

context calm_api_server
begin

lemma retrieve_exists:
  "calm w \<Longrightarrow> all_exist (view w) ns D \<Longrightarrow> \<exists>w'. run_state (retrieve_loop api ns D) w = (Inr (resolved (view w) ns D), w')"
proof (induction D arbitrary: w)
  case Nil
  then show ?case by (simp add: resolved_def)
next
  case (Cons p D)
  obtain i d where p: "p = (i, d)" by fastforce
  from Cons.prems obtain x where x: "view w (key_of KDataset (ns, in_name d)) = Some (ODataset x)"
    "dataset_at (view w) ns (in_name d) = Some x"
    by (auto simp: all_exist_def p dataset_at_def key_of_def split: option.splits k8s_object.splits)
  from Cons.prems(1) show ?case
  proof (cases rule: calm_get_cases [where k = KDataset and n = "(ns, in_name d)"])
    case (2 y w1)
    then have "y = ODataset x" using x by simp
    moreover have "all_exist (view w1) ns D" using Cons.prems(2) 2 by (auto simp: all_exist_def)
    ultimately show ?thesis
      using 2 x Cons.IH [of w1] by (auto simp: p resolved_def)
  qed (use x in simp)
qed

end

section \<open>The datasets to mount\<close>

lemma filter_use: "distinct us \<Longrightarrow> filter (\<lambda>u. u = x) us = (if x \<in> set us then [x] else [])"
  by (induction us) (auto simp: filter_empty_conv)

lemma to_mount_filter:
  assumes "names_inv (D, U)"
  shows "to_mount pod D =
    filter (\<lambda>d. ''mount'' \<in> set (in_useasLabels d) \<and> in_name d \<notin> set (mounted_pvcs pod)) (in_order D)"
proof -
  have "distinct (in_useasLabels d)" if "d \<in> set (in_order D)" for d
    using assms that by (auto simp: names_inv_def in_order_def)
  then have uses: "mounts_of (mounted_pvcs pod) d (in_useasLabels d) =
      (if ''mount'' \<in> set (in_useasLabels d) \<and> in_name d \<notin> set (mounted_pvcs pod) then [d] else [])"
    if "d \<in> set (in_order D)" for d
    using that by (simp add: mounts_of_def filter_use)
  have "concat (map (\<lambda>d. if P d then [d] else []) xs) = filter P xs" for P and xs :: "DatasetInput list"
    by (induction xs) auto
  then show ?thesis using uses by (simp add: to_mount_def cong: map_cong)
qed

lemma distinct_names:
  assumes "names_inv (D, U)"
  shows "distinct (filter (\<lambda>n. n \<noteq> '''') (map in_name (in_order D)))"
proof -
  have "distinct (filter (\<lambda>n. n \<noteq> '''') (map in_name (map snd ps)))"
    if "distinct (map fst ps)" and "\<forall>p \<in> set ps. \<forall>q \<in> set ps. fst p \<noteq> fst q \<longrightarrow> in_name (snd p) \<noteq> '''' \<longrightarrow>
      in_name (snd p) \<noteq> in_name (snd q)" for ps :: inputs
    using that
  proof (induction ps)
    case (Cons p ps)
    have "in_name (snd p) \<notin> in_name ` snd ` set ps" if "in_name (snd p) \<noteq> ''''"
      using Cons.prems that by fastforce
    then show ?case using Cons by auto
  qed simp
  moreover have "distinct (map fst (sort_key fst D))"
    using assms by (simp add: names_inv_def distinct_map)
  ultimately show ?thesis
    using assms by (fastforce simp: in_order_def names_inv_def)
qed

section \<open>An example\<close>

definition example_pod :: Pod where
  "example_pod = \<lparr>pod_meta = ObjectMeta ''p'' ''ns'' [(''dataset.0.id'', ''a''), (''dataset.0.useas'', ''mount.configmap'')],
     pod_Volumes = [\<lparr>vol_Name = ''token'', vol_PVC = None\<rparr>], pod_InitContainers = [],
     pod_Containers = [\<lparr>ct_Name = ''c'', ct_Image = ''i'', ct_ImagePullPolicy = '''', ct_Command = [],
        ct_EnvFrom = [], ct_VolumeMounts = [\<lparr>vm_Name = ''token'', vm_MountPath = ''/t''\<rparr>]\<rparr>],
     pod_NodeName = ''''\<rparr>"

definition example_dataset :: Dataset where
  "example_dataset = \<lparr>ds_meta = ObjectMeta ''a'' ''ns'' [],
     ds_Spec = empty_spec\<lparr>sp_Local := Some [(''type'', ''COS''), (''readonly'', ''true'')]\<rparr>, ds_Status = empty_status\<rparr>"

definition example_world :: mem_world where
  "example_world = \<lparr>mw_store = [(KDataset, (''ns'', ''a'')) \<mapsto> ODataset example_dataset], mw_faults = [],
     mw_uuids = [], mw_pods = [], mw_events = []\<rparr>"

definition example_inputs :: inputs where
  "example_inputs = [(0, \<lparr>in_name = ''a'', in_index = 0, in_useasLabels = [''mount'', ''configmap''],
     in_resource = zero_dataset\<rparr>)]"

lemma example_read: "DatasetInputFromPod example_pod = Inr example_inputs"
  by (simp add: DatasetInputFromPod_def example_pod_def ObjectMeta_def process_label_def HasPrefix_def
    prefixLabels_def labelSeparator_def Let_def Atoi_def atoi_unsigned_def digit_value_def SetName_def
    NewDatasetInput_def mset_key_def TrimSpace_plain plain_def RequestedUseContains_def AddToRequestedUse_def
    example_inputs_def del: input_of_simps)

lemma example_exists: "all_exist (mem_view example_world) ''ns'' example_inputs"
  by (simp add: all_exist_def example_inputs_def dataset_at_def mem_view_def store_view_def example_world_def
    obj_key_def key_of_def stored_form_def example_dataset_def ObjectMeta_def)

lemma example_meta [simp]: "om_namespace (pod_meta example_pod) = ''ns''"
  "om_labels (pod_meta example_pod) = [(''dataset.0.id'', ''a''), (''dataset.0.useas'', ''mount.configmap'')]"
  by (simp_all add: example_pod_def ObjectMeta_def)

definition example_resolved :: inputs where
  "example_resolved = resolved (mem_view example_world) ''ns'' example_inputs"

lemma example_distinct: "distinct (map fst example_resolved)"
  by (simp add: example_resolved_def example_inputs_def)

lemma example_known: "\<forall>d \<in> snd ` set example_resolved. known_uses d"
  by (simp add: example_resolved_def resolved_def example_inputs_def known_uses_def)

lemma example_patch: "\<exists>p ps. PatchPodWithDatasetLabels (\<lambda>b i m. m) example_pod example_resolved = Inr (p # ps)"
  unfolding PatchPod_characterised [OF example_distinct]
  using example_known
  by (simp add: resolved_def example_inputs_def patch_spec_def to_mount_def in_order_def mounts_of_def
      mounted_pvcs_def List.map_filter_def example_pod_def mount_part_def volume_patches_def
      append_patches_Cons example_resolved_def)

lemma example_handled:
  "\<exists>m ps w'. run_state (Handle mem_api Inr (\<lambda>b i m. m) \<lparr>ar_Operation = ''CREATE'', ar_Object = example_pod\<rparr>)
     example_world = (Patched m ps, w')"
proof -
  have "mem_calm example_world" by (simp add: mem_calm_def example_world_def)
  from mem_calm.retrieve_exists [OF this example_exists] show ?thesis
    using example_patch
    by (auto simp: Handle_def example_read RetrieveDatasetsFromAPIServer_def example_resolved_def)
qed

lemma example_arrays: "has_arrays example_pod"
  by (simp add: has_arrays_def example_pod_def containers_of_def)

section \<open>Properties\<close>

text \<open>The pod the API server stores when it applies the patch.\<close>

definition mutated_doc ::
  "(bool \<Rightarrow> nat \<Rightarrow> (int, string) gomap \<Rightarrow> (int, string) gomap) \<Rightarrow> Pod \<Rightarrow> DatasetInput list \<Rightarrow> string list \<Rightarrow> json" where
  "mutated_doc ord pod xs names =
     pod_doc (map volume_json (pod_Volumes pod) @ map volume_value xs)
       (\<lambda>b. map (patched_ctr (ord b) xs names (containers_of pod b)) [0..<length (containers_of pod b)])"



text \<open>
  C2. On inputs with distinct indices the patch function returns, and never panics: it gives the
  described patch when every requested use is known and the error of an unknown use otherwise.
\<close>

theorem PatchPod_total:
  assumes "distinct (map fst datasets)"
  shows "PatchPodWithDatasetLabels ord pod datasets =
    (if \<forall>d \<in> snd ` set datasets. known_uses d then Inr (patch_spec ord pod datasets)
     else Inl (GoError ''encountered an unknown useas''))"
  by (rule PatchPod_characterised [OF assms])

theorem PatchPod_total_witness:
  "PatchPodWithDatasetLabels (\<lambda>b i m. m) example_pod example_resolved =
     Inr (patch_spec (\<lambda>b i m. m) example_pod example_resolved)"
  using PatchPod_total [OF example_distinct] example_known by simp







text \<open>
  The uses recorded for a label are its parts up to the first repeated one, so a repetition drops
  every later use: all the parts are recorded exactly when none is repeated.
\<close>

theorem useas_stops_at_repetition:
  "in_useasLabels (add_uses False us NewDatasetInput) = first_run [] (map TrimSpace us) \<and>
   (in_useasLabels (add_uses False us NewDatasetInput) = map TrimSpace us \<longleftrightarrow> distinct (map TrimSpace us)) \<and>
   in_useasLabels (add_uses False (Split ''mount.mount.configmap'' labelSeparator) NewDatasetInput) = [''mount'']"
proof -
  have "distinct (seen @ us) \<Longrightarrow> first_run seen us = us" for seen us
    by (induction us arbitrary: seen) auto
  then have "first_run [] vs = vs \<longleftrightarrow> distinct vs" for vs
    using first_run_distinct [of "[]" vs] by fastforce
  moreover have "in_useasLabels (add_uses False (Split ''mount.mount.configmap'' labelSeparator) NewDatasetInput) =
      [''mount'']"
    by (subst add_uses_labels) (simp add: labelSeparator_def TrimSpace_plain plain_def NewDatasetInput_def)
  ultimately show ?thesis by (simp add: add_uses_labels NewDatasetInput_def)
qed

text \<open>
  A pod without volumes cannot be mutated: if a dataset is to be mounted, the API server rejects
  the patch, because its first operation adds to an array that does not exist.
\<close>

theorem no_volumes_no_pod:
  assumes "distinct (map fst D)" and "\<forall>d \<in> snd ` set D. known_uses d"
    and "to_mount pod D \<noteq> []" and "pod_Volumes pod = []"
  shows "\<exists>ps. PatchPodWithDatasetLabels ord pod D = Inr ps \<and> apply_patch ps (json_of_pod pod) = None"
proof -
  obtain x xs where xs: "to_mount pod D = x # xs" using assms(3) by (cases "to_mount pod D") auto
  have "json_add [''spec'', ''volumes'', Itoa (int 0)] v (pod_doc [] cs) = None" for v cs
    by (cases "cs True = []"; cases "cs False = []") (simp_all add: pod_doc_def)
  then have "apply_patch (patch_spec ord pod D) (json_of_pod pod) = None"
    by (simp add: patch_spec_def mount_part_def xs volume_patches_def append_patches_Cons assms(4) json_of_pod_def
        flip: of_nat_0 [where 'a = int] del: of_nat_0)
  then show ?thesis using assms(2) by (simp add: PatchPod_characterised [OF assms(1)])
qed

theorem no_volumes_no_pod_witness:
  "\<exists>ps. PatchPodWithDatasetLabels (\<lambda>b i m. m) (example_pod\<lparr>pod_Volumes := []\<rparr>) example_resolved = Inr ps \<and>
     apply_patch ps (json_of_pod (example_pod\<lparr>pod_Volumes := []\<rparr>)) = None"
proof -
  have "to_mount (example_pod\<lparr>pod_Volumes := []\<rparr>) example_resolved \<noteq> []"
    by (simp add: to_mount_def in_order_def example_resolved_def resolved_def example_inputs_def mounts_of_def
        mounted_pvcs_def List.map_filter_def)
  then show ?thesis by (rule no_volumes_no_pod [OF example_distinct example_known]) simp
qed



text \<open>
  The webhook admits a pod in a calm cluster: when the labels are read, every dataset exists and
  every requested use is known, the answer is the described patch, or no patch if it is empty.
\<close>

theorem Handle_accepts:
  assumes "calm_api_server api view calm" and "calm w" and "ar_Operation req = ''CREATE''"
    and "decode (ar_Object req) = Inr pod" and "DatasetInputFromPod pod = Inr D"
    and "all_exist (view w) (om_namespace (pod_meta pod)) D" and "\<forall>d \<in> snd ` set D. known_uses d"
    and "ps = patch_spec ord pod (resolved (view w) (om_namespace (pod_meta pod)) D)"
  shows "fst (run_state (Handle api decode ord req) w) =
    (if ps = [] then Allowed (''Pod '' @ om_namespace (pod_meta pod) @ ''/'' @ om_name (pod_meta pod) @
                              '' does not need to be mutated - skipping'' @ [CHR 0x0A])
     else Patched ''added volumes to Pod in response to dataset'' ps)"
proof -
  have "distinct (map fst (resolved (view w) (om_namespace (pod_meta pod)) D))"
    using DatasetInputFromPod_names [OF assms(5)] by (auto simp: names_inv_def)
  from PatchPod_characterised [OF this, of ord pod] calm_api_server.retrieve_exists [OF assms(1,2,6)]
  show ?thesis
    using assms(3-5,7,8) known_uses_resolved [of "view w" "om_namespace (pod_meta pod)" D]
    by (auto simp: Handle_def RetrieveDatasetsFromAPIServer_def)
qed

theorem Handle_accepts_witness:
  "\<exists>m ps. fst (run_state (Handle mem_api Inr (\<lambda>b i m. m)
      \<lparr>ar_Operation = ''CREATE'', ar_Object = example_pod\<rparr>) example_world) = Patched m ps"
proof -
  have calm: "mem_calm example_world" by (simp add: mem_calm_def example_world_def)
  have known: "\<forall>d \<in> snd ` set example_inputs. known_uses d"
    using example_known known_uses_resolved by (simp add: example_resolved_def)
  have "patch_spec (\<lambda>b i m. m) example_pod example_resolved \<noteq> []"
    using example_patch PatchPod_characterised [OF example_distinct] example_known by auto
  then show ?thesis
    using Handle_accepts [OF mem_calm.calm_api_server_axioms calm, of
        "\<lparr>ar_Operation = ''CREATE'', ar_Object = example_pod\<rparr>" Inr example_pod example_inputs _ "\<lambda>b i m. m"]
      example_read example_exists known
    by (simp add: example_resolved_def)
qed

end
