(* ===== verification/Test_Helpers.thy ===== *)
theory Test_Helpers
  imports Pod_Mutator
begin

text \<open>
  The builders of test objects, \<open>testing/wrapper.go\<close>, and the table of the webhook's own tests, on which its model is
  run.  A wrapper is the object it holds, so that \<open>Obj\<close> is the identity but for patches.  The kinds of objects, the
  read-only flag of volume mounts and the optional flag of secret references are not part of the records here.
\<close>

section \<open>Objects\<close>

definition MakePVC :: "string \<Rightarrow> string \<Rightarrow> PersistentVolumeClaim" where
  "MakePVC name namespace =
     \<lparr>pvc_meta = ObjectMeta name namespace [], pvc_accessModes = [], pvc_volumeName = '''', pvc_storageClassName = None,
      pvc_requests = [], pvc_limits = [], pvc_selector = None, pvc_phase = ClaimUnset\<rparr>"

definition MakeSecret :: "string \<Rightarrow> string \<Rightarrow> Secret" where
  "MakeSecret name namespace = \<lparr>sec_meta = ObjectMeta name namespace [], sec_Data = [], sec_StringData = []\<rparr>"

definition MakeDataset :: "string \<Rightarrow> string \<Rightarrow> Dataset" where
  "MakeDataset name namespace = \<lparr>ds_meta = ObjectMeta name namespace [], ds_Spec = empty_spec, ds_Status = empty_status\<rparr>"

definition s3_local :: "string \<Rightarrow> string \<Rightarrow> string \<Rightarrow> bool \<Rightarrow> DatasetSpec" where
  "s3_local bucket endpoint secret readonly =
     empty_spec\<lparr>sp_Local := Some [(''type'', ''COS''), (''bucket'', bucket), (''endpoint'', endpoint),
       (''secret-name'', secret), (''readonly'', FormatBool readonly)]\<rparr>"

definition ToS3Dataset :: "string \<Rightarrow> string \<Rightarrow> string \<Rightarrow> bool \<Rightarrow> Dataset \<Rightarrow> Dataset" where
  "ToS3Dataset bucket endpoint secret readonly d = d\<lparr>ds_Spec := s3_local bucket endpoint secret readonly\<rparr>"

definition MakeDatasetInternal :: "string \<Rightarrow> string \<Rightarrow> DatasetInternal" where
  "MakeDatasetInternal name namespace =
     \<lparr>di_meta = ObjectMeta name namespace [], di_Spec = empty_spec, di_Placements = empty_placement\<rparr>"

definition InternalFromDataset :: "Dataset \<Rightarrow> DatasetInternal" where
  "InternalFromDataset d =
     (MakeDatasetInternal (om_name (ds_meta d)) (om_namespace (ds_meta d)))\<lparr>di_Spec := ds_Spec d\<rparr>"

definition ToS3DatasetInternal :: "string \<Rightarrow> string \<Rightarrow> string \<Rightarrow> bool \<Rightarrow> DatasetInternal \<Rightarrow> DatasetInternal" where
  "ToS3DatasetInternal bucket endpoint secret readonly di = di\<lparr>di_Spec := s3_local bucket endpoint secret readonly\<rparr>"

section \<open>Pods\<close>

definition MakeContainer :: "string \<Rightarrow> Container" where
  "MakeContainer name = \<lparr>ct_Name = name, ct_Image = '''', ct_ImagePullPolicy = '''', ct_Command = [], ct_EnvFrom = [],
     ct_VolumeMounts = []\<rparr>"

definition AddVolumeMount :: "string \<Rightarrow> string \<Rightarrow> Container \<Rightarrow> Container" where
  "AddVolumeMount mountPath name c =
     c\<lparr>ct_VolumeMounts := ct_VolumeMounts c @ [\<lparr>vm_Name = name, vm_MountPath = mountPath\<rparr>]\<rparr>"

definition AddEnvFromConfigToContainer :: "string \<Rightarrow> Container \<Rightarrow> Container" where
  "AddEnvFromConfigToContainer source c =
     c\<lparr>ct_EnvFrom := ct_EnvFrom c @ [\<lparr>ef_Prefix = source @ ''_'', ef_ConfigMapRef = Some source, ef_SecretRef = None\<rparr>]\<rparr>"

definition AddEnvFromSecretToContainer :: "string \<Rightarrow> Container \<Rightarrow> Container" where
  "AddEnvFromSecretToContainer source c =
     c\<lparr>ct_EnvFrom := ct_EnvFrom c @ [\<lparr>ef_Prefix = source @ ''_'', ef_ConfigMapRef = None, ef_SecretRef = Some source\<rparr>]\<rparr>"

definition MakePod :: "string \<Rightarrow> string \<Rightarrow> Pod" where
  "MakePod name ns = \<lparr>pod_meta = ObjectMeta name ns [], pod_Volumes = [], pod_InitContainers = [], pod_Containers = [],
     pod_NodeName = ''''\<rparr>"

definition PodLabels :: "smap \<Rightarrow> Pod \<Rightarrow> Pod" where
  "PodLabels labels p = p\<lparr>pod_meta := (pod_meta p)\<lparr>om_labels := labels\<rparr>\<rparr>"

text \<open>A label that is there stays as it is.\<close>

definition AddLabelToPodMetadata :: "string \<Rightarrow> string \<Rightarrow> Pod \<Rightarrow> Pod" where
  "AddLabelToPodMetadata key value p =
     (if mhas (om_labels (pod_meta p)) key then p
      else p\<lparr>pod_meta := (pod_meta p)\<lparr>om_labels := mset_key key value (om_labels (pod_meta p))\<rparr>\<rparr>)"

definition AddContainerToPod :: "Container \<Rightarrow> Pod \<Rightarrow> Pod" where
  "AddContainerToPod container p = p\<lparr>pod_Containers := pod_Containers p @ [container]\<rparr>"

definition AddVolumeToPod :: "string \<Rightarrow> Pod \<Rightarrow> Pod" where
  "AddVolumeToPod volume p = p\<lparr>pod_Volumes := pod_Volumes p @ [\<lparr>vol_Name = volume, vol_PVC = Some volume\<rparr>]\<rparr>"

section \<open>Patches\<close>

text \<open>The value of a patch being built is nil at first.\<close>

record patch_builder =
  pb_Operation :: string
  pb_Path :: string
  pb_Value :: "json option"

definition MakeJSONPatchOperation :: patch_builder where
  "MakeJSONPatchOperation = \<lparr>pb_Operation = '''', pb_Path = '''', pb_Value = None\<rparr>"

definition SetOperation :: "string \<Rightarrow> patch_builder \<Rightarrow> patch_builder" where
  "SetOperation operation j = j\<lparr>pb_Operation := operation\<rparr>"

definition SetVolumeasPath :: "int \<Rightarrow> patch_builder \<Rightarrow> patch_builder" where
  "SetVolumeasPath id' j = j\<lparr>pb_Path := ''/spec/volumes/'' @ Itoa id'\<rparr>"

definition SetVolumeMountasPath :: "string \<Rightarrow> int \<Rightarrow> int \<Rightarrow> patch_builder \<Rightarrow> patch_builder" where
  "SetVolumeMountasPath cont_typ cont_idx mount_idx j =
     j\<lparr>pb_Path := ''/spec/'' @ cont_typ @ ''/'' @ Itoa cont_idx @ ''/volumeMounts/'' @ Itoa mount_idx\<rparr>"

definition SetPVCasValue :: "string \<Rightarrow> patch_builder \<Rightarrow> patch_builder" where
  "SetPVCasValue pvc j = j\<lparr>pb_Value := Some (JObject [(''name'', JString pvc),
     (''persistentVolumeClaim'', JObject [(''claimName'', JString pvc)])])\<rparr>"

definition SetVolumeMountasValue :: "string \<Rightarrow> patch_builder \<Rightarrow> patch_builder" where
  "SetVolumeMountasValue dataset j = j\<lparr>pb_Value := Some (JObject [(''name'', JString dataset),
     (''mountPath'', JString (''/mnt/datasets/'' @ dataset))])\<rparr>"

definition SetNewConfigMapRefasPath :: "string \<Rightarrow> int \<Rightarrow> patch_builder \<Rightarrow> patch_builder" where
  "SetNewConfigMapRefasPath cont_typ cont_idx j =
     j\<lparr>pb_Path := ''/spec/'' @ cont_typ @ ''/'' @ Itoa cont_idx @ ''/envFrom''\<rparr>"

definition AddToConfigMapRefasPath :: "string \<Rightarrow> int \<Rightarrow> patch_builder \<Rightarrow> patch_builder" where
  "AddToConfigMapRefasPath cont_typ cont_idx j =
     j\<lparr>pb_Path := ''/spec/'' @ cont_typ @ ''/'' @ Itoa cont_idx @ ''/envFrom-''\<rparr>"

text \<open>The type switch: nil becomes the list, a list is appended to, another value stays.\<close>

definition append_refs :: "json list \<Rightarrow> patch_builder \<Rightarrow> patch_builder" where
  "append_refs ref j =
     (case pb_Value j of
        None \<Rightarrow> j\<lparr>pb_Value := Some (JArray ref)\<rparr>
      | Some (JArray x) \<Rightarrow> j\<lparr>pb_Value := Some (JArray (x @ ref))\<rparr>
      | Some _ \<Rightarrow> j)"

definition AddConfigMapRefsToValue :: "string list \<Rightarrow> patch_builder \<Rightarrow> patch_builder" where
  "AddConfigMapRefsToValue configmap_names =
     append_refs (map (\<lambda>c. JObject [(''prefix'', JString (c @ ''_'')), (''configMapRef'', JObject [(''name'', JString c)])])
       configmap_names)"

definition AddSecretRefsToValue :: "string list \<Rightarrow> patch_builder \<Rightarrow> patch_builder" where
  "AddSecretRefsToValue secret_names =
     append_refs (map (\<lambda>s. JObject [(''prefix'', JString (s @ ''_'')), (''secretRef'', JObject [(''name'', JString s)])])
       secret_names)"

definition builds :: "patch_builder \<Rightarrow> JsonPatchOperation \<Rightarrow> bool" where
  "builds j p \<longleftrightarrow> pb_Operation j = op_Operation p \<and> pb_Path j = op_Path p \<and> pb_Value j = Some (op_Value p)"

section \<open>Admission requests and responses\<close>

record 'raw request_builder = "'raw admission_request" +
  rb_Name :: string
  rb_Namespace :: string

definition MakeAdmissionRequest :: "'raw \<Rightarrow> 'raw request_builder" where
  "MakeAdmissionRequest obj = \<lparr>ar_Operation = '''', ar_Object = obj, rb_Name = '''', rb_Namespace = ''''\<rparr>"

definition request_SetName :: "string \<Rightarrow> 'raw request_builder \<Rightarrow> 'raw request_builder" where
  "request_SetName name r = r\<lparr>rb_Name := name\<rparr>"

definition request_SetNamespace :: "string \<Rightarrow> 'raw request_builder \<Rightarrow> 'raw request_builder" where
  "request_SetNamespace namespace r = r\<lparr>rb_Namespace := namespace\<rparr>"

definition request_SetOperation :: "string \<Rightarrow> 'raw request_builder \<Rightarrow> 'raw request_builder" where
  "request_SetOperation op r = r\<lparr>ar_Operation := op\<rparr>"

definition request_SetObject :: "'raw \<Rightarrow> 'raw request_builder \<Rightarrow> 'raw request_builder" where
  "request_SetObject obj r = r\<lparr>ar_Object := obj\<rparr>"

definition request_Obj :: "'raw request_builder \<Rightarrow> 'raw admission_request" where
  "request_Obj r = \<lparr>ar_Operation = ar_Operation r, ar_Object = ar_Object r\<rparr>"

record 'a response_builder =
  rs_Patches :: "patch_builder list option"
  rs_Response :: 'a

definition MakeAdmissionResponse :: "'a \<Rightarrow> 'a response_builder" where
  "MakeAdmissionResponse resp = \<lparr>rs_Patches = None, rs_Response = resp\<rparr>"

definition AddPatches :: "patch_builder \<Rightarrow> 'a response_builder \<Rightarrow> 'a response_builder" where
  "AddPatches patch rs = rs\<lparr>rs_Patches := Some ((case rs_Patches rs of None \<Rightarrow> [] | Some ps \<Rightarrow> ps) @ [patch])\<rparr>"

definition SetAdmissionResponse :: "'a \<Rightarrow> 'a response_builder \<Rightarrow> 'a response_builder" where
  "SetAdmissionResponse resp rs = rs\<lparr>rs_Response := resp\<rparr>"

section \<open>The tests of the webhook\<close>

text \<open>
  The entries of the table of \<open>admissioncontroller/mutatingwebhook_test.go\<close>: a pod, and the patch that is expected.
\<close>

definition dataset_label :: "string \<Rightarrow> string \<Rightarrow> string \<Rightarrow> Pod \<Rightarrow> Pod" where
  "dataset_label i name useas p =
     AddLabelToPodMetadata (''dataset.'' @ i @ ''.useas'') useas (AddLabelToPodMetadata (''dataset.'' @ i @ ''.id'') name p)"

definition expect_volume :: "int \<Rightarrow> string \<Rightarrow> patch_builder" where
  "expect_volume i pvc = SetPVCasValue pvc (SetVolumeasPath i (SetOperation ''add'' MakeJSONPatchOperation))"

definition expect_mount :: "int \<Rightarrow> int \<Rightarrow> string \<Rightarrow> patch_builder" where
  "expect_mount c i dataset =
     SetVolumeMountasValue dataset (SetVolumeMountasPath ''containers'' c i (SetOperation ''add'' MakeJSONPatchOperation))"

definition expect_refs :: "int \<Rightarrow> string list \<Rightarrow> patch_builder" where
  "expect_refs c names = AddSecretRefsToValue names (AddConfigMapRefsToValue names
     (SetNewConfigMapRefasPath ''containers'' c (SetOperation ''add'' MakeJSONPatchOperation)))"

definition test_pod :: Pod where "test_pod = MakePod ''test-1'' ''test''"

definition test_container :: Container where "test_container = MakeContainer ''foo''"

definition test_table :: "(Pod \<times> patch_builder list) list" where
  "test_table =
     [(AddContainerToPod test_container (dataset_label ''0'' ''testds'' ''mount'' test_pod),
       [expect_volume 0 ''testds'', expect_mount 0 0 ''testds'']),
      (AddContainerToPod test_container (dataset_label ''0'' ''testds0'' ''configmap'' test_pod), [expect_refs 0 [''testds0'']]),
      (AddContainerToPod test_container (dataset_label ''1'' ''testds1'' ''mount'' (dataset_label ''0'' ''testds0'' ''mount'' test_pod)),
       [expect_volume 0 ''testds0'', expect_volume 1 ''testds1'', expect_mount 0 0 ''testds0'', expect_mount 0 1 ''testds1'']),
      (AddContainerToPod test_container (dataset_label ''1'' ''testds1'' ''configmap'' (dataset_label ''0'' ''testds0'' ''mount'' test_pod)),
       [expect_volume 0 ''testds0'', expect_mount 0 0 ''testds0'', expect_refs 0 [''testds1'']]),
      (AddContainerToPod (AddVolumeMount ''/mnt/datasets/testds'' ''testv'' test_container)
         (AddVolumeToPod ''testds'' (dataset_label ''0'' ''testds0'' ''mount'' test_pod)),
       [expect_volume 1 ''testds0'', expect_mount 0 1 ''testds0'']),
      (AddContainerToPod (AddVolumeMount ''/mnt/datasets/testds'' ''testds'' test_container)
         (AddVolumeToPod ''testds'' (dataset_label ''0'' ''testds'' ''mount'' test_pod)), []),
      (AddContainerToPod (AddVolumeMount ''/mount/testds'' ''testds'' test_container) (dataset_label ''0'' ''testds'' ''mount'' test_pod),
       [expect_volume 0 ''testds'']),
      (AddContainerToPod (AddVolumeMount ''/mnt/datasets/testds'' ''testv'' test_container)
         (AddVolumeToPod ''testds'' (dataset_label ''0'' ''testds0'' ''configmap'' test_pod)), [expect_refs 0 [''testds0'']]),
      (AddContainerToPod test_container (dataset_label ''0'' ''testds'' ''mount.configmap'' test_pod),
       [expect_volume 0 ''testds'', expect_mount 0 0 ''testds'', expect_refs 0 [''testds'']]),
      (AddContainerToPod (AddEnvFromConfigToContainer ''testds'' test_container) (dataset_label ''0'' ''testds'' ''configmap'' test_pod), []),
      (AddContainerToPod (AddEnvFromSecretToContainer ''testds'' test_container) (dataset_label ''0'' ''testds'' ''configmap'' test_pod), []),
      (AddContainerToPod (AddVolumeMount ''/mnt/volumes/'' ''testds'' test_container)
         (AddVolumeToPod ''testds'' (dataset_label ''0'' ''testds'' ''mount'' test_pod)), [])]"

definition passes :: "Pod \<times> patch_builder list \<Rightarrow> bool" where
  "passes t = (case t of (pod, expected) \<Rightarrow>
     (case DatasetInputFromPod pod of
        Inl _ \<Rightarrow> False
      | Inr datasets \<Rightarrow>
          (case PatchPodWithDatasetLabels (\<lambda>_ _ m. m) pod datasets of
             Inl _ \<Rightarrow> False
           | Inr patches \<Rightarrow> list_all2 builds expected patches)))"

text \<open>The model of the webhook passes every test of the table, and lets deletions through.\<close>

lemmas builder_defs = MakePod_def MakeContainer_def AddVolumeMount_def AddEnvFromConfigToContainer_def
  AddEnvFromSecretToContainer_def AddLabelToPodMetadata_def AddContainerToPod_def AddVolumeToPod_def
  MakeJSONPatchOperation_def SetOperation_def SetVolumeasPath_def SetVolumeMountasPath_def SetPVCasValue_def
  SetVolumeMountasValue_def SetNewConfigMapRefasPath_def AddConfigMapRefsToValue_def AddSecretRefsToValue_def
  append_refs_def builds_def dataset_label_def expect_volume_def expect_mount_def expect_refs_def test_pod_def test_container_def
  ObjectMeta_def mhas_def mset_key_def

lemmas reading_defs = DatasetInputFromPod_def process_label_def HasPrefix_def prefixLabels_def labelSeparator_def Let_def
  Atoi_def atoi_unsigned_def digit_value_def SetName_def NewDatasetInput_def TrimSpace_plain plain_def
  RequestedUseContains_def AddToRequestedUse_def

lemmas patching_defs = PatchPodWithDatasetLabels_def patchPodSpecWithDatasetPVCs_def patchContainersWithDatasetVolumes_def
  patchContainersWithDatasetMaps_def mounted_pvcs_def add_op_def volume_value_def mount_path_def mount_value_def
  env_path_def configmap_ref_def secret_ref_def env_refers_def in_array_def zero_dataset_def empty_spec_def

theorem webhook_passes_tests: "list_all passes test_table"
  by (simp add: test_table_def passes_def builder_defs reading_defs patching_defs)

theorem webhook_passes_deletions:
  "Handle api decode ord (request_Obj (request_SetOperation ''DELETE'' (request_SetNamespace ''test''
       (request_SetName ''test'' (MakeAdmissionRequest obj))))) =
     State_Monad.return (Allowed ''No Pod mutation required for operation DELETE.'')"
  by (simp add: Handle_def request_Obj_def request_SetOperation_def)

text \<open>
  The helper for references added to an existing \<open>envFrom\<close> lacks the slash before the dash, and so never builds the path
  that the webhook uses; no test calls it.
\<close>

theorem helper_path_differs: "pb_Path (AddToConfigMapRefasPath typ (int i) j) \<noteq> env_path typ i @ ''/-''"
  by (simp add: AddToConfigMapRefasPath_def env_path_def)

end
