(* ===== verification/Metastore.thy ===== *)
theory Metastore
  imports K8s_Api
begin

text \<open>
  \<open>controllers/metastore_client.go\<close>: the lookup of a table's object-storage locations in a Hive
  metastore.  The metastore client is a third-party package and its server a service: the record
  \<open>'w metastore\<close> holds its calls, with host and port of the opened connection as arguments, and
  \<open>parse_url\<close> stands for \<open>url.Parse\<close>, of which scheme, host and path are used.  Errors of the client
  are opaque (\<open>None\<close>).  That the client does not touch the cluster is the locale \<open>catalog\<close>.
\<close>

section \<open>The client\<close>

record url =
  url_Scheme :: string
  url_Host :: string
  url_Path :: string

text \<open>
  \<open>GetTable\<close> gives the location of the table's storage descriptor; \<open>Some None\<close> is a nil table without an
  error.  \<open>GetPartitionsByNames\<close> gives the locations of the partitions.
\<close>

record 'w metastore =
  hms_Open :: "string \<Rightarrow> int \<Rightarrow> ('w, bool) state"
  hms_GetTable :: "string \<Rightarrow> int \<Rightarrow> string \<Rightarrow> string \<Rightarrow> ('w, string option option) state"
  hms_GetPartitionNames :: "string \<Rightarrow> int \<Rightarrow> string \<Rightarrow> string \<Rightarrow> int \<Rightarrow> ('w, string list option) state"
  hms_GetPartitionsByNames ::
    "string \<Rightarrow> int \<Rightarrow> string \<Rightarrow> string \<Rightarrow> string list \<Rightarrow> ('w, string list option) state"

section \<open>Parsing\<close>

definition parseCatalogUri :: "string \<Rightarrow> api_error + string \<times> int" where
  "parseCatalogUri catalogUri =
     (let catHostPort = Split catalogUri (CHR '':'') in
      if length catHostPort = 1 then Inr (catHostPort ! 0, 9083)
      else if length catHostPort = 2 then Inr (catHostPort ! 0, fst (Atoi (catHostPort ! 1)))
      else Inl (InternalError ''CatalogURI cannot be parsed.. quitting''))"

definition parse_table :: "string \<Rightarrow> api_error + string \<times> string" where
  "parse_table table =
     (let catDBTable = Split table (CHR ''/'') in
      if length catDBTable = 1 then Inr (''default'', catDBTable ! 0)
      else if length catDBTable = 2 then Inr (catDBTable ! 0, catDBTable ! 1)
      else Inl (BadRequest ''Table name is in incorrect format ''))"

definition getBucketFromS3Uri :: "url \<Rightarrow> string" where
  "getBucketFromS3Uri loc =
     (let bucket = Join [url_Host loc, url_Path loc] in
      if HasSuffix bucket ''/'' then TrimRight bucket (CHR ''/'') else bucket)"

text \<open>The location of a table or partition, as the buckets it adds to \<open>locations\<close>.\<close>

definition location_buckets :: "(string \<Rightarrow> url option) \<Rightarrow> string \<Rightarrow> string list" where
  "location_buckets parse_url location =
     (case parse_url location of
        None \<Rightarrow> []
      | Some loc \<Rightarrow> if HasPrefix (url_Scheme loc) ''s3'' then [getBucketFromS3Uri loc] else [])"

section \<open>The lookup\<close>

text \<open>The partitions of a table, or the table itself when it is not partitioned.  The second
  \<open>GetTable\<close> ignores its error; the getters of the client give the empty location for a nil table.\<close>

definition catalog_locations ::
  "'w metastore \<Rightarrow> (string \<Rightarrow> url option) \<Rightarrow> string \<Rightarrow> int \<Rightarrow> string \<Rightarrow> string \<Rightarrow> string list \<Rightarrow>
   ('w, api_error + string list) state" where
  "catalog_locations hms parse_url catHost catPort dbName tableName tblPartNames =
     (if length tblPartNames = 0 then do {
        table \<leftarrow> hms_GetTable hms catHost catPort dbName tableName;
        State_Monad.return (Inr (location_buckets parse_url
          (case table of Some (Some location) \<Rightarrow> location | _ \<Rightarrow> '''')))
      } else do {
        tablePartitions \<leftarrow> hms_GetPartitionsByNames hms catHost catPort dbName tableName tblPartNames;
        State_Monad.return
          (case tablePartitions of
             None \<Rightarrow> Inl (BadRequest ''Could not look up Partition info'')
           | Some parts \<Rightarrow> Inr (concat (map (location_buckets parse_url) parts)))
      })"

definition processCatalogEntry ::
  "'w metastore \<Rightarrow> (string \<Rightarrow> url option) \<Rightarrow> string \<Rightarrow> int \<Rightarrow> string \<Rightarrow>
   ('w, api_error + string list) state" where
  "processCatalogEntry hms parse_url catHost catPort table = do {
     opened \<leftarrow> hms_Open hms catHost catPort;
     if \<not> opened then
       State_Monad.return (Inl (InternalError (''Cannot connect to the metastore : '' @ catHost)))
     else case parse_table table of
       Inl e \<Rightarrow> State_Monad.return (Inl e)
     | Inr (dbName, tableName) \<Rightarrow> do {
         hiveTbl \<leftarrow> hms_GetTable hms catHost catPort dbName tableName;
         case hiveTbl of
           Some (Some _) \<Rightarrow> do {
             tblPartNames \<leftarrow> hms_GetPartitionNames hms catHost catPort dbName tableName 256;
             case tblPartNames of
               None \<Rightarrow> State_Monad.return (Inl (InternalError ''Table partitions could not be retrieved''))
             | Some names \<Rightarrow> catalog_locations hms parse_url catHost catPort dbName tableName names
           }
         | _ \<Rightarrow> State_Monad.return (Inl (BadRequest ''Table could not be found in the catalog''))
       }
   }"

section \<open>The contract\<close>

locale catalog = api_server api view
  for api :: "'w cluster_api" and view :: "'w \<Rightarrow> cluster" +
  fixes hms :: "'w metastore"
  assumes open_view: "run_state (hms_Open hms h p) w = (b, w') \<Longrightarrow> view w' = view w"
    and table_view: "run_state (hms_GetTable hms h p d t) w = (r, w') \<Longrightarrow> view w' = view w"
    and names_view: "run_state (hms_GetPartitionNames hms h p d t n) w = (ns, w') \<Longrightarrow> view w' = view w"
    and partitions_view: "run_state (hms_GetPartitionsByNames hms h p d t l) w = (ps, w') \<Longrightarrow> view w' = view w"
begin

lemma frame_open [frame_intros]: "state_io_rel (off K) (hms_Open hms h p)"
  by (rule state_io_relI) (auto simp: off_def dest: open_view)

lemma frame_table [frame_intros]: "state_io_rel (off K) (hms_GetTable hms h p d t)"
  by (rule state_io_relI) (auto simp: off_def dest: table_view)

lemma frame_names [frame_intros]: "state_io_rel (off K) (hms_GetPartitionNames hms h p d t n)"
  by (rule state_io_relI) (auto simp: off_def dest: names_view)

lemma frame_partitions [frame_intros]: "state_io_rel (off K) (hms_GetPartitionsByNames hms h p d t l)"
  by (rule state_io_relI) (auto simp: off_def dest: partitions_view)

lemma frame_locations [frame_intros]:
  "state_io_rel (off K) (catalog_locations hms parse_url h p d t ns)"
  unfolding catalog_locations_def
  by (intro frame_intros off_reflp off_transp)

lemma frame_catalog_entry [frame_intros]:
  "state_io_rel (off K) (processCatalogEntry hms parse_url h p t)"
  unfolding processCatalogEntry_def
  by (intro frame_intros off_reflp off_transp)

end

text \<open>A metastore that holds fixed tables: per database and table its location and partitions.\<close>

definition table_metastore ::
  "(string \<times> string \<Rightarrow> (string \<times> (string \<times> string) list) option) \<Rightarrow> 'w metastore" where
  "table_metastore tables =
     \<lparr>hms_Open = (\<lambda>h p. State_Monad.return (h \<noteq> '''')),
      hms_GetTable = (\<lambda>h p d t. State_Monad.return
        (case tables (d, t) of None \<Rightarrow> None | Some (l, _) \<Rightarrow> Some (Some l))),
      hms_GetPartitionNames = (\<lambda>h p d t n. State_Monad.return
        (case tables (d, t) of None \<Rightarrow> None | Some (_, ps) \<Rightarrow> Some (take (nat n) (map fst ps)))),
      hms_GetPartitionsByNames = (\<lambda>h p d t ns. State_Monad.return
        (case tables (d, t) of None \<Rightarrow> None
         | Some (_, ps) \<Rightarrow> Some (map snd (filter (\<lambda>q. fst q \<in> set ns) ps))))\<rparr>"

interpretation mem_catalog: catalog mem_api mem_view "table_metastore tables"
  by unfold_locales (auto simp: table_metastore_def)

section \<open>Lemmas\<close>

lemma parseCatalogUri_no_port:
  "CHR '':'' \<notin> set h \<Longrightarrow> parseCatalogUri h = Inr (h, 9083)"
  by (simp add: parseCatalogUri_def Split_no_sep)

lemma parseCatalogUri_port:
  assumes "CHR '':'' \<notin> set h" and "int p \<le> max_int64"
  shows "parseCatalogUri (h @ CHR '':'' # Itoa (int p)) = Inr (h, int p)"
proof -
  have "CHR '':'' \<notin> set (Itoa (int p))"
    using nat_digits_digit [of "CHR '':''" p] by (auto simp: Itoa_def)
  then show ?thesis
    using assms by (simp add: parseCatalogUri_def Split_append Split_no_sep Atoi_Itoa_nat)
qed

lemma bucket_no_slash: "getBucketFromS3Uri loc = [] \<or> last (getBucketFromS3Uri loc) \<noteq> CHR ''/''"
proof -
  have "HasSuffix s [c] \<longleftrightarrow> s \<noteq> [] \<and> last s = c" for s c
  proof -
    have "HasSuffix s [c] \<longleftrightarrow> (\<exists>t. s = rev t @ [c])"
      by (auto simp: HasSuffix_def HasPrefix_iff simp flip: rev_swap)
    also have "\<dots> \<longleftrightarrow> s \<noteq> [] \<and> last s = c"
      by (auto intro!: exI [of _ "rev (butlast s)"])
    finally show ?thesis .
  qed
  then show ?thesis
    using TrimRight_no_suffix by (auto simp: getBucketFromS3Uri_def Let_def)
qed

section \<open>Properties\<close>

text \<open>
  C33. A catalog URI without a port gets the standard port of the Hive metastore, and reading back a printed
  host and port (up to the largest machine integer) gives the same host and port; more than one colon is an error.
\<close>

theorem catalog_uri_roundtrip:
  assumes "CHR '':'' \<notin> set h" and "CHR '':'' \<notin> set q" and "int p \<le> max_int64"
  shows "parseCatalogUri h = Inr (h, 9083) \<and> parseCatalogUri (h @ CHR '':'' # Itoa (int p)) = Inr (h, int p) \<and>
    (\<exists>e. parseCatalogUri (h @ CHR '':'' # q @ CHR '':'' # r) = Inl e)"
proof -
  have "length (Split (h @ CHR '':'' # q @ CHR '':'' # r) (CHR '':'')) = Suc (Suc (length (Split r (CHR '':''))))"
    using assms(1,2) by (simp add: Split_append)
  moreover have "length (Split r (CHR '':'')) > 0" by simp
  ultimately have "length (Split (h @ CHR '':'' # q @ CHR '':'' # r) (CHR '':'')) > 2" by linarith
  then show ?thesis using parseCatalogUri_no_port [OF assms(1)] parseCatalogUri_port [OF assms(1,3)]
    by (simp add: parseCatalogUri_def [of "h @ CHR '':'' # q @ CHR '':'' # r"] Let_def)
qed

theorem catalog_uri_roundtrip_witness:
  "parseCatalogUri ''hive'' = Inr (''hive'', 9083) \<and> parseCatalogUri (''hive'' @ CHR '':'' # Itoa (int 9999)) = Inr (''hive'', 9999)"
  using catalog_uri_roundtrip [of "''hive''" "''x''" 9999] by simp

text \<open>
  The lookup lists the s3 buckets of the locations of all partitions in order, or of the table itself when it
  has none; every bucket comes without a trailing slash.  (On a metastore with fixed tables, up to the limit of
  256 partitions.)
\<close>

theorem lookup_lists_buckets:
  assumes "h \<noteq> ''''" and "parse_table t = Inr (db, tbl)" and "tables (db, tbl) = Some (l, ps)"
    and "length ps \<le> 256" and "distinct (map fst ps)"
  shows "\<exists>bs. fst (run_state (processCatalogEntry (table_metastore tables) parse_url h p t) w) = Inr bs \<and>
    bs = concat (map (location_buckets parse_url) (if ps = [] then [l] else map snd ps)) \<and>
    (\<forall>b \<in> set bs. b = '''' \<or> last b \<noteq> CHR ''/'')"
proof -
  have f: "filter (\<lambda>q. fst q \<in> fst ` set ps) ps = ps" by (simp add: filter_id_conv)
  have "\<forall>b \<in> set (location_buckets parse_url x). b = '''' \<or> last b \<noteq> CHR ''/''" for x
    using bucket_no_slash by (auto simp: location_buckets_def split: option.splits)
  moreover have "fst (run_state (processCatalogEntry (table_metastore tables) parse_url h p t) w) =
      Inr (concat (map (location_buckets parse_url) (if ps = [] then [l] else map snd ps)))"
    using assms f by (simp add: processCatalogEntry_def catalog_locations_def table_metastore_def)
  ultimately show ?thesis by fastforce
qed

theorem lookup_lists_buckets_witness:
  "fst (run_state (processCatalogEntry (table_metastore (\<lambda>_. Some (''l'', [(''x=1'', ''a''), (''x=2'', ''b'')])))
      (\<lambda>s. Some \<lparr>url_Scheme = ''s3a'', url_Host = s, url_Path = ''/''\<rparr>) ''h'' 9083 ''t'') ()) = Inr [''a'', ''b'']"
  using lookup_lists_buckets [where h = "''h''" and t = "''t''" and db = "''default''" and tbl = "''t''" and p = 9083 and w = "()"
      and tables = "\<lambda>_. Some (''l'', [(''x=1'', ''a''), (''x=2'', ''b'')])" and l = "''l''" and ps = "[(''x=1'', ''a''), (''x=2'', ''b'')]"
      and parse_url = "\<lambda>s. Some \<lparr>url_Scheme = ''s3a'', url_Host = s, url_Path = ''/''\<rparr>"]
  by (simp add: parse_table_def location_buckets_def getBucketFromS3Uri_def Join_def HasPrefix_def HasSuffix_def TrimRight_def)

end
