(* ===== verification/Base64.thy ===== *)
theory Base64
  imports Main
begin

text \<open>
  \<open>base64.StdEncoding\<close> of the Go standard library, which the operator uses to read the values of a
  Secret: \<open>b64_encode\<close> and \<open>b64_decode\<close>, with the round trip \<open>b64_decode_encode\<close>.
  Go's decoder skips line breaks; the decoder here is applied to encoder output only, which has none.
\<close>

definition b64_char :: "nat \<Rightarrow> char" where
  "b64_char n =
     (if n < 26 then char_of (n + 65) else if n < 52 then char_of (n + 71)
      else if n < 62 then char_of (n - 4) else if n = 62 then CHR ''+'' else CHR ''/'')"

definition b64_value :: "char \<Rightarrow> nat option" where
  "b64_value c =
     (let n = of_char c :: nat in
      if 65 \<le> n \<and> n \<le> 90 then Some (n - 65) else if 97 \<le> n \<and> n \<le> 122 then Some (n - 71)
      else if 48 \<le> n \<and> n \<le> 57 then Some (n + 4) else if n = 43 then Some 62
      else if n = 47 then Some 63 else None)"

definition group_chars :: "nat \<Rightarrow> string" where
  "group_chars n = map b64_char [n div 64 div 64 div 64, n div 64 div 64 mod 64, n div 64 mod 64, n mod 64]"

definition group_bytes :: "nat \<Rightarrow> string" where
  "group_bytes n = map char_of [n div 256 div 256, n div 256 mod 256, n mod 256]"

definition byte :: "char \<Rightarrow> nat" where "byte c = of_char c"

fun b64_encode :: "string \<Rightarrow> string" where
  "b64_encode [] = []"
| "b64_encode [a] = take 2 (group_chars (byte a * 256 * 256)) @ ''==''"
| "b64_encode [a, b] = take 3 (group_chars (byte a * 256 * 256 + byte b * 256)) @ ''=''"
| "b64_encode (a # b # c # s) = group_chars (byte a * 256 * 256 + byte b * 256 + byte c) @ b64_encode s"

definition group_value :: "char \<Rightarrow> char \<Rightarrow> char \<Rightarrow> char \<Rightarrow> nat option" where
  "group_value x y z u =
     (case (b64_value x, b64_value y, b64_value z, b64_value u) of
        (Some p, Some q, Some r, Some s) \<Rightarrow> Some (((p * 64 + q) * 64 + r) * 64 + s)
      | _ \<Rightarrow> None)"

fun b64_decode :: "string \<Rightarrow> string option" where
  "b64_decode [] = Some []"
| "b64_decode (x # y # z # u # s) =
     (if s = [] \<and> z = CHR ''='' \<and> u = CHR ''='' then map_option (\<lambda>n. take 1 (group_bytes n)) (group_value x y CHR ''A'' CHR ''A'')
      else if s = [] \<and> u = CHR ''='' then map_option (\<lambda>n. take 2 (group_bytes n)) (group_value x y z CHR ''A'')
      else case (group_value x y z u, b64_decode s) of
        (Some n, Some t) \<Rightarrow> Some (group_bytes n @ t)
      | _ \<Rightarrow> None)"
| "b64_decode _ = None"

lemma b64_value_char: "n < 64 \<Longrightarrow> b64_value (b64_char n) = Some n"
proof -
  assume "n < 64"
  then consider "n < 26" | "26 \<le> n" "n < 52" | "52 \<le> n" "n < 62" | "n = 62" | "n = 63" by linarith
  then show ?thesis by cases (auto simp: b64_value_def b64_char_def of_char_of Let_def)
qed

lemma b64_char_not_pad: "n < 64 \<Longrightarrow> b64_char n \<noteq> CHR ''=''"
  using b64_value_char [of n] by (auto simp: b64_value_def)

lemma byte_less [simp]: "byte c < 256"
  by (simp add: byte_def)

lemma digits_join: "(((n div 64 div 64 div 64) * 64 + n div 64 div 64 mod 64) * 64 + n div 64 mod 64) * 64 + n mod 64 = (n::nat)"
  by (simp add: mult.commute [of _ 64])

lemma group_value_chars:
  assumes "n < 256 * 256 * 256"
  shows "group_value (b64_char (n div 64 div 64 div 64)) (b64_char (n div 64 div 64 mod 64))
    (b64_char (n div 64 mod 64)) (b64_char (n mod 64)) = Some n"
proof -
  have "n div 64 div 64 div 64 < 64" using assms by (simp add: div_mult2_eq [symmetric] less_mult_imp_div_less)
  then show ?thesis by (simp add: group_value_def b64_value_char digits_join)
qed

lemma group_bytes_join:
  "group_bytes (byte a * 256 * 256 + byte b * 256 + byte c) = [a, b, c]"
proof -
  have "(byte a * 256 * 256 + byte b * 256 + byte c) div 256 = byte a * 256 + byte b"
    using byte_less [of c] by (simp add: algebra_simps div_add1_eq)
  moreover have "(byte a * 256 + byte b) div 256 = byte a" using byte_less [of b] by simp
  moreover have "(byte a * 256 * 256 + byte b * 256 + byte c) mod 256 = byte c"
    using byte_less [of c] by (simp add: mod_add_eq [symmetric])
  ultimately show ?thesis by (simp add: group_bytes_def byte_def)
qed

lemma group_bound: "byte a * 256 * 256 + byte b * 256 + byte c < 256 * 256 * 256"
  using byte_less [of a] byte_less [of b] byte_less [of c] by linarith

lemma pad_A: "b64_char 0 = CHR ''A''"
  by code_simp

theorem b64_decode_encode: "b64_decode (b64_encode s) = Some s"
proof (induction s rule: b64_encode.induct)
  case (2 a)
  let ?n = "byte a * 256 * 256"
  have "?n mod 64 = 0" "?n div 64 mod 64 = 0" by (simp_all add: mult.assoc)
  then have "group_value (b64_char (?n div 64 div 64 div 64)) (b64_char (?n div 64 div 64 mod 64)) CHR ''A'' CHR ''A'' = Some ?n"
    using group_value_chars [of ?n] group_bound [of a "CHR 0x00" "CHR 0x00"] by (simp add: pad_A byte_def)
  moreover have "take 1 (group_bytes ?n) = [a]"
    using group_bytes_join [of a "CHR 0x00" "CHR 0x00"] by (simp add: byte_def)
  ultimately show ?case by (simp add: group_chars_def)
next
  case (3 a b)
  let ?n = "byte a * 256 * 256 + byte b * 256"
  have "?n mod 64 = 0" by presburger
  then have "group_value (b64_char (?n div 64 div 64 div 64)) (b64_char (?n div 64 div 64 mod 64))
      (b64_char (?n div 64 mod 64)) CHR ''A'' = Some ?n"
    using group_value_chars [of ?n] group_bound [of a b "CHR 0x00"] by (simp add: pad_A byte_def)
  moreover have "take 2 (group_bytes ?n) = [a, b]"
    using group_bytes_join [of a b "CHR 0x00"] by (simp add: byte_def)
  moreover have "b64_char (?n div 64 mod 64) \<noteq> CHR ''=''" by (rule b64_char_not_pad) simp
  ultimately show ?case by (simp add: group_chars_def numeral_3_eq_3 numeral_2_eq_2)
next
  case (4 a b c s)
  let ?n = "byte a * 256 * 256 + byte b * 256 + byte c"
  have "b64_char (?n mod 64) \<noteq> CHR ''=''" by (rule b64_char_not_pad) simp
  then show ?case
    using group_value_chars [OF group_bound] group_bytes_join [of a b c] "4.IH"
    by (simp add: group_chars_def)
qed simp

end
