(* ===== verification/Dataset_Internal.thy ===== *)
theory Dataset_Internal
  imports Metastore Base64
begin

text \<open>
  \<open>controllers/datasetinternal_controller.go\<close>: the reconciler of DatasetInternal objects.  It creates
  the objects that make a dataset usable (config map, secret, volume, claim), depending on the type of
  the dataset, and cleans up behind a finalizer.

  A function that returns \<open>(reconcile.Result, error)\<close> is a computation with a result of type
  \<open>reconcile_return\<close>; \<open>andthen\<close> and \<open>owned_by\<close> are the repeated early returns
  \<open>if err != nil { return reconcile.Result{}, err }\<close>.
\<close>

section \<open>Early returns\<close>

definition fail_with :: "api_error \<Rightarrow> ('w, reconcile_return) state" where
  "fail_with e = State_Monad.return (Result, Some e)"

definition andthen ::
  "('w, api_error option) state \<Rightarrow> ('w, reconcile_return) state \<Rightarrow> ('w, reconcile_return) state" where
  "andthen m n = do { e \<leftarrow> m; case e of Some e \<Rightarrow> fail_with e | None \<Rightarrow> n }"

text \<open>\<open>controllerutil.SetControllerReference(cr, x, rc.Scheme)\<close> and its error.\<close>

definition owned_by ::
  "'w cluster_api \<Rightarrow> DatasetInternal \<Rightarrow> k8s_object \<Rightarrow> (k8s_object \<Rightarrow> ('w, reconcile_return) state) \<Rightarrow>
   ('w, reconcile_return) state" where
  "owned_by api cr x f =
     (case api_SetControllerReference api (ODatasetInternal cr) x of Inl e \<Rightarrow> fail_with e | Inr y \<Rightarrow> f y)"

text \<open>
  Get the object and create it when it is not found.  With \<open>strict\<close> any other error of the \<open>Get\<close> is
  returned; without it, it is dropped.
\<close>

definition create_if_absent :: "'w cluster_api \<Rightarrow> bool \<Rightarrow> k8s_object \<Rightarrow> ('w, api_error option) state" where
  "create_if_absent api strict x = do {
     r \<leftarrow> api_Get api (kind_of x) (om_namespace (meta_of x), om_name (meta_of x));
     case r of
       Inl e \<Rightarrow> if IsNotFound e then api_Create api x
               else State_Monad.return (if strict then Some e else None)
     | Inr _ \<Rightarrow> State_Monad.return None
   }"

section \<open>Helpers\<close>

definition datasetFinalizer :: string where "datasetFinalizer = ''dataset-finalizer''"

definition contains :: "string list \<Rightarrow> string \<Rightarrow> bool" where
  "contains list s = (\<exists>v \<in> set list. v = s)"

text \<open>\<open>controllerutil.AddFinalizer\<close> and \<open>RemoveFinalizer\<close>.\<close>

definition with_finalizers :: "(string list \<Rightarrow> string list) \<Rightarrow> DatasetInternal \<Rightarrow> DatasetInternal" where
  "with_finalizers f m = m\<lparr>di_meta := (di_meta m)\<lparr>om_finalizers := f (om_finalizers (di_meta m))\<rparr>\<rparr>"

definition addFinalizer :: "'w cluster_api \<Rightarrow> DatasetInternal \<Rightarrow> ('w, api_error option) state" where
  "addFinalizer api m =
     api_Update api (ODatasetInternal (with_finalizers
       (\<lambda>fs. if datasetFinalizer \<in> set fs then fs else fs @ [datasetFinalizer]) m))"

definition getBooleanStringForKeyInMap :: "string \<Rightarrow> string \<Rightarrow> smap \<Rightarrow> string" where
  "getBooleanStringForKeyInMap defaultValue key mapString =
     (case map_of mapString key of
        None \<Rightarrow> defaultValue
      | Some valueString \<Rightarrow>
          (case ParseBool valueString of None \<Rightarrow> defaultValue | Some b \<Rightarrow> FormatBool b))"

text \<open>The labels of the created objects, and the metadata with the name of the dataset.\<close>

definition dataset_meta :: "DatasetInternal \<Rightarrow> object_meta" where
  "dataset_meta cr = ObjectMeta (om_name (di_meta cr)) (om_namespace (di_meta cr))
     [(''dataset'', om_name (di_meta cr))]"

abbreviation spec_local :: "DatasetInternal \<Rightarrow> smap" where
  "spec_local cr \<equiv> local_map (di_Spec cr)"

abbreviation spec_remote :: "DatasetInternal \<Rightarrow> smap" where
  "spec_remote cr \<equiv> remote_map (di_Spec cr)"

text \<open>The \<open>permissions\<close> of an H3 or HOST dataset.\<close>

definition dataset_permissions :: "smap \<Rightarrow> api_error + access_mode" where
  "dataset_permissions m =
     (case map_of m ''permissions'' of
        None \<Rightarrow> Inr ReadWriteMany
      | Some perm \<Rightarrow>
          if perm = ''ReadOnly'' then Inr ReadOnlyMany
          else if perm \<in> {'''', ''ReadWrite''} then Inr ReadWriteMany
          else Inl (BadRequest ''permissions not supported''))"

definition empty_pvc :: "object_meta \<Rightarrow> PersistentVolumeClaim" where
  "empty_pvc m = \<lparr>pvc_meta = m, pvc_accessModes = [], pvc_volumeName = '''', pvc_storageClassName = None,
     pvc_requests = [], pvc_limits = [], pvc_selector = None, pvc_phase = ClaimUnset\<rparr>"

text \<open>
  The end of the H3, NFS and HOST branches: the volume is created if it is not found, then the claim.
  An error of the \<open>Get\<close> of the claim other than not found is dropped.
\<close>

definition provision_volume ::
  "'w cluster_api \<Rightarrow> DatasetInternal \<Rightarrow> PersistentVolume \<Rightarrow> PersistentVolumeClaim \<Rightarrow> ('w, reconcile_return) state" where
  "provision_volume api cr pv pvc =
     owned_by api cr (OPersistentVolume pv) (\<lambda>newPV.
       andthen (create_if_absent api True newPV)
         (owned_by api cr (OPersistentVolumeClaim pvc) (\<lambda>newPVC.
           andthen (create_if_absent api False newPVC) (State_Monad.return (Result, None)))))"

section \<open>H3\<close>

definition h3_pv :: "DatasetInternal \<Rightarrow> string \<Rightarrow> PersistentVolume" where
  "h3_pv cr uuid =
     \<lparr>pv_meta = dataset_meta cr, pv_storageClassName = ''h3'', pv_accessModes = [ReadWriteMany],
      pv_capacity = [(''storage'', ''1Pi'')],
      pv_source = CSIPersistentVolumeSource ''csi-h3'' (om_name (di_meta cr) @ ''-'' @ take 6 uuid)
        [(''storageUri'', mget (spec_local cr) ''storageUri''), (''bucket'', mget (spec_local cr) ''bucket'')]\<rparr>"

definition h3_pvc :: "DatasetInternal \<Rightarrow> access_mode \<Rightarrow> PersistentVolumeClaim" where
  "h3_pvc cr permissions = (empty_pvc (dataset_meta cr))
     \<lparr>pvc_accessModes := [permissions], pvc_volumeName := om_name (di_meta cr),
      pvc_storageClassName := Some ''h3'', pvc_selector := Some [(''name'', om_name (di_meta cr))]\<rparr>"

definition processLocalDatasetH3 :: "'w cluster_api \<Rightarrow> DatasetInternal \<Rightarrow> ('w, reconcile_return) state" where
  "processLocalDatasetH3 api cr =
     (if mget (spec_local cr) ''storageUri'' = '''' then
        fail_with (BadRequest ''storageUri missing or not valid'')
      else case dataset_permissions (spec_local cr) of
        Inl e \<Rightarrow> fail_with e
      | Inr permissions \<Rightarrow> do {
          uuidForPVC \<leftarrow> api_NewUUID api;
          provision_volume api cr (h3_pv cr uuidForPVC) (h3_pvc cr permissions)
        })"

section \<open>Object storage\<close>

text \<open>The three results: the keys, or the error of an unusable secret.\<close>

definition secret_ok :: "DatasetInternal \<Rightarrow> bool" where
  "secret_ok cr =
     (if mhas (spec_local cr) ''secret-name'' then
        if \<not> mhas (spec_local cr) ''secret-namespace'' then True
        else mget (spec_local cr) ''secret-namespace'' = om_namespace (di_meta cr)
      else False)"

definition secret_keys :: "smap \<Rightarrow> (string \<times> string) option" where
  "secret_keys data =
     (if mhas data ''accessKeyID'' \<and> mhas data ''secretAccessKey''
      then Some (mget data ''accessKeyID'', mget data ''secretAccessKey'') else None)"

definition checkAndExtractObjectStorageAccess ::
  "'w cluster_api \<Rightarrow> DatasetInternal \<Rightarrow> ('w, api_error + string \<times> string) state" where
  "checkAndExtractObjectStorageAccess api cr =
     (let no_secret = BadRequest ''No useable secret provided for authentication'' in
      if secret_ok cr then do {
        r \<leftarrow> api_Get api KSecret (om_namespace (di_meta cr), mget (spec_local cr) ''secret-name'');
        State_Monad.return
          (case r of
             Inr (OSecret cosSecret) \<Rightarrow>
               (case secret_keys (sec_Data cosSecret) of None \<Rightarrow> Inl no_secret | Some ks \<Rightarrow> Inr ks)
           | _ \<Rightarrow> Inl no_secret)
      }
      else State_Monad.return
        (case secret_keys (spec_local cr) of None \<Rightarrow> Inl no_secret | Some ks \<Rightarrow> Inr ks))"

text \<open>The bucket and the folder of a dataset: the part before and after the first slash.\<close>

definition bucket_of :: "DatasetInternal \<Rightarrow> string" where
  "bucket_of cr = fst (Cut (mget (spec_local cr) ''bucket'') (CHR ''/''))"

definition folder_of :: "DatasetInternal \<Rightarrow> string" where
  "folder_of cr = fst (snd (Cut (mget (spec_local cr) ''bucket'') (CHR ''/'')))"

definition cos_readonly :: "DatasetInternal \<Rightarrow> string" where
  "cos_readonly cr = getBooleanStringForKeyInMap ''false'' ''readonly'' (spec_local cr)"

definition cos_provision :: "DatasetInternal \<Rightarrow> string" where
  "cos_provision cr =
     (let provision = getBooleanStringForKeyInMap ''false'' ''provision'' (spec_local cr) in
      case map_of (spec_local cr) ''provision'' of
        None \<Rightarrow> provision
      | Some provisionValueString \<Rightarrow>
          (case ParseBool provisionValueString of None \<Rightarrow> provision | Some b \<Rightarrow> FormatBool b))"

definition cos_remove_on_delete :: "DatasetInternal \<Rightarrow> string" where
  "cos_remove_on_delete cr = getBooleanStringForKeyInMap ''false'' ''remove-on-delete'' (om_labels (di_meta cr))"

definition cos_secret :: "DatasetInternal \<Rightarrow> string \<times> string \<Rightarrow> Secret" where
  "cos_secret cr ks =
     \<lparr>sec_meta = dataset_meta cr, sec_Data = [],
      sec_StringData =
        [(''accessKeyID'', fst ks), (''secretAccessKey'', snd ks),
         (''endpoint'', mget (spec_local cr) ''endpoint''), (''bucket'', bucket_of cr),
         (''folder'', folder_of cr), (''region'', mget (spec_local cr) ''region''),
         (''readonly'', cos_readonly cr),
         (''extract'', if length (sp_Extract (di_Spec cr)) > 0 then sp_Extract (di_Spec cr) else ''false''),
         (''provision'', cos_provision cr), (''remove-on-delete'', cos_remove_on_delete cr)]\<rparr>"

definition cos_config :: "DatasetInternal \<Rightarrow> smap" where
  "cos_config cr = [(''endpoint'', mget (spec_local cr) ''endpoint''), (''bucket'', bucket_of cr),
     (''folder'', folder_of cr), (''region'', mget (spec_local cr) ''region'')]"

definition cos_pvc :: "DatasetInternal \<Rightarrow> PersistentVolumeClaim" where
  "cos_pvc cr = (empty_pvc (dataset_meta cr))
     \<lparr>pvc_accessModes := [if cos_readonly cr = ''true'' then ReadOnlyMany else ReadWriteMany],
      pvc_requests := [(''storage'', ''5Gi'')], pvc_storageClassName := Some ''csi-s3''\<rparr>"

definition createConfigMapforDataset ::
  "'w cluster_api \<Rightarrow> smap \<Rightarrow> DatasetInternal \<Rightarrow> ('w, reconcile_return) state" where
  "createConfigMapforDataset api configMapData cr =
     owned_by api cr (OConfigMap \<lparr>cm_meta = dataset_meta cr, cm_Data = configMapData\<rparr>) (\<lambda>configMapObject.
       andthen (create_if_absent api True configMapObject) (State_Monad.return (Result, None)))"

text \<open>The loop over \<open>editableLabels\<close>, on the secret and the flag \<open>shouldUpdate\<close>.\<close>

definition decoded_value :: "smap \<Rightarrow> string \<Rightarrow> string" where
  "decoded_value data label =
     (case b64_decode (b64_encode (mget data label)) of None \<Rightarrow> '''' | Some v \<Rightarrow> v)"

fun edit_loop :: "smap \<Rightarrow> string list \<Rightarrow> Secret \<times> bool \<Rightarrow> Secret \<times> bool" where
  "edit_loop newData [] st = st"
| "edit_loop newData (label # labels) (existing, shouldUpdate) =
     (if decoded_value (sec_Data existing) label \<noteq> mget newData label then
        edit_loop newData labels
          (existing\<lparr>sec_StringData := mset_key label (mget newData label) (sec_StringData existing)\<rparr>, True)
      else edit_loop newData labels (existing, shouldUpdate))"

definition checkIfEditableValueChangeAndUpdate ::
  "'w cluster_api \<Rightarrow> Secret \<Rightarrow> Secret \<Rightarrow> ('w, api_error option) state" where
  "checkIfEditableValueChangeAndUpdate api existingSecret updatedSecret =
     (case edit_loop (sec_StringData updatedSecret) [''remove-on-delete''] (existingSecret, False) of
        (existing, shouldUpdate) \<Rightarrow>
          if shouldUpdate then api_Update api (OSecret existing) else State_Monad.return None)"

text \<open>The last part of \<open>processLocalDatasetCOS\<close>: the secret.\<close>

definition reconcile_cos_secret :: "'w cluster_api \<Rightarrow> Secret \<Rightarrow> ('w, api_error option) state" where
  "reconcile_cos_secret api secretObj = do {
     r \<leftarrow> api_Get api KSecret (om_namespace (sec_meta secretObj), om_name (sec_meta secretObj));
     case r of
       Inl e \<Rightarrow> if IsNotFound e then api_Create api (OSecret secretObj) else State_Monad.return (Some e)
     | Inr (OSecret foundSecret) \<Rightarrow> checkIfEditableValueChangeAndUpdate api foundSecret secretObj
     | Inr _ \<Rightarrow> State_Monad.return (Some (OtherError ''unexpected object''))
   }"

definition processLocalDatasetCOS :: "'w cluster_api \<Rightarrow> DatasetInternal \<Rightarrow> ('w, reconcile_return) state" where
  "processLocalDatasetCOS api cr = do {
     access \<leftarrow> checkAndExtractObjectStorageAccess api cr;
     case access of
       Inl e \<Rightarrow> fail_with e
     | Inr ks \<Rightarrow> do {
         r \<leftarrow> createConfigMapforDataset api (cos_config cr) cr;
         case snd r of
           Some e \<Rightarrow> fail_with e
         | None \<Rightarrow>
             andthen (create_if_absent api True (OPersistentVolumeClaim (cos_pvc cr)))
               (andthen (reconcile_cos_secret api (cos_secret cr ks)) (State_Monad.return (Result, None)))
       }
   }"

section \<open>NFS\<close>

definition nfs_pv :: "DatasetInternal \<Rightarrow> string \<Rightarrow> PersistentVolume" where
  "nfs_pv cr uuid =
     \<lparr>pv_meta = dataset_meta cr, pv_storageClassName = ''csi-nfs'', pv_accessModes = [ReadWriteMany],
      pv_capacity = [(''storage'', ''5Gi'')],
      pv_source = CSIPersistentVolumeSource ''csi-nfsplugin'' (om_name (di_meta cr) @ ''-'' @ take 6 uuid)
        [(''server'', mget (spec_local cr) ''server''), (''share'', mget (spec_local cr) ''share''),
         (''createDirPVC'', case map_of (spec_local cr) ''createDirPVC'' of None \<Rightarrow> ''false'' | Some v \<Rightarrow> v)]\<rparr>"

definition nfs_pvc :: "DatasetInternal \<Rightarrow> PersistentVolumeClaim" where
  "nfs_pvc cr = (empty_pvc (dataset_meta cr))
     \<lparr>pvc_accessModes := [ReadWriteMany], pvc_requests := [(''storage'', ''5Gi'')],
      pvc_storageClassName := Some ''csi-nfs'', pvc_volumeName := om_name (di_meta cr)\<rparr>"

definition processLocalDatasetNFS :: "'w cluster_api \<Rightarrow> DatasetInternal \<Rightarrow> ('w, reconcile_return) state" where
  "processLocalDatasetNFS api cr = do {
     found \<leftarrow> api_Get api KPersistentVolumeClaim (om_namespace (di_meta cr), om_name (di_meta cr));
     case found of
       Inr _ \<Rightarrow> State_Monad.return (Result, None)
     | Inl _ \<Rightarrow> do {
         uuidForPVC \<leftarrow> api_NewUUID api;
         provision_volume api cr (nfs_pv cr uuidForPVC) (nfs_pvc cr)
       }
   }"

section \<open>HOST\<close>

definition host_path_type_of :: "smap \<Rightarrow> api_error + host_path_type" where
  "host_path_type_of m =
     (case map_of m ''hostPathType'' of
        None \<Rightarrow> Inr HostPathDirectory
      | Some t \<Rightarrow>
          if t = ''CreateNew'' then Inr HostPathDirectoryOrCreate
          else if t \<in> {'''', ''Directory''} then Inr HostPathDirectory
          else Inl (BadRequest ''HostPath type not supported''))"

definition host_pv :: "DatasetInternal \<Rightarrow> access_mode \<Rightarrow> host_path_type \<Rightarrow> PersistentVolume" where
  "host_pv cr permissions hostpathType =
     \<lparr>pv_meta = dataset_meta cr, pv_storageClassName = ''hostpath'', pv_accessModes = [permissions],
      pv_capacity = [(''storage'', ''5Gi'')],
      pv_source = HostPathVolumeSource (mget (spec_local cr) ''path'') hostpathType\<rparr>"

definition host_pvc :: "DatasetInternal \<Rightarrow> access_mode \<Rightarrow> PersistentVolumeClaim" where
  "host_pvc cr permissions = (empty_pvc (dataset_meta cr))
     \<lparr>pvc_accessModes := [permissions], pvc_volumeName := om_name (di_meta cr),
      pvc_storageClassName := Some ''hostpath'', pvc_requests := [(''storage'', ''5Gi'')]\<rparr>"

definition processLocalDatasetHOST :: "'w cluster_api \<Rightarrow> DatasetInternal \<Rightarrow> ('w, reconcile_return) state" where
  "processLocalDatasetHOST api cr =
     (if mget (spec_local cr) ''path'' = '''' then fail_with (BadRequest ''path missing or not valid'')
      else case dataset_permissions (spec_local cr) of
        Inl e \<Rightarrow> fail_with e
      | Inr permissions \<Rightarrow>
          (case host_path_type_of (spec_local cr) of
             Inl e \<Rightarrow> fail_with e
           | Inr hostpathType \<Rightarrow>
               provision_volume api cr (host_pv cr permissions hostpathType) (host_pvc cr permissions)))"

section \<open>Remote datasets\<close>

text \<open>Host and port of the \<open>hivemetastore\<close> service: the last port named \<open>metastore\<close> or unnamed.\<close>

definition service_port :: "Service \<Rightarrow> int" where
  "service_port svc =
     foldl (\<lambda>catalogPort port. if fst port = ''metastore'' \<or> fst port = '''' then snd port else catalogPort)
       0 (svc_Ports svc)"

definition catalog_address ::
  "'w cluster_api \<Rightarrow> DatasetInternal \<Rightarrow> ('w, api_error + string \<times> int) state" where
  "catalog_address api cr =
     (case map_of (spec_remote cr) ''catalogURI'' of
        None \<Rightarrow> do {
          r \<leftarrow> api_Get api KService (om_namespace (di_meta cr), ''hivemetastore'');
          State_Monad.return
            (case r of
               Inr (OService svc) \<Rightarrow>
                 if svc_ClusterIP svc = '''' then Inl (BadRequest ''Catalog address was not found'')
                 else Inr (svc_ClusterIP svc, service_port svc)
             | _ \<Rightarrow> Inl (BadRequest ''no catalogURI provided''))
        }
      | Some catalogUri \<Rightarrow> State_Monad.return
          (case parseCatalogUri catalogUri of
             Inl _ \<Rightarrow> Inl (BadRequest ''CatalogUri in the wrong format'')
           | Inr a \<Rightarrow> Inr a))"

definition remote_config :: "string \<times> int \<Rightarrow> string \<Rightarrow> string list \<Rightarrow> smap" where
  "remote_config address table bukits =
     mset_key ''numBuckets'' (Itoa (int (length bukits)))
       (mset_key ''table'' table
         (mset_key ''catalogPort'' (Itoa (snd address))
           (mset_key ''catalogHost'' (fst address)
             (map (\<lambda>i. (''bucket.'' @ Itoa (int i), bukits ! i)) [0..<length bukits]))))"

definition remote_secret :: "DatasetInternal \<Rightarrow> string \<Rightarrow> smap \<Rightarrow> Secret" where
  "remote_secret cr endpoint bucketData =
     \<lparr>sec_meta = dataset_meta cr, sec_Data = [],
      sec_StringData =
        [(''endpoint'', endpoint), (''accessKeyID'', mget (spec_remote cr) ''accessKeyID''),
         (''secretAccessKey'', mget (spec_remote cr) ''secretAccessKey''),
         (''region'', mget (spec_remote cr) ''region''), (''bucket'', mget bucketData ''bucket.0'')]\<rparr>"

definition remote_pvc :: "DatasetInternal \<Rightarrow> PersistentVolumeClaim" where
  "remote_pvc cr = (empty_pvc (dataset_meta cr))
     \<lparr>pvc_accessModes := [ReadWriteOnce], pvc_requests := [(''storage'', ''5Gi'')],
      pvc_storageClassName := Some ''csi-s3''\<rparr>"

text \<open>\<open>err\<close> of the claim is returned as it is, the one of \<open>Get\<close> as well.\<close>

definition createPVCforObjectStorage :: "'w cluster_api \<Rightarrow> DatasetInternal \<Rightarrow> ('w, reconcile_return) state" where
  "createPVCforObjectStorage api cr =
     owned_by api cr (OPersistentVolumeClaim (remote_pvc cr)) (\<lambda>newPVC. do {
       e \<leftarrow> create_if_absent api True newPVC;
       State_Monad.return (Result, e)
     })"

text \<open>The part after the catalog answered with at least one bucket.\<close>

definition provision_remote ::
  "'w cluster_api \<Rightarrow> DatasetInternal \<Rightarrow> string \<times> int \<Rightarrow> string \<Rightarrow> string \<Rightarrow> bool \<Rightarrow> string list \<Rightarrow>
   ('w, reconcile_return) state" where
  "provision_remote api cr address table endpoint mountAllowed bukits =
     (let bucketData = remote_config address table bukits in do {
        c \<leftarrow> createConfigMapforDataset api bucketData cr;
        case snd c of
          Some _ \<Rightarrow> fail_with (ServiceUnavailable ''Unable to initialise dataset'')
        | None \<Rightarrow>
            owned_by api cr (OSecret (remote_secret cr endpoint bucketData)) (\<lambda>secretObj.
              andthen (create_if_absent api True secretObj)
                (if mountAllowed then do {
                   p \<leftarrow> createPVCforObjectStorage api cr;
                   case snd p of
                     Some _ \<Rightarrow> fail_with (ServiceUnavailable ''Unable to initialise dataset'')
                   | None \<Rightarrow> State_Monad.return (Result, None)
                 } else State_Monad.return (Result, None)))
      })"

definition processRemoteDataset ::
  "'w cluster_api \<Rightarrow> 'w metastore \<Rightarrow> (string \<Rightarrow> url option) \<Rightarrow> DatasetInternal \<Rightarrow> ('w, reconcile_return) state" where
  "processRemoteDataset api hms parse_url cr =
     (if mget (spec_remote cr) ''type'' \<noteq> ''CatalogEntry'' then
        fail_with (BadRequest ''Unsupported dataset entry type'')
      else do {
        address \<leftarrow> catalog_address api cr;
        case address of
          Inl e \<Rightarrow> fail_with e
        | Inr (catalogHost, catalogPort) \<Rightarrow>
            (case (map_of (spec_remote cr) ''table'', map_of (spec_remote cr) ''endpoint'') of
               (None, _) \<Rightarrow> fail_with (BadRequest ''no table provided for lookup'')
             | (Some _, None) \<Rightarrow> fail_with (BadRequest ''no endpoints provided for s3 buckets'')
             | (Some table, Some endpoint) \<Rightarrow> do {
                 bukits \<leftarrow> processCatalogEntry hms parse_url catalogHost catalogPort table;
                 case bukits of
                   Inl _ \<Rightarrow> fail_with (BadRequest (''Could not query catalog at address: '' @
                              mget (spec_remote cr) ''catalogURI''))
                 | Inr [] \<Rightarrow> fail_with (BadRequest ''No records obtained from the catalog'')
                 | Inr bs \<Rightarrow>
                     provision_remote api cr (catalogHost, catalogPort) table endpoint
                       (case map_of (spec_remote cr) ''mountAllowed'' of
                          None \<Rightarrow> False | Some v \<Rightarrow> parse_bool_or_false v) bs
               })
      })"

section \<open>Reconcile\<close>

definition datasetLocalProcessTable ::
  "'w cluster_api \<Rightarrow> (string \<times> (DatasetInternal \<Rightarrow> ('w, reconcile_return) state)) list" where
  "datasetLocalProcessTable api =
     [(''COS'', processLocalDatasetCOS api), (''NFS'', processLocalDatasetNFS api),
      (''HOST'', processLocalDatasetHOST api), (''H3'', processLocalDatasetH3 api)]"

text \<open>The branch of an instance marked for deletion.\<close>

definition finalize_internal ::
  "'w cluster_api \<Rightarrow> namespaced_name \<Rightarrow> DatasetInternal \<Rightarrow> ('w, reconcile_return) state" where
  "finalize_internal api req inst =
     (if \<not> contains (om_finalizers (di_meta inst)) datasetFinalizer then State_Monad.return (Result, None)
      else do {
        foundPVC \<leftarrow> api_Get api KPersistentVolumeClaim req;
        case foundPVC of
          Inr pvc \<Rightarrow> do { delErr \<leftarrow> api_Delete api pvc; State_Monad.return (ResultRequeue, delErr) }
        | Inl e \<Rightarrow>
            if \<not> IsNotFound e then fail_with e
            else do {
              found \<leftarrow> api_Get api KSecret req;
              case found of
                Inr secret \<Rightarrow> do { _ \<leftarrow> api_Delete api secret; State_Monad.return (ResultRequeue, None) }
              | Inl e \<Rightarrow>
                  if \<not> IsNotFound e then fail_with e
                  else do {
                    err \<leftarrow> api_Update api (ODatasetInternal (with_finalizers (removeAll datasetFinalizer) inst));
                    State_Monad.return (Result, err)
                  }
            }
      })"

text \<open>The branch of a live instance: errors are replaced by a \<open>BadRequest\<close>.\<close>

definition process_dataset ::
  "'w cluster_api \<Rightarrow> 'w metastore \<Rightarrow> (string \<Rightarrow> url option) \<Rightarrow> DatasetInternal \<Rightarrow> ('w, reconcile_return) state" where
  "process_dataset api hms parse_url inst =
     (if sp_Local (di_Spec inst) \<noteq> None then
        (case map_of (datasetLocalProcessTable api) (mget (spec_local inst) ''type'') of
           Some f \<Rightarrow> do {
             r \<leftarrow> f inst;
             State_Monad.return (fst r, map_option (\<lambda>_. BadRequest ''Dataset could not be created'') (snd r))
           }
         | None \<Rightarrow> fail_with (BadRequest ''Dataset type not supported''))
      else if sp_Remote (di_Spec inst) \<noteq> None then do {
        r \<leftarrow> processRemoteDataset api hms parse_url inst;
        State_Monad.return (fst r, map_option (\<lambda>_. BadRequest ''Could not process remote dataset'') (snd r))
      }
      else fail_with (BadRequest ''Dataset type not supported''))"

definition needs_finalizer :: "DatasetInternal \<Rightarrow> bool" where
  "needs_finalizer m \<longleftrightarrow> sp_Local (di_Spec m) \<noteq> None \<and> mget (spec_local m) ''type'' = ''COS'' \<and>
     \<not> contains (om_finalizers (di_meta m)) datasetFinalizer"

definition ReconcileInternal ::
  "'w cluster_api \<Rightarrow> 'w metastore \<Rightarrow> (string \<Rightarrow> url option) \<Rightarrow> namespaced_name \<Rightarrow> ('w, reconcile_return) state" where
  "ReconcileInternal api hms parse_url req = do {
     r \<leftarrow> api_Get api KDatasetInternal req;
     case r of
       Inr (ODatasetInternal inst) \<Rightarrow>
         if needs_finalizer inst then do {
           err \<leftarrow> addFinalizer api inst;
           State_Monad.return (Result, err)
         }
         else if om_deletionTimestamp (di_meta inst) \<noteq> None then finalize_internal api req inst
         else process_dataset api hms parse_url inst
     | Inl e \<Rightarrow> fail_with e
     | Inr _ \<Rightarrow> fail_with (OtherError ''unexpected object'')
   }"

end
