(* ===== verification/Internal_Frame.thy ===== *)
theory Internal_Frame
  imports Dataset_Internal
begin

text \<open>
  What the DatasetInternal reconciler may touch, and what the parts it is built from achieve: frame rules
  for every operation, the effect of \<open>create_if_absent\<close>, and their versions for a calm cluster.
\<close>

section \<open>Keys\<close>

definition pvc_key :: "namespaced_name \<Rightarrow> obj_key" where "pvc_key n = (KPersistentVolumeClaim, n)"
definition secret_key :: "namespaced_name \<Rightarrow> obj_key" where "secret_key n = (KSecret, n)"
definition config_key :: "namespaced_name \<Rightarrow> obj_key" where "config_key n = (KConfigMap, n)"
definition internal_key :: "namespaced_name \<Rightarrow> obj_key" where "internal_key n = (KDatasetInternal, n)"
definition pv_key :: "namespaced_name \<Rightarrow> obj_key" where "pv_key n = (KPersistentVolume, ('''', snd n))"

lemmas key_defs = pvc_key_def secret_key_def config_key_def internal_key_def pv_key_def

text \<open>What the provisioning of a dataset may change, and what its reconciliation may.\<close>

definition work_keys :: "namespaced_name \<Rightarrow> obj_key set" where
  "work_keys n = {pvc_key n, secret_key n, config_key n, pv_key n}"

definition dataset_keys :: "namespaced_name \<Rightarrow> obj_key set" where
  "dataset_keys n = insert (internal_key n) (work_keys n)"

definition name_of :: "DatasetInternal \<Rightarrow> namespaced_name" where
  "name_of cr = (om_namespace (di_meta cr), om_name (di_meta cr))"

lemma dataset_meta_simps [simp]:
  "om_name (dataset_meta cr) = om_name (di_meta cr)"
  "om_namespace (dataset_meta cr) = om_namespace (di_meta cr)"
  "om_finalizers (dataset_meta cr) = []" "om_deletionTimestamp (dataset_meta cr) = None"
  by (simp_all add: dataset_meta_def ObjectMeta_def)

lemma pvc_meta_empty_pvc [simp]: "pvc_meta (empty_pvc m) = m"
  by (simp add: empty_pvc_def)

lemma obj_keys [simp]:
  "obj_key (OPersistentVolume (h3_pv cr u)) = pv_key (name_of cr)"
  "obj_key (OPersistentVolume (nfs_pv cr u)) = pv_key (name_of cr)"
  "obj_key (OPersistentVolume (host_pv cr m t)) = pv_key (name_of cr)"
  "obj_key (OPersistentVolumeClaim (h3_pvc cr m)) = pvc_key (name_of cr)"
  "obj_key (OPersistentVolumeClaim (nfs_pvc cr)) = pvc_key (name_of cr)"
  "obj_key (OPersistentVolumeClaim (host_pvc cr m)) = pvc_key (name_of cr)"
  "obj_key (OPersistentVolumeClaim (cos_pvc cr)) = pvc_key (name_of cr)"
  "obj_key (OPersistentVolumeClaim (remote_pvc cr)) = pvc_key (name_of cr)"
  "obj_key (OSecret (cos_secret cr ks)) = secret_key (name_of cr)"
  "obj_key (OSecret (remote_secret cr e b)) = secret_key (name_of cr)"
  "obj_key (OConfigMap \<lparr>cm_meta = dataset_meta cr, cm_Data = data\<rparr>) = config_key (name_of cr)"
  by (simp_all add: obj_key_def key_of_def key_defs name_of_def h3_pv_def nfs_pv_def host_pv_def
      h3_pvc_def nfs_pvc_def host_pvc_def cos_pvc_def remote_pvc_def cos_secret_def remote_secret_def)

lemma key_of_simps [simp]:
  "key_of KPersistentVolumeClaim n = pvc_key n" "key_of KSecret n = secret_key n"
  "key_of KConfigMap n = config_key n" "key_of KDatasetInternal n = internal_key n"
  "key_of KDataset n = (KDataset, n)" "key_of KService n = (KService, n)" "key_of KJob n = (KJob, n)"
  by (simp_all add: key_of_def key_defs)

lemma key_of_obj: "key_of (kind_of x) (om_namespace (meta_of x), om_name (meta_of x)) = obj_key x"
  by (simp add: obj_key_def)

lemma obj_key_internal: "obj_key (ODatasetInternal cr) = internal_key (name_of cr)"
  by (simp add: obj_key_def key_of_def key_defs name_of_def)

lemma obj_key_update_references [simp]:
  "obj_key (map_meta (\<lambda>m. m\<lparr>om_ownerReferences := rs\<rparr>) x) = obj_key x"
  by (simp add: obj_key_def)

lemma name_of_with_finalizers [simp]: "name_of (with_finalizers f cr) = name_of cr"
  by (simp add: name_of_def with_finalizers_def)

lemma edit_loop_meta: "sec_meta (fst (edit_loop upd labels (s, b))) = sec_meta s"
  by (induction labels arbitrary: s b) auto

section \<open>Frame rules\<close>

lemma frame_fail_with [frame_intros]: "reflp R \<Longrightarrow> state_io_rel R (fail_with e)"
  unfolding fail_with_def by (rule state_io_rel_return)

lemma frame_andthen [frame_intros]:
  "reflp R \<Longrightarrow> transp R \<Longrightarrow> state_io_rel R m \<Longrightarrow> state_io_rel R n \<Longrightarrow> state_io_rel R (andthen m n)"
  unfolding andthen_def by (intro frame_intros) auto

context api_server
begin

lemma frameD:
  assumes "state_io_rel (off K) m" and "run_state m w = (r, w')" and "k \<notin> K"
  shows "view w' k = view w k"
proof -
  have "off K w w'" using assms(1,2) by (auto simp: state_io_rel_def dest!: spec [of _ w])
  then show ?thesis unfolding off_def using assms(3) agree_offD by blast
qed

lemma owned_key: "api_SetControllerReference api own x = Inr y \<Longrightarrow> obj_key y = obj_key x"
  by (auto dest!: set_reference)

lemma frame_owned_by [frame_intros]:
  "(\<And>y. obj_key y = obj_key x \<Longrightarrow> state_io_rel (off K) (f y)) \<Longrightarrow> state_io_rel (off K) (owned_by api cr x f)"
  unfolding owned_by_def by (intro frame_intros) (auto dest: owned_key)

lemma frame_create_if_absent [frame_intros]:
  "obj_key x \<in> K \<Longrightarrow> state_io_rel (off K) (create_if_absent api strict x)"
  unfolding create_if_absent_def by (intro frame_intros) auto

text \<open>What a \<open>Get\<close> returns has the key that was asked for.\<close>

lemma frame_bind_get:
  assumes "\<And>x. obj_key x = key_of k n \<Longrightarrow> state_io_rel (off K) (f (Inr x))"
    and "\<And>e. state_io_rel (off K) (f (Inl e))"
  shows "state_io_rel (off K) (State_Monad.bind (api_Get api k n) f)"
  unfolding state_io_rel_def
proof
  fix w
  obtain r w1 where r: "run_state (api_Get api k n) w = (r, w1)" by fastforce
  have "off K w1 (snd (run_state (f r) w1))"
  proof (cases r)
    case (Inr x)
    then have "obj_key x = key_of k n" using r get_found view_key by blast
    then show ?thesis using assms(1) Inr by (auto simp: state_io_rel_def)
  qed (use assms(2) in \<open>auto simp: state_io_rel_def\<close>)
  then show "off K w (snd (run_state (State_Monad.bind (api_Get api k n) f) w))"
    using r get_view [OF r] by (simp add: off_def)
qed

lemma frame_get_case:
  assumes "\<And>x. obj_key x = key_of k n \<Longrightarrow> state_io_rel (off K) (g x)"
    and "\<And>e. state_io_rel (off K) (h e)"
  shows "state_io_rel (off K) (State_Monad.bind (api_Get api k n) (case_sum h g))"
  by (rule frame_bind_get) (use assms in simp_all)

lemma frame_access [frame_intros]:
  "state_io_rel (off K) (checkAndExtractObjectStorageAccess api cr)"
  unfolding checkAndExtractObjectStorageAccess_def Let_def by (intro frame_intros) auto

lemma frame_config_map [frame_intros]:
  "config_key (name_of cr) \<in> K \<Longrightarrow> state_io_rel (off K) (createConfigMapforDataset api data cr)"
  unfolding createConfigMapforDataset_def by (intro frame_intros) auto

lemma frame_editable [frame_intros]:
  "obj_key (OSecret old) \<in> K \<Longrightarrow> state_io_rel (off K) (checkIfEditableValueChangeAndUpdate api old new)"
proof -
  assume K: "obj_key (OSecret old) \<in> K"
  have "obj_key (OSecret (fst (edit_loop upd ls (old, False)))) = obj_key (OSecret old)" for upd ls
    by (simp add: obj_key_def edit_loop_meta)
  then have "obj_key (OSecret s) = obj_key (OSecret old)" if "edit_loop upd ls (old, False) = (s, b)" for upd ls s b
    using that by (metis fst_conv)
  then show ?thesis
    unfolding checkIfEditableValueChangeAndUpdate_def using K
    by (intro frame_intros) (auto simp del: edit_loop.simps)
qed

lemma frame_cos_secret [frame_intros]:
  assumes "obj_key (OSecret s) \<in> K"
  shows "state_io_rel (off K) (reconcile_cos_secret api s)"
  unfolding reconcile_cos_secret_def
proof (rule frame_bind_get)
  fix x assume "obj_key x = key_of KSecret (om_namespace (sec_meta s), om_name (sec_meta s))"
  then have "obj_key x \<in> K" using assms by (simp add: obj_key_def)
  then show "state_io_rel (off K) (case Inr x of
      Inl e \<Rightarrow> if IsNotFound e then api_Create api (OSecret s) else State_Monad.return (Some e)
    | Inr (OSecret foundSecret) \<Rightarrow> checkIfEditableValueChangeAndUpdate api foundSecret s
    | Inr _ \<Rightarrow> State_Monad.return (Some (OtherError ''unexpected object'')))"
    by (cases x) (auto intro: frame_intros)
qed (auto intro!: frame_intros simp: assms)

lemma frame_COS [frame_intros]:
  "work_keys (name_of cr) \<subseteq> K \<Longrightarrow> state_io_rel (off K) (processLocalDatasetCOS api cr)"
  unfolding processLocalDatasetCOS_def by (intro frame_intros) (auto simp: work_keys_def)

lemma frame_volume [frame_intros]:
  "obj_key (OPersistentVolume pv) \<in> K \<Longrightarrow> obj_key (OPersistentVolumeClaim pvc) \<in> K \<Longrightarrow>
   state_io_rel (off K) (provision_volume api cr pv pvc)"
  unfolding provision_volume_def by (intro frame_intros) auto

lemma frame_NFS [frame_intros]:
  "work_keys (name_of cr) \<subseteq> K \<Longrightarrow> state_io_rel (off K) (processLocalDatasetNFS api cr)"
  unfolding processLocalDatasetNFS_def by (intro frame_intros) (auto simp: work_keys_def)

lemma frame_H3 [frame_intros]:
  "work_keys (name_of cr) \<subseteq> K \<Longrightarrow> state_io_rel (off K) (processLocalDatasetH3 api cr)"
  unfolding processLocalDatasetH3_def by (intro frame_intros) (auto simp: work_keys_def)

lemma frame_HOST [frame_intros]:
  "work_keys (name_of cr) \<subseteq> K \<Longrightarrow> state_io_rel (off K) (processLocalDatasetHOST api cr)"
  unfolding processLocalDatasetHOST_def by (intro frame_intros) (auto simp: work_keys_def)

lemma frame_address [frame_intros]: "state_io_rel (off K) (catalog_address api cr)"
  unfolding catalog_address_def by (intro frame_intros) auto

lemma frame_pvc [frame_intros]:
  "work_keys (name_of cr) \<subseteq> K \<Longrightarrow> state_io_rel (off K) (createPVCforObjectStorage api cr)"
  unfolding createPVCforObjectStorage_def by (intro frame_intros) (auto simp: work_keys_def)

lemma frame_provision_remote [frame_intros]:
  "work_keys (name_of cr) \<subseteq> K \<Longrightarrow> state_io_rel (off K) (provision_remote api cr a t e m bs)"
  unfolding provision_remote_def Let_def by (intro frame_intros) (auto simp: work_keys_def)

lemma frame_finalize [frame_intros]:
  assumes "dataset_keys n \<subseteq> K" and "name_of cr = n"
  shows "state_io_rel (off K) (finalize_internal api n cr)"
  unfolding finalize_internal_def
proof (rule state_io_rel_if; (rule frame_get_case)?)
  fix e
  show "state_io_rel (off K) (if \<not> IsNotFound e then fail_with e
     else do {
       found \<leftarrow> api_Get api KSecret n;
       case found of
         Inr secret \<Rightarrow> do { _ \<leftarrow> api_Delete api secret; State_Monad.return (ResultRequeue, None) }
       | Inl e \<Rightarrow>
           if \<not> IsNotFound e then fail_with e
           else do {
             err \<leftarrow> api_Update api (ODatasetInternal (with_finalizers (removeAll datasetFinalizer) cr));
             State_Monad.return (Result, err)
           }
     })"
  proof (rule state_io_rel_if; (rule frame_get_case)?)
    fix e
    show "state_io_rel (off K) (if \<not> IsNotFound e then fail_with e
      else do {
        err \<leftarrow> api_Update api (ODatasetInternal (with_finalizers (removeAll datasetFinalizer) cr));
        State_Monad.return (Result, err)
      })"
      using assms by (intro frame_intros) (auto simp: obj_key_internal dataset_keys_def)
  qed (use assms in \<open>auto intro!: frame_intros simp: dataset_keys_def work_keys_def\<close>)
qed (use assms in \<open>auto intro!: frame_intros simp: dataset_keys_def work_keys_def\<close>)

end

context catalog
begin

lemma frame_remote [frame_intros]:
  "work_keys (name_of cr) \<subseteq> K \<Longrightarrow> state_io_rel (off K) (processRemoteDataset api hms parse_url cr)"
  unfolding processRemoteDataset_def
  by (intro frame_intros) (auto split: list.splits intro!: frame_intros)

lemma frame_process [frame_intros]:
  assumes "work_keys (name_of cr) \<subseteq> K"
  shows "state_io_rel (off K) (process_dataset api hms parse_url cr)"
proof -
  have "state_io_rel (off K) (f cr)" if "map_of (datasetLocalProcessTable api) t = Some f" for t f
    using that assms
    by (auto simp: datasetLocalProcessTable_def split: if_splits intro: frame_intros)
  then show ?thesis
    unfolding process_dataset_def using assms by (intro frame_intros) auto
qed

lemma frame_reconcile:
  "state_io_rel (off (dataset_keys n)) (ReconcileInternal api hms parse_url n)"
  unfolding ReconcileInternal_def
proof (rule frame_bind_get)
  fix x assume x: "obj_key x = key_of KDatasetInternal n"
  show "state_io_rel (off (dataset_keys n)) (case Inr x of
      Inr (ODatasetInternal inst) \<Rightarrow>
        if needs_finalizer inst then do { err \<leftarrow> addFinalizer api inst; State_Monad.return (Result, err) }
        else if om_deletionTimestamp (di_meta inst) \<noteq> None then finalize_internal api n inst
        else process_dataset api hms parse_url inst
    | Inl e \<Rightarrow> fail_with e
    | Inr _ \<Rightarrow> fail_with (OtherError ''unexpected object''))"
  proof (cases x)
    case (ODatasetInternal inst)
    then have "name_of inst = n" using x by (simp add: obj_key_internal internal_key_def)
    then show ?thesis
      using ODatasetInternal unfolding addFinalizer_def
      by (auto intro!: frame_intros simp: obj_key_internal dataset_keys_def)
  qed (auto intro!: frame_intros)
qed (auto intro!: frame_intros)

end

end
