(* ===== verification/Internal_Proofs.thy ===== *)
theory Internal_Proofs
  imports Internal_Frame
begin

text \<open>
  The effects of the DatasetInternal reconciler: from the laws of the API server to what a successful run
  of each operation has done, and, in a calm cluster, what every run does.
\<close>

section \<open>Running the combinators\<close>

lemma run_fail_with [simp]: "run_state (fail_with e) w = ((Result, Some e), w)"
  by (simp add: fail_with_def)

lemma run_andthen:
  "run_state (andthen m n) w =
     (case run_state m w of (None, w1) \<Rightarrow> run_state n w1 | (Some e, w1) \<Rightarrow> ((Result, Some e), w1))"
  by (simp add: andthen_def split: prod.splits option.splits)

lemma andthen_ok:
  "run_state (andthen m n) w = ((res, None), w') \<longleftrightarrow>
     (\<exists>w1. run_state m w = (None, w1) \<and> run_state n w1 = ((res, None), w'))"
  by (auto simp: run_andthen split: prod.splits option.splits)

lemma owned_by_ok:
  "run_state (owned_by api cr x f) w = ((res, None), w') \<longleftrightarrow>
     (\<exists>y. api_SetControllerReference api (ODatasetInternal cr) x = Inr y \<and> run_state (f y) w = ((res, None), w'))"
  by (auto simp: owned_by_def split: sum.splits)

lemmas success_simps = andthen_ok owned_by_ok

text \<open>\<open>x\<close> is there, or it was created.\<close>

definition ensured :: "k8s_object \<Rightarrow> cluster \<Rightarrow> cluster \<Rightarrow> bool" where
  "ensured x v v' \<longleftrightarrow> (if v (obj_key x) = None then created x v v' else v' = v)"

lemma ensured_present: "ensured x v v' \<Longrightarrow> v' (obj_key x) \<noteq> None"
  by (auto simp: ensured_def created_def split: if_splits)

lemma ensured_agree: "ensured x v v' \<Longrightarrow> agree_off {obj_key x} v v'"
  by (auto simp: ensured_def intro: created_agree split: if_splits)

lemma ensured_other: "ensured x v v' \<Longrightarrow> k \<noteq> obj_key x \<Longrightarrow> v' k = v k"
  by (metis agree_off_def ensured_agree singletonD)

lemma ensured_kept: "ensured x v v' \<Longrightarrow> v k = Some y \<Longrightarrow> v' k = Some y"
  by (cases "k = obj_key x") (auto simp: ensured_def created_def split: if_splits)

section \<open>Secrets\<close>

lemma fold_mset_key:
  "distinct (map fst sd) \<Longrightarrow> map_of (fold (\<lambda>(k, v). mset_key k v) sd d) = map_of d ++ map_of sd"
proof (induction sd arbitrary: d)
  case (Cons p sd)
  obtain a b where p: "p = (a, b)" by fastforce
  have "a \<notin> dom (map_of sd)" using Cons.prems by (simp add: p dom_map_of_conv_image_fst)
  note a = map_add_upd_left [OF this]
  have "map_of (fold (\<lambda>(k, v). mset_key k v) (p # sd) d) = map_of (mset_key a b d) ++ map_of sd"
    using Cons by (simp add: p del: map_of_mset_key)
  also have "\<dots> = (map_of d ++ map_of sd)(a \<mapsto> b)" by (simp only: map_of_mset_key a)
  finally show ?case by (simp only: p map_of.simps map_add_upd fst_conv snd_conv)
qed simp

lemma payload_secret:
  assumes "payload y = payload (OSecret s)" and "stored_form y" and "distinct (map fst (sec_StringData s))"
  obtains s' where "y = OSecret s'" "map_of (sec_Data s') = map_of (sec_Data s) ++ map_of (sec_StringData s)"
proof (cases y)
  case (OSecret s')
  then have "fold_string_data s'\<lparr>sec_meta := strip_meta (sec_meta (fold_string_data s'))\<rparr> =
      fold_string_data s\<lparr>sec_meta := strip_meta (sec_meta (fold_string_data s))\<rparr>"
    using assms(1) by (simp add: payload_def)
  from arg_cong [OF this, of sec_Data]
  have "sec_Data s' = fold (\<lambda>(k, v). mset_key k v) (sec_StringData s) (sec_Data s)"
    using assms(2) OSecret by (simp add: fold_string_data_def stored_form_def)
  then show ?thesis using that OSecret fold_mset_key [OF assms(3)] by simp
qed (use assms in \<open>auto simp: payload_def\<close>)

lemma decoded_value_eq [simp]: "decoded_value data label = mget data label"
  by (simp add: decoded_value_def b64_decode_encode)

lemma cos_secret_simps [simp]:
  "sec_Data (cos_secret cr ks) = []" "distinct (map fst (sec_StringData (cos_secret cr ks)))"
  "mget (sec_StringData (cos_secret cr ks)) ''remove-on-delete'' = cos_remove_on_delete cr"
  by (simp_all add: cos_secret_def)

text \<open>The credentials a dataset may use: those of a secret of its own namespace, or those in its spec.\<close>

definition credentials_of :: "cluster \<Rightarrow> DatasetInternal \<Rightarrow> (string \<times> string) option" where
  "credentials_of v cr =
     (if secret_ok cr then
        case v (secret_key (om_namespace (di_meta cr), mget (spec_local cr) ''secret-name'')) of
          Some (OSecret s) \<Rightarrow> secret_keys (sec_Data s)
        | _ \<Rightarrow> None
      else secret_keys (spec_local cr))"

text \<open>The data of the secret of a dataset after a run: of an existing secret only one key changes.\<close>

definition merged_secret :: "k8s_object option \<Rightarrow> smap \<Rightarrow> string \<Rightarrow> string option" where
  "merged_secret old new =
     (case old of
        Some (OSecret s) \<Rightarrow>
          if mget (sec_Data s) ''remove-on-delete'' = mget new ''remove-on-delete'' then map_of (sec_Data s)
          else (map_of (sec_Data s))(''remove-on-delete'' \<mapsto> mget new ''remove-on-delete'')
      | _ \<Rightarrow> map_of new)"

lemma merged_secret_remove:
  "map_of d = merged_secret old new \<Longrightarrow> mget d ''remove-on-delete'' = mget new ''remove-on-delete''"
  by (auto simp: merged_secret_def mget_def split: option.splits k8s_object.splits if_splits)

lemma merged_secret_other:
  "map_of d = merged_secret (Some (OSecret s)) new \<Longrightarrow> k \<noteq> ''remove-on-delete'' \<Longrightarrow>
   map_of d k = map_of (sec_Data s) k"
  by (simp add: merged_secret_def)

context api_server
begin

lemma create_if_absent_ok:
  assumes "run_state (create_if_absent api strict x) w = (None, w')"
  shows "ensured x (view w) (view w') \<or> \<not> strict \<and> view w' = view w"
  using assms unfolding create_if_absent_def ensured_def
  by (auto simp: key_of_obj split: prod.splits sum.splits if_splits
      dest!: create_ok dest: get_view get_missing get_found)

lemmas create_strict_ok = create_if_absent_ok [where strict = True, simplified]

lemma access_ok:
  "run_state (checkAndExtractObjectStorageAccess api cr) w = (Inr ks, w') \<Longrightarrow>
   credentials_of (view w) cr = Some ks \<and> view w' = view w"
  unfolding checkAndExtractObjectStorageAccess_def credentials_of_def Let_def
  by (auto split: if_splits prod.splits sum.splits k8s_object.splits option.splits
      dest: get_view get_found)

lemma cos_secret_ok:
  assumes "run_state (reconcile_cos_secret api s) w = (None, w')"
    and s: "sec_Data s = []" "distinct (map fst (sec_StringData s))"
  shows "\<exists>s'. view w' (obj_key (OSecret s)) = Some (OSecret s') \<and> agree_off {obj_key (OSecret s)} (view w) (view w') \<and>
    map_of (sec_Data s') = merged_secret (view w (obj_key (OSecret s))) (sec_StringData s)"
proof -
  let ?k = "obj_key (OSecret s)"
  have key: "key_of KSecret (om_namespace (sec_meta s), om_name (sec_meta s)) = ?k"
    by (simp add: obj_key_def)
  obtain r w1 where get: "run_state (api_Get api KSecret (om_namespace (sec_meta s), om_name (sec_meta s))) w = (r, w1)"
    by fastforce
  note v1 = get_view [OF get]
  show ?thesis
  proof (cases r)
    case (Inl e)
    then have "IsNotFound e" "run_state (api_Create api (OSecret s)) w1 = (None, w')"
      using assms(1) get by (auto simp: reconcile_cos_secret_def split: if_splits)
    moreover have "view w ?k = None" using get get_missing Inl calculation(1) key by metis
    ultimately obtain y where y: "view w' = (view w)(?k \<mapsto> y)" "payload y = payload (OSecret s)"
      using create_ok [of "OSecret s" w1 w'] v1 unfolding created_def by auto
    then have "stored_form y" using view_stored [of w' ?k y] by simp
    from payload_secret [OF y(2) this s(2)] obtain s' where "y = OSecret s'"
      "map_of (sec_Data s') = map_of (sec_StringData s)" by (auto simp: s(1))
    moreover have "agree_off {?k} (view w) (view w')" using y by (simp add: agree_off_def)
    ultimately show ?thesis using y \<open>view w ?k = None\<close> by (simp add: merged_secret_def)
  next
    case (Inr x)
    then obtain old where old: "x = OSecret old"
      and run: "run_state (checkIfEditableValueChangeAndUpdate api old s) w1 = (None, w')"
      using assms(1) get by (auto simp: reconcile_cos_secret_def split: k8s_object.splits)
    have v: "view w ?k = Some (OSecret old)" using get_found [of KSecret] get Inr old key by metis
    have old_key: "obj_key (OSecret old) = ?k" using view_key [OF v] .
    have plain_old: "sec_StringData old = []" using view_stored [OF v] by (simp add: stored_form_def)
    let ?v = "mget (sec_StringData s) ''remove-on-delete''"
    show ?thesis
    proof (cases "mget (sec_Data old) ''remove-on-delete'' = ?v")
      case True
      then have "w' = w1" using run by (simp add: checkIfEditableValueChangeAndUpdate_def)
      then show ?thesis using v v1 True by (simp add: merged_secret_def)
    next
      case False
      define new where "new = old\<lparr>sec_StringData := [(''remove-on-delete'', ?v)]\<rparr>"
      have upd: "run_state (api_Update api (OSecret new)) w1 = (None, w')"
        using run False plain_old
        by (simp add: checkIfEditableValueChangeAndUpdate_def new_def mset_key_def)
      have k: "obj_key (OSecret new) = ?k" using old_key by (simp add: new_def obj_key_def)
      have "updated (OSecret new) (view w) (view w')" using update_ok [OF upd] v1 by simp
      moreover have "\<not> (deletion_of (OSecret old) \<noteq> None \<and> finalizers_of (OSecret new) = [])"
        using view_stored [OF v] by (auto simp: stored_form_def new_def)
      ultimately obtain y where y: "view w' = (view w)(?k \<mapsto> y)" "payload y = payload (OSecret new)"
        using v k unfolding updated_def by (auto split: if_splits)
      then have "stored_form y" using view_stored [of w' ?k y] by simp
      then obtain s' where "y = OSecret s'"
        "map_of (sec_Data s') = (map_of (sec_Data old))(''remove-on-delete'' \<mapsto> ?v)"
        using payload_secret [OF y(2)] by (auto simp: new_def)
      moreover have "agree_off {?k} (view w) (view w')" using y by (simp add: agree_off_def)
      ultimately show ?thesis using y v False by (simp add: merged_secret_def)
    qed
  qed
qed

text \<open>The chain of a successful run for object storage.\<close>

lemma COS_chain:
  assumes "run_state (processLocalDatasetCOS api cr) w = ((res, None), w')"
  obtains ks cm v1 v2 where "credentials_of (view w) cr = Some ks"
    "api_SetControllerReference api (ODatasetInternal cr)
       (OConfigMap \<lparr>cm_meta = dataset_meta cr, cm_Data = cos_config cr\<rparr>) = Inr cm"
    "ensured cm (view w) v1" "ensured (OPersistentVolumeClaim (cos_pvc cr)) v1 v2"
    "\<exists>w2. view w2 = v2 \<and> run_state (reconcile_cos_secret api (cos_secret cr ks)) w2 = (None, w')"
    "res = Result"
proof -
  obtain ks w0 r w1 where access: "run_state (checkAndExtractObjectStorageAccess api cr) w = (Inr ks, w0)"
    and cm: "run_state (createConfigMapforDataset api (cos_config cr) cr) w0 = ((r, None), w1)"
    and rest: "run_state (andthen (create_if_absent api True (OPersistentVolumeClaim (cos_pvc cr)))
       (andthen (reconcile_cos_secret api (cos_secret cr ks)) (State_Monad.return (Result, None)))) w1 = ((res, None), w')"
    using assms by (auto simp: processLocalDatasetCOS_def split: prod.splits sum.splits option.splits)
  obtain y where y: "api_SetControllerReference api (ODatasetInternal cr)
      (OConfigMap \<lparr>cm_meta = dataset_meta cr, cm_Data = cos_config cr\<rparr>) = Inr y"
    "run_state (create_if_absent api True y) w0 = (None, w1)"
    using cm by (auto simp: createConfigMapforDataset_def success_simps)
  obtain w2 where w2: "run_state (create_if_absent api True (OPersistentVolumeClaim (cos_pvc cr))) w1 = (None, w2)"
    "run_state (reconcile_cos_secret api (cos_secret cr ks)) w2 = (None, w')" "res = Result"
    using rest by (auto simp: success_simps)
  show ?thesis
    using that [of ks y "view w1" "view w2"] access_ok [OF access] y create_strict_ok [OF y(2)]
      create_strict_ok [OF w2(1)] w2 by auto
qed

end

section \<open>A calm cluster\<close>

context calm_api_server
begin

lemma create_calm:
  assumes "calm w" and "run_state (create_if_absent api strict x) w = (e, w')"
  shows "e = None \<and> calm w' \<and> ensured x (view w) (view w')"
  using assms(1)
proof (cases rule: calm_get_cases [where k = "kind_of x" and n = "(om_namespace (meta_of x), om_name (meta_of x))"])
  case (1 e0 w1)
  then have create: "run_state (api_Create api x) w1 = (e, w')"
    using assms(2) by (simp add: create_if_absent_def)
  have none: "view w1 (obj_key x) = None" using 1 by (simp add: key_of_obj)
  then have "e = None" "calm w'" using calm_create [OF 1(5) create] by auto
  then show ?thesis
    using create_ok [of x w1 w'] create none 1(4) by (simp add: ensured_def)
next
  case (2 y w1)
  then have "e = None" "w' = w1" using assms(2) by (auto simp: create_if_absent_def)
  then show ?thesis using 2 by (simp add: ensured_def key_of_obj)
qed

lemma andthen_create_calm:
  assumes "calm w"
  obtains w1 where "run_state (andthen (create_if_absent api strict x) n) w = run_state n w1"
    "calm w1" "ensured x (view w) (view w1)"
proof -
  obtain e w1 where r: "run_state (create_if_absent api strict x) w = (e, w1)" by fastforce
  then show ?thesis using create_calm [OF assms r] that [of w1] by (simp add: run_andthen)
qed

lemma owned_by_calm:
  obtains y where "owned_by api cr x f = f y" "obj_key y = obj_key x" "payload y \<noteq> payload x \<or> payload y = payload x"
  using calm_set_reference [of "ODatasetInternal cr" x] owned_key by (auto simp: owned_by_def)

lemma access_calm:
  assumes "calm w"
  obtains w' where "calm w'" "view w' = view w" "run_state (checkAndExtractObjectStorageAccess api cr) w =
    (case credentials_of (view w) cr of
       None \<Rightarrow> Inl (BadRequest ''No useable secret provided for authentication'') | Some ks \<Rightarrow> Inr ks, w')"
proof (cases "secret_ok cr")
  case False
  then show ?thesis using that [OF assms]
    by (auto simp: checkAndExtractObjectStorageAccess_def credentials_of_def split: option.splits)
next
  case True
  show ?thesis
    using assms
  proof (cases rule: calm_get_cases
      [where k = KSecret and n = "(om_namespace (di_meta cr), mget (spec_local cr) ''secret-name'')"])
    case (1 e w1)
    then show ?thesis using True that [of w1]
      by (simp add: checkAndExtractObjectStorageAccess_def credentials_of_def Let_def)
  next
    case (2 x w1)
    then have "kind_of x = KSecret" using view_key by (fastforce simp: obj_key_def key_of_def secret_key_def split: if_splits)
    then obtain s where "x = OSecret s" by (cases x) auto
    then show ?thesis using 2 True that [of w1]
      by (simp add: checkAndExtractObjectStorageAccess_def credentials_of_def Let_def split: option.splits)
  qed
qed

end

end
