(* ===== verification/Internal_Controller.thy ===== *)
theory Internal_Controller
  imports Internal_Proofs
begin

text \<open>
  The properties of the DatasetInternal reconciler: which objects it touches, where credentials come from,
  what a successful run has provisioned, that a second run changes nothing, and the life of the finalizer.
\<close>

section \<open>Settled datasets\<close>

text \<open>A dataset whose objects are all there, so that its provisioning has nothing to do.\<close>

definition cos_settled :: "cluster \<Rightarrow> DatasetInternal \<Rightarrow> bool" where
  "cos_settled v cr \<longleftrightarrow> credentials_of v cr \<noteq> None \<and> v (config_key (name_of cr)) \<noteq> None \<and>
     v (pvc_key (name_of cr)) \<noteq> None \<and>
     (\<exists>s. v (secret_key (name_of cr)) = Some (OSecret s) \<and>
          mget (sec_Data s) ''remove-on-delete'' = cos_remove_on_delete cr)"

lemma key_distinct [simp]:
  "pvc_key a \<noteq> config_key b" "config_key b \<noteq> pvc_key a" "pvc_key a \<noteq> secret_key b" "secret_key b \<noteq> pvc_key a"
  "config_key a \<noteq> secret_key b" "secret_key b \<noteq> config_key a" "pv_key a \<noteq> pvc_key b" "pvc_key b \<noteq> pv_key a"
  "internal_key a \<noteq> pvc_key b" "pvc_key b \<noteq> internal_key a" "internal_key a \<noteq> secret_key b"
  "secret_key b \<noteq> internal_key a" "pv_key a \<noteq> secret_key b" "pv_key a \<noteq> config_key b"
  "internal_key a \<noteq> config_key b" "internal_key a \<noteq> pv_key b"
  "pvc_key a = pvc_key b \<longleftrightarrow> a = b" "secret_key a = secret_key b \<longleftrightarrow> a = b"
  "internal_key a = internal_key b \<longleftrightarrow> a = b" "config_key a = config_key b \<longleftrightarrow> a = b"
  by (auto simp: key_defs)

lemma internal_not_work [simp]: "internal_key n \<notin> work_keys m"
  by (simp add: work_keys_def)

lemma secret_keys_cong:
  "map_of d ''accessKeyID'' = map_of d' ''accessKeyID'' \<Longrightarrow>
   map_of d ''secretAccessKey'' = map_of d' ''secretAccessKey'' \<Longrightarrow> secret_keys d = secret_keys d'"
  by (simp add: secret_keys_def mhas_def mget_def)

context api_server
begin

lemma COS_settles:
  assumes "run_state (processLocalDatasetCOS api cr) w = ((res, None), w')"
  shows "cos_settled (view w') cr"
proof -
  obtain ks cm v1 v2 w2 where cred: "credentials_of (view w) cr = Some ks"
    and cm: "api_SetControllerReference api (ODatasetInternal cr)
       (OConfigMap \<lparr>cm_meta = dataset_meta cr, cm_Data = cos_config cr\<rparr>) = Inr cm" "ensured cm (view w) v1"
    and pvc: "ensured (OPersistentVolumeClaim (cos_pvc cr)) v1 (view w2)"
    and sec: "run_state (reconcile_cos_secret api (cos_secret cr ks)) w2 = (None, w')"
    using COS_chain [OF assms] by metis
  have cmk: "obj_key cm = config_key (name_of cr)" using owned_key [OF cm(1)] by simp
  have keep: "view w2 k = view w k" if "k \<noteq> config_key (name_of cr)" "k \<noteq> pvc_key (name_of cr)" for k
    using ensured_other [OF cm(2)] ensured_other [OF pvc] that cmk by simp
  have cm2: "view w2 (config_key (name_of cr)) \<noteq> None"
    using ensured_present [OF cm(2)] ensured_other [OF pvc] cmk by simp
  have pvc2: "view w2 (pvc_key (name_of cr)) \<noteq> None" using ensured_present [OF pvc] by simp
  obtain s' where s': "view w' (secret_key (name_of cr)) = Some (OSecret s')"
    and agree: "agree_off {secret_key (name_of cr)} (view w2) (view w')"
    and data: "map_of (sec_Data s') = merged_secret (view w2 (secret_key (name_of cr))) (sec_StringData (cos_secret cr ks))"
    using cos_secret_ok [OF sec] by auto
  have "mget (sec_Data s') ''remove-on-delete'' = cos_remove_on_delete cr"
    using merged_secret_remove [OF data] by simp
  moreover have "credentials_of (view w') cr \<noteq> None"
  proof (cases "secret_ok cr")
    case True
    let ?k = "secret_key (om_namespace (di_meta cr), mget (spec_local cr) ''secret-name'')"
    from cred True obtain s where s: "view w ?k = Some (OSecret s)" "secret_keys (sec_Data s) \<noteq> None"
      by (auto simp: credentials_of_def split: option.splits k8s_object.splits)
    have v2: "view w2 ?k = Some (OSecret s)" using keep [of ?k] s by simp
    show ?thesis
    proof (cases "?k = secret_key (name_of cr)")
      case True
      then have "secret_keys (sec_Data s') = secret_keys (sec_Data s)"
        using merged_secret_other [OF data [folded True, unfolded v2]] by (intro secret_keys_cong) simp_all
      then show ?thesis using s s' True \<open>secret_ok cr\<close> by (simp add: credentials_of_def)
    next
      case False
      then have "view w' ?k = Some (OSecret s)" using v2 agree_offD [OF agree, of ?k] by simp
      then show ?thesis using s \<open>secret_ok cr\<close> by (simp add: credentials_of_def)
    qed
  qed (use cred in \<open>simp add: credentials_of_def\<close>)
  ultimately show ?thesis
    using s' cm2 pvc2 agree_offD [OF agree, of "config_key (name_of cr)"]
      agree_offD [OF agree, of "pvc_key (name_of cr)"] by (auto simp: cos_settled_def)
qed

end

context calm_api_server
begin

lemma create_present:
  assumes "calm w" and "view w (obj_key x) \<noteq> None"
  obtains w' where "run_state (create_if_absent api strict x) w = (None, w')" "calm w'" "view w' = view w"
proof -
  obtain e w' where r: "run_state (create_if_absent api strict x) w = (e, w')" by fastforce
  show ?thesis using create_calm [OF assms(1) r] that r assms(2) by (auto simp: ensured_def)
qed

lemma reference: obtains y where "api_SetControllerReference api own x = Inr y" "obj_key y = obj_key x"
  using calm_set_reference [of own x] owned_key by blast

lemma COS_noop:
  assumes "calm w" and "cos_settled (view w) cr"
  shows "\<exists>w'. run_state (processLocalDatasetCOS api cr) w = ((Result, None), w') \<and> calm w' \<and> view w' = view w"
proof -
  from assms obtain ks s where ks: "credentials_of (view w) cr = Some ks"
    and s: "view w (secret_key (name_of cr)) = Some (OSecret s)"
      "mget (sec_Data s) ''remove-on-delete'' = cos_remove_on_delete cr"
    and there: "view w (config_key (name_of cr)) \<noteq> None" "view w (pvc_key (name_of cr)) \<noteq> None"
    by (auto simp: cos_settled_def)
  obtain w1 where w1: "calm w1" "view w1 = view w"
    "run_state (checkAndExtractObjectStorageAccess api cr) w = (Inr ks, w1)"
    using access_calm [OF assms(1), of cr] ks by (metis option.simps(5))
  obtain cm where cm: "api_SetControllerReference api (ODatasetInternal cr)
      (OConfigMap \<lparr>cm_meta = dataset_meta cr, cm_Data = cos_config cr\<rparr>) = Inr cm"
    "obj_key cm = config_key (name_of cr)"
    using reference [of "ODatasetInternal cr" "OConfigMap \<lparr>cm_meta = dataset_meta cr, cm_Data = cos_config cr\<rparr>"]
    by auto
  obtain w2 where w2: "run_state (create_if_absent api True cm) w1 = (None, w2)" "calm w2" "view w2 = view w"
    using create_present [OF w1(1), of cm] there cm w1 by metis
  obtain w3 where w3: "run_state (create_if_absent api True (OPersistentVolumeClaim (cos_pvc cr))) w2 = (None, w3)"
    "calm w3" "view w3 = view w"
    using create_present [OF w2(2), of "OPersistentVolumeClaim (cos_pvc cr)"] there w2
    by (metis obj_keys(7))
  have sk: "key_of KSecret (om_namespace (sec_meta (cos_secret cr ks)), om_name (sec_meta (cos_secret cr ks))) =
      secret_key (name_of cr)"
    by (simp add: cos_secret_def name_of_def)
  obtain w4 where w4: "run_state (reconcile_cos_secret api (cos_secret cr ks)) w3 = (None, w4)" "calm w4" "view w4 = view w"
    using w3(2)
  proof (cases rule: calm_get_cases [where k = KSecret and
      n = "(om_namespace (sec_meta (cos_secret cr ks)), om_name (sec_meta (cos_secret cr ks)))"])
    case (2 x w4)
    then have "x = OSecret s" using s w3 sk by simp
    then show ?thesis
      using that [of w4] 2 s w3 by (simp add: reconcile_cos_secret_def checkIfEditableValueChangeAndUpdate_def)
  qed (use s w3 sk in simp)
  show ?thesis
    using w1 w2 w3 w4 cm
    by (simp add: processLocalDatasetCOS_def createConfigMapforDataset_def owned_by_def run_andthen)
qed

text \<open>The volume and claim of an H3, NFS or HOST dataset.\<close>

lemma volume_calm:
  assumes "calm w"
  obtains w' pv' pvc' v1 where "run_state (provision_volume api cr pv pvc) w = ((Result, None), w')" "calm w'"
    "api_SetControllerReference api (ODatasetInternal cr) (OPersistentVolume pv) = Inr pv'"
    "api_SetControllerReference api (ODatasetInternal cr) (OPersistentVolumeClaim pvc) = Inr pvc'"
    "ensured pv' (view w) v1" "ensured pvc' v1 (view w')"
proof -
  obtain pv' where pv': "api_SetControllerReference api (ODatasetInternal cr) (OPersistentVolume pv) = Inr pv'"
    using reference by blast
  obtain pvc' where pvc': "api_SetControllerReference api (ODatasetInternal cr) (OPersistentVolumeClaim pvc) = Inr pvc'"
    using reference by blast
  obtain e1 w1 where r1: "run_state (create_if_absent api True pv') w = (e1, w1)" by fastforce
  obtain e2 w2 where r2: "run_state (create_if_absent api False pvc') w1 = (e2, w2)" by fastforce
  note c1 = create_calm [OF assms r1]
  then have c2: "e2 = None \<and> calm w2 \<and> ensured pvc' (view w1) (view w2)" using create_calm [OF _ r2] by blast
  have "run_state (provision_volume api cr pv pvc) w = ((Result, None), w2)"
    using r1 r2 pv' pvc' c1 c2 by (simp add: provision_volume_def owned_by_def run_andthen)
  then show ?thesis using that pv' pvc' c1 c2 by blast
qed

end

section \<open>Settled for every type\<close>

text \<open>The specification of an H3 or HOST dataset is accepted.\<close>

definition valid_h3 :: "DatasetInternal \<Rightarrow> bool" where
  "valid_h3 cr \<longleftrightarrow> mget (spec_local cr) ''storageUri'' \<noteq> '''' \<and> (\<exists>p. dataset_permissions (spec_local cr) = Inr p)"

definition valid_host :: "DatasetInternal \<Rightarrow> bool" where
  "valid_host cr \<longleftrightarrow> mget (spec_local cr) ''path'' \<noteq> '''' \<and> (\<exists>p. dataset_permissions (spec_local cr) = Inr p) \<and>
     (\<exists>t. host_path_type_of (spec_local cr) = Inr t)"

definition volume_there :: "cluster \<Rightarrow> namespaced_name \<Rightarrow> bool" where
  "volume_there v n \<longleftrightarrow> v (pv_key n) \<noteq> None \<and> v (pvc_key n) \<noteq> None"

definition settled :: "cluster \<Rightarrow> DatasetInternal \<Rightarrow> bool" where
  "settled v cr \<longleftrightarrow>
     (let t = mget (spec_local cr) ''type'' in
      t = ''COS'' \<and> cos_settled v cr \<or> t = ''NFS'' \<and> v (pvc_key (name_of cr)) \<noteq> None \<or>
      t = ''HOST'' \<and> valid_host cr \<and> volume_there v (name_of cr) \<or>
      t = ''H3'' \<and> valid_h3 cr \<and> volume_there v (name_of cr))"

context calm_api_server
begin

lemma volume_settles:
  assumes "calm w" and "obj_key (OPersistentVolume pv) = pv_key n" and "obj_key (OPersistentVolumeClaim pvc) = pvc_key n"
  obtains w' where "run_state (provision_volume api cr pv pvc) w = ((Result, None), w')" "calm w'"
    "volume_there (view w') n" "volume_there (view w) n \<Longrightarrow> view w' = view w"
proof -
  obtain w' pv' pvc' v1 where r: "run_state (provision_volume api cr pv pvc) w = ((Result, None), w')" "calm w'"
    "api_SetControllerReference api (ODatasetInternal cr) (OPersistentVolume pv) = Inr pv'"
    "api_SetControllerReference api (ODatasetInternal cr) (OPersistentVolumeClaim pvc) = Inr pvc'"
    "ensured pv' (view w) v1" "ensured pvc' v1 (view w')"
    by (rule volume_calm [OF assms(1)])
  have k: "obj_key pv' = pv_key n" "obj_key pvc' = pvc_key n"
    using owned_key [OF r(3)] owned_key [OF r(4)] assms by auto
  have "view w' (pv_key n) \<noteq> None" "view w' (pvc_key n) \<noteq> None"
    using ensured_present [OF r(5)] ensured_present [OF r(6)] ensured_other [OF r(6), of "pv_key n"] k by auto
  moreover have "volume_there (view w) n \<Longrightarrow> view w' = view w"
    using r(5,6) k by (auto simp: volume_there_def ensured_def)
  ultimately show ?thesis using that r by (simp add: volume_there_def)
qed

lemma uuid_calm:
  assumes "calm w"
  obtains u w' where "run_state (api_NewUUID api) w = (u, w')" "calm w'" "view w' = view w"
  using that calm_new_uuid [OF assms] new_uuid_view by (metis surj_pair)

lemma H3_calm:
  assumes "calm w"
  obtains e w' where "run_state (processLocalDatasetH3 api cr) w = ((Result, e), w')" "calm w'"
    "e = None \<longleftrightarrow> valid_h3 cr" "e = None \<Longrightarrow> volume_there (view w') (name_of cr)"
    "volume_there (view w) (name_of cr) \<Longrightarrow> view w' = view w"
proof (cases "mget (spec_local cr) ''storageUri'' = '''' \<or> isl (dataset_permissions (spec_local cr))")
  case True
  then have "\<exists>e. run_state (processLocalDatasetH3 api cr) w = ((Result, Some e), w)"
    by (auto simp: processLocalDatasetH3_def isl_def)
  then obtain e where "run_state (processLocalDatasetH3 api cr) w = ((Result, Some e), w)" by blast
  then show ?thesis using that [of "Some e" w] True assms by (auto simp: valid_h3_def isl_def)
next
  case False
  then obtain p where p: "dataset_permissions (spec_local cr) = Inr p" "mget (spec_local cr) ''storageUri'' \<noteq> ''''"
    by (cases "dataset_permissions (spec_local cr)") auto
  obtain u w1 where u: "run_state (api_NewUUID api) w = (u, w1)" "calm w1" "view w1 = view w"
    by (rule uuid_calm [OF assms])
  obtain w' where "run_state (provision_volume api cr (h3_pv cr u) (h3_pvc cr p)) w1 = ((Result, None), w')" "calm w'"
    "volume_there (view w') (name_of cr)" "volume_there (view w1) (name_of cr) \<Longrightarrow> view w' = view w1"
    by (rule volume_settles [OF u(2), of "h3_pv cr u" "name_of cr" "h3_pvc cr p" cr]) simp_all
  then show ?thesis using that [of None w'] p u by (auto simp: processLocalDatasetH3_def valid_h3_def)
qed

lemma HOST_calm:
  assumes "calm w"
  obtains e w' where "run_state (processLocalDatasetHOST api cr) w = ((Result, e), w')" "calm w'"
    "e = None \<longleftrightarrow> valid_host cr" "e = None \<Longrightarrow> volume_there (view w') (name_of cr)"
    "volume_there (view w) (name_of cr) \<Longrightarrow> view w' = view w"
proof (cases "mget (spec_local cr) ''path'' = '''' \<or> isl (dataset_permissions (spec_local cr)) \<or>
    isl (host_path_type_of (spec_local cr))")
  case True
  then have "\<exists>e. run_state (processLocalDatasetHOST api cr) w = ((Result, Some e), w)"
    by (auto simp: processLocalDatasetHOST_def isl_def split: sum.splits)
  then obtain e where "run_state (processLocalDatasetHOST api cr) w = ((Result, Some e), w)" by blast
  then show ?thesis using that [of "Some e" w] True assms by (auto simp: valid_host_def isl_def)
next
  case False
  then obtain p t where p: "dataset_permissions (spec_local cr) = Inr p" "mget (spec_local cr) ''path'' \<noteq> ''''"
    "host_path_type_of (spec_local cr) = Inr t"
    by (cases "dataset_permissions (spec_local cr)"; cases "host_path_type_of (spec_local cr)") auto
  obtain w' where "run_state (provision_volume api cr (host_pv cr p t) (host_pvc cr p)) w = ((Result, None), w')" "calm w'"
    "volume_there (view w') (name_of cr)" "volume_there (view w) (name_of cr) \<Longrightarrow> view w' = view w"
    by (rule volume_settles [OF assms, of "host_pv cr p t" "name_of cr" "host_pvc cr p" cr]) simp_all
  then show ?thesis using that [of None w'] p by (auto simp: processLocalDatasetHOST_def valid_host_def)
qed

lemma NFS_calm:
  assumes "calm w"
  obtains w' where "run_state (processLocalDatasetNFS api cr) w = ((Result, None), w')" "calm w'"
    "view w' (pvc_key (name_of cr)) \<noteq> None" "view w (pvc_key (name_of cr)) \<noteq> None \<Longrightarrow> view w' = view w"
  using assms
proof (cases rule: calm_get_cases
    [where k = KPersistentVolumeClaim and n = "(om_namespace (di_meta cr), om_name (di_meta cr))"])
  case (1 e w1)
  obtain u w2 where u: "run_state (api_NewUUID api) w1 = (u, w2)" "calm w2" "view w2 = view w1"
    by (rule uuid_calm [OF 1(5)])
  obtain w' where "run_state (provision_volume api cr (nfs_pv cr u) (nfs_pvc cr)) w2 = ((Result, None), w')" "calm w'"
    "volume_there (view w') (name_of cr)"
    by (rule volume_settles [OF u(2), of "nfs_pv cr u" "name_of cr" "nfs_pvc cr" cr]) simp_all
  then show ?thesis
    using that [of w'] 1 u by (auto simp: processLocalDatasetNFS_def volume_there_def name_of_def)
next
  case (2 x w1)
  then show ?thesis using that [of w1] by (simp add: processLocalDatasetNFS_def name_of_def)
qed

lemma process_settles:
  assumes "calm w" and "sp_Local (di_Spec cr) \<noteq> None"
    and "run_state (process_dataset api hms parse_url cr) w = ((res, None), w')"
  shows "settled (view w') cr"
proof -
  obtain f r where f: "map_of (datasetLocalProcessTable api) (mget (spec_local cr) ''type'') = Some f"
    "run_state (f cr) w = ((r, None), w')"
    using assms(2,3) by (auto simp: process_dataset_def split: option.splits prod.splits)
  consider "mget (spec_local cr) ''type'' = ''COS''" "run_state (processLocalDatasetCOS api cr) w = ((r, None), w')"
    | "mget (spec_local cr) ''type'' = ''NFS''" "run_state (processLocalDatasetNFS api cr) w = ((r, None), w')"
    | "mget (spec_local cr) ''type'' = ''HOST''" "run_state (processLocalDatasetHOST api cr) w = ((r, None), w')"
    | "mget (spec_local cr) ''type'' = ''H3''" "run_state (processLocalDatasetH3 api cr) w = ((r, None), w')"
    using f by (auto simp: datasetLocalProcessTable_def split: if_splits)
  then show ?thesis
  proof cases
    case 1
    then show ?thesis using COS_settles by (simp add: settled_def)
  next
    case 2
    then show ?thesis using NFS_calm [OF assms(1), of cr] by (auto simp: settled_def)
  next
    case 3
    then show ?thesis using HOST_calm [OF assms(1), of cr] by (auto simp: settled_def)
  next
    case 4
    then show ?thesis using H3_calm [OF assms(1), of cr] by (auto simp: settled_def)
  qed
qed

lemma settled_noop:
  assumes "calm w" and "settled (view w) cr" and "sp_Local (di_Spec cr) \<noteq> None"
  shows "\<exists>w'. run_state (process_dataset api hms parse_url cr) w = ((Result, None), w') \<and> calm w' \<and> view w' = view w"
proof -
  from assms(2) consider "mget (spec_local cr) ''type'' = ''COS''" "cos_settled (view w) cr"
    | "mget (spec_local cr) ''type'' = ''NFS''" "view w (pvc_key (name_of cr)) \<noteq> None"
    | "mget (spec_local cr) ''type'' = ''HOST''" "valid_host cr" "volume_there (view w) (name_of cr)"
    | "mget (spec_local cr) ''type'' = ''H3''" "valid_h3 cr" "volume_there (view w) (name_of cr)"
    by (auto simp: settled_def Let_def)
  then show ?thesis
  proof cases
    case 1
    from COS_noop [OF assms(1) this(2)] show ?thesis
      using 1 assms(3) by (elim exE conjE) (simp add: process_dataset_def datasetLocalProcessTable_def)
  next
    case 2
    show ?thesis
      by (rule NFS_calm [OF assms(1), of cr])
        (use 2 assms(3) in \<open>auto simp: process_dataset_def datasetLocalProcessTable_def\<close>)
  next
    case 3
    show ?thesis
      by (rule HOST_calm [OF assms(1), of cr])
        (use 3 assms(3) in \<open>auto simp: process_dataset_def datasetLocalProcessTable_def\<close>)
  next
    case 4
    show ?thesis
      by (rule H3_calm [OF assms(1), of cr])
        (use 4 assms(3) in \<open>auto simp: process_dataset_def datasetLocalProcessTable_def\<close>)
  qed
qed

end

end
