(* ===== verification/Internal_Lifecycle.thy ===== *)
theory Internal_Lifecycle
  imports Internal_Controller
begin

text \<open>
  The life of a DatasetInternal object under repeated reconciliation, and the properties of the
  reconciler.  \<open>remaining\<close> counts what still has to go before a deleted object-storage dataset is gone;
  in a calm cluster every reconciliation takes one off.
\<close>

section \<open>Deletion\<close>

text \<open>A deleted instance that only the finalizer of the operator keeps, and whose claim and secret can be
  deleted.\<close>

definition deletable :: "cluster \<Rightarrow> namespaced_name \<Rightarrow> bool" where
  "deletable v n \<longleftrightarrow>
     (\<forall>x. v (internal_key n) = Some x \<longrightarrow>
        (\<exists>cr. x = ODatasetInternal cr) \<and> deletion_of x \<noteq> None \<and> set (finalizers_of x) = {datasetFinalizer}) \<and>
     (\<forall>x. v (pvc_key n) = Some x \<longrightarrow> finalizers_of x = []) \<and>
     (\<forall>x. v (secret_key n) = Some x \<longrightarrow> finalizers_of x = [])"

definition remaining :: "cluster \<Rightarrow> namespaced_name \<Rightarrow> nat" where
  "remaining v n =
     (if v (internal_key n) = None then 0
      else 1 + (if v (pvc_key n) = None then 0 else 1) + (if v (secret_key n) = None then 0 else 1))"

text \<open>The reconciler called \<open>k\<close> times, as the work queue does on requeues and errors.\<close>

fun reconcile_times ::
  "nat \<Rightarrow> 'w cluster_api \<Rightarrow> 'w metastore \<Rightarrow> (string \<Rightarrow> url option) \<Rightarrow> namespaced_name \<Rightarrow> ('w, unit) state" where
  "reconcile_times 0 api hms parse_url n = State_Monad.return ()"
| "reconcile_times (Suc k) api hms parse_url n = do {
     _ \<leftarrow> ReconcileInternal api hms parse_url n;
     reconcile_times k api hms parse_url n
   }"

lemma finalizer_not_needed:
  "datasetFinalizer \<in> set (om_finalizers (di_meta cr)) \<Longrightarrow> \<not> needs_finalizer cr"
  by (simp add: needs_finalizer_def contains_def)

context calm_api_server
begin

lemma delete_calm:
  assumes "calm w" and "view w k = Some x" and "finalizers_of x = []"
  obtains w' where "run_state (api_Delete api x) w = (None, w')" "calm w'" "view w' = (view w)(k := None)"
proof -
  have k: "obj_key x = k" using view_key [OF assms(2)] .
  obtain r w' where r: "run_state (api_Delete api x) w = (r, w')" by fastforce
  have "calm w'" "r = None" using calm_delete [OF assms(1) r] assms(2) k by auto
  moreover have "view w' = (view w)(k := None)"
    using delete_ok [of x w w'] r calculation assms(2,3) k by (simp add: deleted_def)
  ultimately show ?thesis using that r by blast
qed

lemma finalize_step:
  assumes "calm w" and "view w (internal_key n) = Some (ODatasetInternal cr)" and "deletable (view w) n"
  obtains r w' where "run_state (finalize_internal api n cr) w = (r, w')" "calm w'" "deletable (view w') n"
    "remaining (view w') n < remaining (view w) n"
proof -
  have fin: "contains (om_finalizers (di_meta cr)) datasetFinalizer"
    and del: "om_deletionTimestamp (di_meta cr) \<noteq> None"
    and only: "set (om_finalizers (di_meta cr)) = {datasetFinalizer}"
    using assms(2,3) by (auto simp: deletable_def contains_def)
  from assms(1) show ?thesis
  proof (cases rule: calm_get_cases [where k = KPersistentVolumeClaim and n = n])
    case (2 x w1)
    then have "finalizers_of x = []" using assms(3) by (auto simp: deletable_def)
    then obtain w' where d: "run_state (api_Delete api x) w1 = (None, w')" "calm w'"
      "view w' = (view w)(pvc_key n := None)"
      using delete_calm [OF 2(4), of "pvc_key n" x] 2 by auto
    have "run_state (finalize_internal api n cr) w = ((ResultRequeue, None), w')"
      using 2 d fin by (simp add: finalize_internal_def)
    moreover have "deletable (view w') n" using assms(3) d(3) by (simp add: deletable_def)
    moreover have "remaining (view w') n < remaining (view w) n"
      using 2(2) assms(2) d(3) by (simp add: remaining_def)
    ultimately show ?thesis using that d(2) by blast
  next
    case (1 e w1)
    from 1(5) show ?thesis
    proof (cases rule: calm_get_cases [where k = KSecret and n = n])
      case (2 x w2)
      then have "finalizers_of x = []" using assms(3) 1 by (auto simp: deletable_def)
      then obtain w' where d: "run_state (api_Delete api x) w2 = (None, w')" "calm w'"
        "view w' = (view w)(secret_key n := None)"
        using delete_calm [OF 2(4), of "secret_key n" x] 1 2 by auto
      have "run_state (finalize_internal api n cr) w = ((ResultRequeue, None), w')"
        using 1 2 d fin by (simp add: finalize_internal_def)
      moreover have "deletable (view w') n" using assms(3) d(3) by (simp add: deletable_def)
      moreover have "remaining (view w') n < remaining (view w) n"
        using 1 2 assms(2) d(3) by (simp add: remaining_def)
      ultimately show ?thesis using that d(2) by blast
    next
      case (1 e2 w2)
      define new where "new = ODatasetInternal (with_finalizers (removeAll datasetFinalizer) cr)"
      have new: "obj_key new = internal_key n" "finalizers_of new = []"
        using view_key [OF assms(2)] only
        by (auto simp: new_def obj_key_def with_finalizers_def removeAll_filter_not_eq filter_empty_conv)
      obtain r w' where u: "run_state (api_Update api new) w2 = (r, w')" by fastforce
      have v2: "view w2 = view w" using 1 \<open>view w1 = view w\<close> by simp
      have "calm w'" "r = None"
        using calm_update [OF 1(5) u] v2 assms(2) new by auto
      moreover have "view w' = (view w)(internal_key n := None)"
        using update_ok [of new w2 w'] u calculation assms(2) new v2 del by (auto simp: updated_def)
      moreover have "run_state (finalize_internal api n cr) w = ((Result, None), w')"
        using 1 \<open>run_state (api_Get api KPersistentVolumeClaim n) w = (Inl e, w1)\<close> \<open>IsNotFound e\<close> u calculation fin
        by (simp add: finalize_internal_def new_def)
      moreover have "deletable (view w') n" using assms(3) calculation(3) by (simp add: deletable_def)
      moreover have "remaining (view w') n < remaining (view w) n"
        using assms(2) calculation(3) by (simp add: remaining_def)
      ultimately show ?thesis using that by blast
    qed
  qed
qed

lemma reconcile_deleted:
  assumes "calm w" and "deletable (view w) n"
  obtains r w' where "run_state (ReconcileInternal api hms parse_url n) w = (r, w')" "calm w'"
    "deletable (view w') n" "remaining (view w') n \<le> remaining (view w) n - 1"
  using assms(1)
proof (cases rule: calm_get_cases [where k = KDatasetInternal and n = n])
  case (1 e w1)
  then have "run_state (ReconcileInternal api hms parse_url n) w = ((Result, Some e), w1)"
    by (simp add: ReconcileInternal_def)
  then show ?thesis using that [of "(Result, Some e)" w1] 1 assms by (simp add: remaining_def)
next
  case (2 x w1)
  then obtain cr where x: "x = ODatasetInternal cr" "om_deletionTimestamp (di_meta cr) \<noteq> None"
    "datasetFinalizer \<in> set (om_finalizers (di_meta cr))"
    using assms(2) by (auto simp: deletable_def)
  obtain r w' where "run_state (finalize_internal api n cr) w1 = (r, w')" "calm w'" "deletable (view w') n"
    "remaining (view w') n < remaining (view w1) n"
    by (rule finalize_step [OF 2(4), of n cr]) (use 2 x assms(2) in auto)
  moreover have "run_state (ReconcileInternal api hms parse_url n) w = run_state (finalize_internal api n cr) w1"
    using 2 x finalizer_not_needed [OF x(3)] by (simp add: ReconcileInternal_def)
  ultimately show ?thesis using that [of r w'] 2 by simp
qed

lemma deletion_completes:
  "calm w \<Longrightarrow> deletable (view w) n \<Longrightarrow> remaining (view w) n \<le> k \<Longrightarrow>
   view (snd (run_state (reconcile_times k api hms parse_url n) w)) (internal_key n) = None"
proof (induction k arbitrary: w)
  case 0
  then show ?case by (simp add: remaining_def split: if_splits)
next
  case (Suc k)
  obtain r w' where "run_state (ReconcileInternal api hms parse_url n) w = (r, w')" "calm w'"
    "deletable (view w') n" "remaining (view w') n \<le> remaining (view w) n - 1"
    by (rule reconcile_deleted [OF Suc.prems(1,2)])
  then show ?case using Suc.IH [of w'] Suc.prems(3) by simp
qed

end

section \<open>The finalizer\<close>

context api_server
begin

lemma delete_other:
  "run_state (api_Delete api x) w = (r, w') \<Longrightarrow> k \<noteq> obj_key x \<Longrightarrow> view w' k = view w k"
  by (rule frameD [OF frame_delete [of x "{obj_key x}"]]) auto

text \<open>Finalizing an instance changes it only once its claim and its secret are gone.\<close>

lemma finalize_keeps:
  assumes "run_state (finalize_internal api n cr) w = (r, w')"
  shows "view w' (internal_key n) = view w (internal_key n) \<or> view w (pvc_key n) = None \<and> view w (secret_key n) = None"
proof -
  obtain r1 w1 where g1: "run_state (api_Get api KPersistentVolumeClaim n) w = (r1, w1)" by fastforce
  obtain r2 w2 where g2: "run_state (api_Get api KSecret n) w1 = (r2, w2)" by fastforce
  note v = get_view [OF g1] get_view [OF g2]
  have "view w (pvc_key n) = None" if "r1 = Inl e" "IsNotFound e" for e
    using get_missing g1 that by fastforce
  moreover have "view w (secret_key n) = None" if "r2 = Inl e" "IsNotFound e" for e
    using get_missing g2 that v by fastforce
  moreover have "view w' (internal_key n) = view w1 (internal_key n)"
    if "r1 = Inr x" "run_state (api_Delete api x) w1 = (d, w')" for x d
  proof -
    have "obj_key x = pvc_key n" using get_found [of KPersistentVolumeClaim n] g1 that(1) view_key by fastforce
    then show ?thesis using delete_other [OF that(2), of "internal_key n"] by simp
  qed
  moreover have "view w' (internal_key n) = view w2 (internal_key n)"
    if "r2 = Inr x" "run_state (api_Delete api x) w2 = (d, w')" for x d
  proof -
    have "obj_key x = secret_key n" using get_found [of KSecret n] g2 that(1) view_key by fastforce
    then show ?thesis using delete_other [OF that(2), of "internal_key n"] by simp
  qed
  ultimately show ?thesis
    using assms g1 g2 v
    by (auto simp: finalize_internal_def split: if_splits sum.splits prod.splits)
qed

text \<open>Whatever fails, the deletion does not fall back, and the instance is the last to go.\<close>

definition winding_down :: "'w \<Rightarrow> namespaced_name \<Rightarrow> bool" where
  "winding_down w n \<longleftrightarrow> deletable (view w) n \<and>
     (view w (internal_key n) = None \<longrightarrow> view w (pvc_key n) = None \<and> view w (secret_key n) = None)"

lemma winding_down_same: "winding_down w n \<Longrightarrow> view w' = view w \<Longrightarrow> winding_down w' n"
  by (simp add: winding_down_def)

lemma winding_down_delete:
  assumes "winding_down w n" and k: "k \<in> {pvc_key n, secret_key n}" and "view w k = Some x"
    and "run_state (api_Delete api x) w = (r, w')"
  shows "winding_down w' n"
proof -
  have x: "obj_key x = k" "finalizers_of x = []"
    using view_key [OF assms(3)] assms(1,2,3) by (auto simp: winding_down_def deletable_def)
  have "view w' = view w \<or> deleted x (view w) (view w')"
    using delete_ok [of x w w'] delete_failed [of x w _ w'] assms(4) by (cases r) auto
  then have "view w' = view w \<or> view w' = (view w)(k := None)" using x assms(3) by (auto simp: deleted_def)
  then show ?thesis
  proof
    assume "view w' = (view w)(k := None)"
    then show ?thesis using assms(1,2) by (auto simp: winding_down_def deletable_def)
  qed (rule winding_down_same [OF assms(1)])
qed

lemma winding_down_finalize:
  assumes w: "winding_down w n" and cr: "view w (internal_key n) = Some (ODatasetInternal cr)"
    and run: "run_state (finalize_internal api n cr) w = (r, w')"
  shows "winding_down w' n"
proof -
  have del: "om_deletionTimestamp (di_meta cr) \<noteq> None" and only: "set (om_finalizers (di_meta cr)) = {datasetFinalizer}"
    using w cr by (auto simp: winding_down_def deletable_def)
  then have fin: "contains (om_finalizers (di_meta cr)) datasetFinalizer" by (simp add: contains_def)
  obtain p w1 where p: "run_state (api_Get api KPersistentVolumeClaim n) w = (p, w1)" by fastforce
  obtain q w2 where q: "run_state (api_Get api KSecret n) w1 = (q, w2)" by fastforce
  note v1 = get_view [OF p] and v2 = get_view [OF q]
  have d1: "winding_down w1 n" by (rule winding_down_same [OF w v1])
  have d2: "winding_down w2 n" by (rule winding_down_same [OF d1 v2])
  define new where "new = ODatasetInternal (with_finalizers (removeAll datasetFinalizer) cr)"
  consider "w' = w1" | "w' = w2" | x where "p = Inr x" "\<exists>e. run_state (api_Delete api x) w1 = (e, w')"
    | x where "q = Inr x" "\<exists>e. run_state (api_Delete api x) w2 = (e, w')"
    | e e' where "p = Inl e" "IsNotFound e" "q = Inl e'" "IsNotFound e'" "\<exists>u. run_state (api_Update api new) w2 = (u, w')"
    using run p q fin by (auto simp: finalize_internal_def new_def split: sum.splits if_splits prod.splits)
  then show ?thesis
  proof cases
    case (3 x)
    then have "view w1 (pvc_key n) = Some x" using get_found [of KPersistentVolumeClaim n w x w1] p v1 by simp
    then show ?thesis using winding_down_delete [OF d1, of "pvc_key n" x] 3(2) by auto
  next
    case (4 x)
    then have "view w2 (secret_key n) = Some x" using get_found [of KSecret n w1 x w2] q v2 by simp
    then show ?thesis using winding_down_delete [OF d2, of "secret_key n" x] 4(2) by auto
  next
    case (5 e e')
    have gone: "view w (pvc_key n) = None" "view w (secret_key n) = None"
      using get_missing [of KPersistentVolumeClaim n w e w1] get_missing [of KSecret n w1 e' w2] 5 p q v1 by simp_all
    have new: "obj_key new = internal_key n" "finalizers_of new = []"
      using view_key [OF cr] only
      by (auto simp: new_def obj_key_def with_finalizers_def removeAll_filter_not_eq filter_empty_conv)
    obtain u where u: "run_state (api_Update api new) w2 = (u, w')" using 5 by blast
    have "view w' = view w2 \<or> updated new (view w2) (view w')"
      using update_ok [of new w2 w'] update_failed [of new w2 _ w'] u by (cases u) auto
    then have "view w' = view w \<or> view w' = (view w)(internal_key n := None)"
      using v1 v2 cr new del by (auto simp: updated_def)
    then show ?thesis
    proof
      assume "view w' = (view w)(internal_key n := None)"
      then show ?thesis using gone w by (simp add: winding_down_def deletable_def)
    qed (rule winding_down_same [OF w])
  qed (use d1 d2 in simp_all)
qed

lemma winding_down_run:
  assumes w: "winding_down w n" and run: "run_state (ReconcileInternal api hms parse_url n) w = (r, w')"
  shows "winding_down w' n"
proof -
  obtain g w1 where g: "run_state (api_Get api KDatasetInternal n) w = (g, w1)" by fastforce
  note v1 = get_view [OF g]
  have d1: "winding_down w1 n" by (rule winding_down_same [OF w v1])
  show ?thesis
  proof (cases g)
    case (Inl e)
    then have "w' = w1" using run g by (auto simp: ReconcileInternal_def split: if_splits)
    then show ?thesis using d1 by simp
  next
    case (Inr x)
    then have x: "view w1 (internal_key n) = Some x" using get_found [of KDatasetInternal n w x w1] g v1 by simp
    then obtain cr where cr: "x = ODatasetInternal cr" "om_deletionTimestamp (di_meta cr) \<noteq> None"
      "datasetFinalizer \<in> set (om_finalizers (di_meta cr))"
      using d1 by (auto simp: winding_down_def deletable_def)
    have "run_state (finalize_internal api n cr) w1 = (r, w')"
      using run g Inr cr finalizer_not_needed [OF cr(3)] by (simp add: ReconcileInternal_def)
    from winding_down_finalize [OF d1 x [unfolded cr(1)] this] show ?thesis .
  qed
qed

lemma winding_down_times:
  "winding_down w n \<Longrightarrow> run_state (reconcile_times k api hms parse_url n) w = (u, w') \<Longrightarrow> winding_down w' n"
proof (induction k arbitrary: w)
  case (Suc k)
  obtain r w1 where r: "run_state (ReconcileInternal api hms parse_url n) w = (r, w1)" by fastforce
  then show ?case using Suc.IH [OF winding_down_run [OF Suc.prems(1) r]] Suc.prems(2) by simp
qed simp

end

context catalog
begin

lemma process_keeps_internal:
  assumes "run_state (process_dataset api hms parse_url cr) w = (r, w')"
  shows "view w' (internal_key n) = view w (internal_key n)"
  by (rule frameD [OF frame_process [of cr "work_keys (name_of cr)"] assms]) simp_all

lemma finalizer_kept:
  assumes x: "view w (internal_key n) = Some (ODatasetInternal cr)"
    and fin: "datasetFinalizer \<in> set (om_finalizers (di_meta cr))"
    and run: "run_state (ReconcileInternal api hms parse_url n) w = (r, w')"
  shows "view w' (internal_key n) = view w (internal_key n) \<or>
    om_deletionTimestamp (di_meta cr) \<noteq> None \<and> view w (pvc_key n) = None \<and> view w (secret_key n) = None"
proof -
  obtain r1 w1 where g: "run_state (api_Get api KDatasetInternal n) w = (r1, w1)" by fastforce
  note v = get_view [OF g]
  have found: "r1 = Inr y \<Longrightarrow> y = ODatasetInternal cr" for y using get_found g x by fastforce
  show ?thesis
  proof (cases r1)
    case (Inl e)
    then show ?thesis using run g v by (simp add: ReconcileInternal_def)
  next
    case (Inr y)
    then have "y = ODatasetInternal cr" using found by simp
    then have run: "run_state (if om_deletionTimestamp (di_meta cr) \<noteq> None then finalize_internal api n cr
        else process_dataset api hms parse_url cr) w1 = (r, w')"
      using run g Inr finalizer_not_needed [OF fin] by (simp add: ReconcileInternal_def)
    show ?thesis
    proof (cases "om_deletionTimestamp (di_meta cr) = None")
      case True
      with run have "run_state (process_dataset api hms parse_url cr) w1 = (r, w')" by simp
      from process_keeps_internal [OF this] show ?thesis using v by simp
    next
      case False
      then show ?thesis using finalize_keeps [of n cr w1 r w'] run v by simp
    qed
  qed
qed

end

section \<open>Examples\<close>

definition example_cos :: DatasetInternal where
  "example_cos = \<lparr>di_meta = ObjectMeta ''a'' ''ns'' [], di_Spec = empty_spec\<lparr>sp_Local := Some
     [(''type'', ''COS''), (''accessKeyID'', ''k''), (''secretAccessKey'', ''s''), (''endpoint'', ''e''),
      (''bucket'', ''b/c'')]\<rparr>, di_Placements = empty_placement\<rparr>"

definition example_host :: "string \<Rightarrow> string \<Rightarrow> DatasetInternal" where
  "example_host ns path = \<lparr>di_meta = ObjectMeta ''a'' ns [], di_Spec = empty_spec\<lparr>sp_Local := Some
     [(''type'', ''HOST''), (''path'', path)]\<rparr>, di_Placements = empty_placement\<rparr>"

definition example_nfs :: DatasetInternal where
  "example_nfs = \<lparr>di_meta = ObjectMeta ''a'' ''ns'' [], di_Spec = empty_spec\<lparr>sp_Local := Some
     [(''type'', ''NFS''), (''server'', ''h''), (''share'', ''/x'')]\<rparr>, di_Placements = empty_placement\<rparr>"

text \<open>A cluster that holds the given objects.\<close>

definition world_of :: "k8s_object list \<Rightarrow> mem_world" where
  "world_of xs = \<lparr>mw_store = map_of (map (\<lambda>x. (obj_key x, x)) xs), mw_faults = [], mw_uuids = [], mw_pods = [],
     mw_events = []\<rparr>"

lemma world_of_calm [simp]: "mem_calm (world_of xs)"
  by (simp add: mem_calm_def world_of_def)

lemma view_world_of: "mem_view (world_of xs) k =
    (case map_of (map (\<lambda>x. (obj_key x, x)) xs) k of
       None \<Rightarrow> None | Some x \<Rightarrow> if stored_form x then Some x else None)"
proof (cases "map_of (map (\<lambda>x. (obj_key x, x)) xs) k")
  case None
  then show ?thesis by (simp add: mem_view_def store_view_def world_of_def)
next
  case (Some x)
  then have "(k, x) \<in> set (map (\<lambda>x. (obj_key x, x)) xs)" by (rule map_of_SomeD)
  then have "obj_key x = k" by auto
  then show ?thesis using Some by (simp add: mem_view_def store_view_def world_of_def)
qed

end
