(* ===== verification/Internal_Properties.thy ===== *)
theory Internal_Properties
  imports Internal_Lifecycle
begin

text \<open>
  The properties of the DatasetInternal reconciler, each with an instance on the in-memory cluster.
\<close>

section \<open>Auxiliary facts\<close>

lemma map_of_buckets:
  "i < length bs \<Longrightarrow> map_of (map (\<lambda>i. (p @ Itoa (int i), bs ! i)) [0..<length bs]) (p @ Itoa (int i)) = Some (bs ! i)"
proof -
  assume "i < length bs"
  moreover have "distinct (map fst (map (\<lambda>i. (p @ Itoa (int i), bs ! i)) [0..<length bs]))"
    by (simp add: distinct_map inj_on_def)
  ultimately show ?thesis by (subst map_of_eq_Some_iff) auto
qed

lemma remote_config_simps:
  "i < length bs \<Longrightarrow> mget (remote_config a t bs) (''bucket.'' @ Itoa (int i)) = bs ! i"
  "mget (remote_config a t bs) ''numBuckets'' = Itoa (int (length bs))"
  by (simp_all add: remote_config_def mget_def map_of_buckets [where p = "''bucket.''", simplified])

lemma remote_config_first: "bs \<noteq> [] \<Longrightarrow> mget (remote_config a t bs) ''bucket.0'' = bs ! 0"
proof -
  have "Itoa 0 = ''0''" by code_simp
  then show "bs \<noteq> [] \<Longrightarrow> mget (remote_config a t bs) ''bucket.0'' = bs ! 0"
    using remote_config_simps(1) [of 0 bs a t] by simp
qed

lemma payload_config:
  assumes "payload z = payload (OConfigMap c)"
  obtains c' where "z = OConfigMap c'" "cm_Data c' = cm_Data c"
proof (cases z)
  case (OConfigMap c')
  then have "c'\<lparr>cm_meta := strip_meta (cm_meta c')\<rparr> = c\<lparr>cm_meta := strip_meta (cm_meta c)\<rparr>"
    using assms by (simp add: payload_def)
  from arg_cong [OF this, of cm_Data] show ?thesis using that OConfigMap by simp
qed (use assms in \<open>auto simp: payload_def\<close>)

lemma ensured_fresh:
  "ensured x v v' \<Longrightarrow> v (obj_key x) = None \<Longrightarrow>
   \<exists>y. v' (obj_key x) = Some y \<and> payload y = payload x"
  by (auto simp: ensured_def created_def)

context api_server
begin

lemma owned_config:
  "api_SetControllerReference api own (OConfigMap c) = Inr y \<Longrightarrow> \<exists>c'. y = OConfigMap c' \<and> cm_Data c' = cm_Data c"
  by (auto dest!: set_reference)

lemma owned_secret:
  "api_SetControllerReference api own (OSecret s) = Inr y \<Longrightarrow>
   \<exists>s'. y = OSecret s' \<and> sec_Data s' = sec_Data s \<and> sec_StringData s' = sec_StringData s"
  by (auto dest!: set_reference)

lemma remote_chain:
  assumes "run_state (provision_remote api cr a t e m bs) w = ((res, None), w')"
  obtains cm sec w1 w2 where
    "api_SetControllerReference api (ODatasetInternal cr)
       (OConfigMap \<lparr>cm_meta = dataset_meta cr, cm_Data = remote_config a t bs\<rparr>) = Inr cm"
    "api_SetControllerReference api (ODatasetInternal cr) (OSecret (remote_secret cr e (remote_config a t bs))) = Inr sec"
    "ensured cm (view w) (view w1)" "ensured sec (view w1) (view w2)"
    "if m then \<exists>p. obj_key p = pvc_key (name_of cr) \<and> ensured p (view w2) (view w') else view w' = view w2"
proof -
  obtain cm w1 where cm: "api_SetControllerReference api (ODatasetInternal cr)
       (OConfigMap \<lparr>cm_meta = dataset_meta cr, cm_Data = remote_config a t bs\<rparr>) = Inr cm"
    and c: "run_state (create_if_absent api True cm) w = (None, w1)"
    and rest: "run_state (owned_by api cr (OSecret (remote_secret cr e (remote_config a t bs))) (\<lambda>secretObj.
              andthen (create_if_absent api True secretObj)
                (if m then do {
                   p \<leftarrow> createPVCforObjectStorage api cr;
                   case snd p of
                     Some _ \<Rightarrow> fail_with (ServiceUnavailable ''Unable to initialise dataset'')
                   | None \<Rightarrow> State_Monad.return (Result, None)
                 } else State_Monad.return (Result, None)))) w1 = ((res, None), w')"
    using assms
    by (auto simp: provision_remote_def createConfigMapforDataset_def Let_def owned_by_def run_andthen
        split: prod.splits option.splits sum.splits if_splits)
  obtain sec w2 where sec: "api_SetControllerReference api (ODatasetInternal cr)
      (OSecret (remote_secret cr e (remote_config a t bs))) = Inr sec"
    and s: "run_state (create_if_absent api True sec) w1 = (None, w2)"
    and last: "run_state (if m then do {
                   p \<leftarrow> createPVCforObjectStorage api cr;
                   case snd p of
                     Some _ \<Rightarrow> fail_with (ServiceUnavailable ''Unable to initialise dataset'')
                   | None \<Rightarrow> State_Monad.return (Result, None)
                 } else State_Monad.return (Result, None)) w2 = ((res, None), w')"
    using rest by (auto simp: success_simps)
  have "if m then \<exists>p. obj_key p = pvc_key (name_of cr) \<and> ensured p (view w2) (view w') else view w' = view w2"
  proof (cases m)
    case True
    then obtain p where p: "api_SetControllerReference api (ODatasetInternal cr) (OPersistentVolumeClaim (remote_pvc cr)) = Inr p"
      "run_state (create_if_absent api True p) w2 = (None, w')"
      using last by (auto simp: createPVCforObjectStorage_def owned_by_def split: sum.splits prod.splits option.splits)
    have "obj_key p = pvc_key (name_of cr)" using owned_key [OF p(1)] by simp
    then show ?thesis using True create_strict_ok [OF p(2)] by auto
  qed (use last in auto)
  then show ?thesis
    using that [OF cm sec] create_strict_ok [OF c] create_strict_ok [OF s] by blast
qed

end

context calm_api_server
begin

lemma edit_calm:
  assumes "calm w" and "view w (obj_key (OSecret old)) = Some (OSecret old)"
  obtains w' where "run_state (checkIfEditableValueChangeAndUpdate api old new) w = (None, w')" "calm w'"
proof -
  obtain s b where e: "edit_loop (sec_StringData new) [''remove-on-delete''] (old, False) = (s, b)" by fastforce
  have meta: "sec_meta s = sec_meta old"
    using edit_loop_meta [of "sec_StringData new" "[''remove-on-delete'']" old False] unfolding e by simp
  show ?thesis
  proof (cases b)
    case True
    obtain r w' where u: "run_state (api_Update api (OSecret s)) w = (r, w')" by fastforce
    have "obj_key (OSecret s) = obj_key (OSecret old)" using meta by (simp add: obj_key_def)
    then have "calm w' \<and> r = None" using calm_update [OF assms(1) u] assms(2) meta by auto
    then show ?thesis using that [of w'] u e True by (simp add: checkIfEditableValueChangeAndUpdate_def)
  next
    case False
    then show ?thesis using that [of w] assms(1) e by (simp add: checkIfEditableValueChangeAndUpdate_def)
  qed
qed

lemma cos_secret_calm:
  assumes "calm w"
  obtains w' where "run_state (reconcile_cos_secret api s) w = (None, w')" "calm w'"
  using assms
proof (cases rule: calm_get_cases [where k = KSecret and n = "(om_namespace (sec_meta s), om_name (sec_meta s))"])
  case (1 e w1)
  obtain r w' where c: "run_state (api_Create api (OSecret s)) w1 = (r, w')" by fastforce
  have "view w1 (obj_key (OSecret s)) = None" using 1 by (simp add: obj_key_def key_of_def secret_key_def)
  then have "calm w' \<and> r = None" using calm_create [OF 1(5) c] by simp
  then show ?thesis using that [of w'] 1 c by (simp add: reconcile_cos_secret_def)
next
  case (2 x w1)
  then have k: "obj_key x = secret_key (om_namespace (sec_meta s), om_name (sec_meta s))" using view_key by fastforce
  then have "kind_of x = KSecret" by (auto simp: obj_key_def key_of_def secret_key_def split: if_splits)
  then obtain old where x: "x = OSecret old" by (cases x) auto
  obtain w' where "run_state (checkIfEditableValueChangeAndUpdate api old s) w1 = (None, w')" "calm w'"
    by (rule edit_calm [OF 2(4), of old s]) (use 2 k x in auto)
  then show ?thesis using that [of w'] 2 x by (simp add: reconcile_cos_secret_def)
qed

lemma COS_calm:
  assumes "calm w"
  shows "\<exists>e w'. run_state (processLocalDatasetCOS api cr) w = ((Result, e), w') \<and> calm w' \<and>
    (if credentials_of (view w) cr = None then e \<noteq> None \<and> view w' = view w else e = None)"
proof (cases "credentials_of (view w) cr")
  case None
  obtain w1 where "calm w1" "view w1 = view w" "run_state (checkAndExtractObjectStorageAccess api cr) w =
    (Inl (BadRequest ''No useable secret provided for authentication''), w1)"
    using access_calm [OF assms, of cr] None by (metis option.simps(4))
  then show ?thesis using None by (simp add: processLocalDatasetCOS_def)
next
  case (Some ks)
  obtain w1 where w1: "calm w1" "run_state (checkAndExtractObjectStorageAccess api cr) w = (Inr ks, w1)"
    using access_calm [OF assms, of cr] Some by (metis option.simps(5))
  obtain cm where cm: "api_SetControllerReference api (ODatasetInternal cr)
      (OConfigMap \<lparr>cm_meta = dataset_meta cr, cm_Data = cos_config cr\<rparr>) = Inr cm"
    using calm_set_reference by blast
  obtain e2 w2 where r2: "run_state (create_if_absent api True cm) w1 = (e2, w2)" by fastforce
  obtain e3 w3 where r3: "run_state (create_if_absent api True (OPersistentVolumeClaim (cos_pvc cr))) w2 = (e3, w3)"
    by fastforce
  note c2 = create_calm [OF w1(1) r2]
  then have c3: "e3 = None \<and> calm w3" using create_calm [OF _ r3] by blast
  obtain w4 where "run_state (reconcile_cos_secret api (cos_secret cr ks)) w3 = (None, w4)" "calm w4"
    using cos_secret_calm [of w3 "cos_secret cr ks"] c3 by blast
  then show ?thesis
    using Some w1 cm r2 r3 c2 c3
    by (simp add: processLocalDatasetCOS_def createConfigMapforDataset_def owned_by_def run_andthen)
qed

end

section \<open>The properties inside the interfaces\<close>

context api_server
begin

lemma COS_fresh_contents_in:
  assumes "run_state (processLocalDatasetCOS api cr) w = ((res, None), w')"
    and "view w (secret_key (name_of cr)) = None"
    and "view w (pvc_key (name_of cr)) = None"
  shows "\<exists>ks s p. credentials_of (view w) cr = Some ks \<and>
    view w' (secret_key (name_of cr)) = Some (OSecret s) \<and>
    map_of (sec_Data s) = map_of (sec_StringData (cos_secret cr ks)) \<and>
    view w' (pvc_key (name_of cr)) = Some p \<and> payload p = payload (OPersistentVolumeClaim (cos_pvc cr))"
proof -
  obtain ks cm v1 v2 w2 where cred: "credentials_of (view w) cr = Some ks"
    and cm: "api_SetControllerReference api (ODatasetInternal cr)
       (OConfigMap \<lparr>cm_meta = dataset_meta cr, cm_Data = cos_config cr\<rparr>) = Inr cm" "ensured cm (view w) v1"
    and pvc: "ensured (OPersistentVolumeClaim (cos_pvc cr)) v1 (view w2)"
    and sec: "run_state (reconcile_cos_secret api (cos_secret cr ks)) w2 = (None, w')"
    using COS_chain [OF assms(1)] by metis
  have cmk: "obj_key cm = config_key (name_of cr)" using owned_key [OF cm(1)] by simp
  have "v1 (pvc_key (name_of cr)) = None" using ensured_other [OF cm(2)] cmk assms(3) by simp
  then obtain p where p: "view w2 (pvc_key (name_of cr)) = Some p"
    "payload p = payload (OPersistentVolumeClaim (cos_pvc cr))"
    using ensured_fresh [OF pvc] by auto
  have "view w2 (secret_key (name_of cr)) = None"
    using ensured_other [OF cm(2)] ensured_other [OF pvc] cmk assms(2) by simp
  then obtain s where s: "view w' (secret_key (name_of cr)) = Some (OSecret s)"
    "map_of (sec_Data s) = map_of (sec_StringData (cos_secret cr ks))"
    and agree: "agree_off {secret_key (name_of cr)} (view w2) (view w')"
    using cos_secret_ok [OF sec] by (auto simp: merged_secret_def)
  then show ?thesis using cred p agree_offD [OF agree, of "pvc_key (name_of cr)"] by auto
qed


lemma remote_provisions_in:
  assumes "run_state (provision_remote api cr a t e m bs) w = ((res, None), w')"
    and "bs \<noteq> []"
    and "view w (config_key (name_of cr)) = None"
    and "view w (secret_key (name_of cr)) = None"
  shows "\<exists>c s. view w' (config_key (name_of cr)) = Some (OConfigMap c) \<and>
    (\<forall>i < length bs. mget (cm_Data c) (''bucket.'' @ Itoa (int i)) = bs ! i) \<and>
    mget (cm_Data c) ''numBuckets'' = Itoa (int (length bs)) \<and>
    view w' (secret_key (name_of cr)) = Some (OSecret s) \<and> mget (sec_Data s) ''bucket'' = bs ! 0 \<and>
    (m \<longrightarrow> view w' (pvc_key (name_of cr)) \<noteq> None)"
proof -
  obtain cm sec w1 w2 where cm: "api_SetControllerReference api (ODatasetInternal cr)
       (OConfigMap \<lparr>cm_meta = dataset_meta cr, cm_Data = remote_config a t bs\<rparr>) = Inr cm"
    and sec: "api_SetControllerReference api (ODatasetInternal cr) (OSecret (remote_secret cr e (remote_config a t bs))) = Inr sec"
    and e1: "ensured cm (view w) (view w1)" and e2: "ensured sec (view w1) (view w2)"
    and e3: "if m then \<exists>p. obj_key p = pvc_key (name_of cr) \<and> ensured p (view w2) (view w') else view w' = view w2"
    using remote_chain [OF assms(1)] by metis
  have k: "obj_key cm = config_key (name_of cr)" "obj_key sec = secret_key (name_of cr)"
    using owned_key [OF cm] owned_key [OF sec] by auto
  have last: "view w' j = view w2 j" if "j \<noteq> pvc_key (name_of cr)" for j
    using e3 that ensured_other by (metis (full_types))
  obtain y where y: "view w1 (config_key (name_of cr)) = Some y" "payload y = payload cm"
    using ensured_fresh [OF e1] assms(3) k by auto
  obtain c where c: "y = OConfigMap c" "cm_Data c = remote_config a t bs"
    using owned_config [OF cm] payload_config [of y] y(2) by (metis ConfigMap.select_convs(2))
  obtain z where z: "view w2 (secret_key (name_of cr)) = Some z" "payload z = payload sec"
    using ensured_fresh [OF e2] ensured_other [OF e1] assms(4) k by auto
  obtain s0 where s0: "sec = OSecret s0" "sec_Data s0 = []"
    "sec_StringData s0 = sec_StringData (remote_secret cr e (remote_config a t bs))"
    using owned_secret [OF sec] by (auto simp: remote_secret_def)
  have "distinct (map fst (sec_StringData s0))" by (simp add: s0 remote_secret_def)
  from payload_secret [OF z(2) [unfolded s0(1)] view_stored [OF z(1)] this]
  obtain s where s: "z = OSecret s" "map_of (sec_Data s) = map_of (sec_StringData s0)" by (auto simp: s0(2))
  have "mget (sec_Data s) ''bucket'' = bs ! 0"
    using s(2) remote_config_first [OF assms(2)] by (simp add: mget_def s0(3) remote_secret_def)
  moreover have "view w' (config_key (name_of cr)) = Some (OConfigMap c)"
    using last [of "config_key (name_of cr)"] ensured_kept [OF e2 y(1)] c(1) by simp
  moreover have "m \<longrightarrow> view w' (pvc_key (name_of cr)) \<noteq> None"
    using e3 ensured_present by (metis (full_types))
  ultimately show ?thesis
    using c(2) z(1) s(1) last [of "secret_key (name_of cr)"] remote_config_simps by auto
qed


end

context calm_api_server
begin

lemma COS_provisions_iff_credentials_in:
  assumes "calm w"
    and "run_state (processLocalDatasetCOS api cr) w = ((res, e), w')"
  shows "(e = None \<longleftrightarrow> credentials_of (view w) cr \<noteq> None) \<and>
    (if e = None then cos_settled (view w') cr else view w' = view w)"
proof -
  show ?thesis
    using COS_calm [OF assms(1), of cr] COS_settles [of cr w res w'] assms(2) by (auto split: if_splits)
qed


end

context catalog
begin

lemma reconcile_confined_in:
  assumes "run_state (ReconcileInternal api hms parse_url n) w = (r, w')"
    and "k \<notin> dataset_keys n"
  shows "view w' k = view w k"
proof -
  show ?thesis by (rule frameD [OF frame_reconcile assms(1,2)])
qed


end

text \<open>A calm cluster with a catalog.\<close>

locale calm_catalog = catalog api view hms + calm_api_server api view calm
  for api :: "'w cluster_api" and view :: "'w \<Rightarrow> cluster" and hms :: "'w metastore" and calm :: "'w \<Rightarrow> bool"
begin

lemma process_calm:
  assumes "calm w" and "sp_Local (di_Spec cr) \<noteq> None"
    and "run_state (process_dataset api hms parse_url cr) w = (r, w')"
  shows "calm w'"
proof (cases "map_of (datasetLocalProcessTable api) (mget (spec_local cr) ''type'')")
  case None
  then show ?thesis using assms by (auto simp: process_dataset_def)
next
  case (Some f)
  then have run: "\<exists>r. run_state (f cr) w = (r, w')"
    using assms(2,3) by (auto simp: process_dataset_def split: prod.splits)
  consider "f = processLocalDatasetCOS api" | "f = processLocalDatasetNFS api" | "f = processLocalDatasetHOST api"
    | "f = processLocalDatasetH3 api"
    using Some by (auto simp: datasetLocalProcessTable_def split: if_splits)
  then show ?thesis
  proof cases
    case 1
    then show ?thesis using run COS_calm [OF assms(1), of cr] by auto
  next
    case 2
    then show ?thesis using run by (auto intro: NFS_calm [OF assms(1), of cr])
  next
    case 3
    then show ?thesis using run by (auto intro: HOST_calm [OF assms(1), of cr])
  next
    case 4
    then show ?thesis using run by (auto intro: H3_calm [OF assms(1), of cr])
  qed
qed

lemma noop_again:
  assumes "calm w"
    and v: "view w (internal_key n) = Some (ODatasetInternal cr)"
    and live: "om_deletionTimestamp (di_meta cr) = None"
    and fin: "\<not> needs_finalizer cr"
    and local: "sp_Local (di_Spec cr) \<noteq> None"
    and run: "run_state (ReconcileInternal api hms parse_url n) w = ((res, None), w1)"
  shows "\<exists>w2. run_state (ReconcileInternal api hms parse_url n) w1 = ((Result, None), w2) \<and> view w2 = view w1"
proof -
  have first: "\<exists>w0. calm w0 \<and> view w0 = view w \<and> run_state (process_dataset api hms parse_url cr) w0 = ((res, None), w1)"
    using assms(1)
  proof (cases rule: calm_get_cases [where k = KDatasetInternal and n = n])
    case (2 x w0)
    then have "x = ODatasetInternal cr" using v by simp
    then show ?thesis using 2 run live fin by (intro exI [of _ w0]) (simp add: ReconcileInternal_def)
  qed (use v in simp)
  then obtain w0 where w0: "calm w0" "view w0 = view w"
    "run_state (process_dataset api hms parse_url cr) w0 = ((res, None), w1)" by blast
  have inst: "view w1 (internal_key n) = Some (ODatasetInternal cr)"
    using process_keeps_internal [OF w0(3), of n] v w0(2) by simp
  have settled: "settled (view w1) cr" by (rule process_settles [OF w0(1) local w0(3)])
  from process_calm [OF w0(1) local w0(3)] show ?thesis
  proof (cases rule: calm_get_cases [where k = KDatasetInternal and n = n])
    case (2 x w2)
    then have x: "x = ODatasetInternal cr" using inst by simp
    obtain w3 where "run_state (process_dataset api hms parse_url cr) w2 = ((Result, None), w3)" "view w3 = view w2"
      using settled_noop [OF 2(4), of cr] settled 2 local by auto
    then show ?thesis using 2 x live fin by (auto simp: ReconcileInternal_def)
  qed (use inst in simp)
qed

end

interpretation mem_calm_catalog: calm_catalog mem_api mem_view "table_metastore tables" mem_calm
  by (rule calm_catalog.intro [OF mem_catalog.catalog_axioms mem_calm.calm_api_server_axioms])

section \<open>Confinement\<close>

text \<open>
  C4. Reconciling a DatasetInternal changes no object but those of its own name: the instance, and the
  claim, secret and config map of the same name and namespace, and the volume of that name.
\<close>

theorem reconcile_confined:
  assumes "catalog api view hms" and "run_state (ReconcileInternal api hms parse_url n) w = (r, w')"
    and "k \<notin> dataset_keys n"
  shows "view w' k = view w k"
  by (rule catalog.reconcile_confined_in [OF assms])

theorem reconcile_confined_witness:
  "mem_view (snd (run_state (ReconcileInternal mem_api (table_metastore (\<lambda>_. None)) (\<lambda>_. None) (''ns'', ''a''))
     (world_of [ODatasetInternal example_cos]))) (KPod, (''ns'', ''a'')) =
   mem_view (world_of [ODatasetInternal example_cos]) (KPod, (''ns'', ''a''))"
  by (rule reconcile_confined [OF mem_catalog.catalog_axioms prod.collapse [symmetric]])
    (simp add: dataset_keys_def work_keys_def key_defs)



section \<open>Provisioning\<close>

text \<open>
  C5. In a calm cluster object storage is provisioned exactly when usable credentials exist; without
  them the run fails and changes nothing.  A successful run leaves the config map, the claim and the
  secret in place, with the current value of \<open>remove-on-delete\<close> in the secret.
\<close>

theorem COS_provisions_iff_credentials:
  assumes "calm_api_server api view calm" and "calm w"
    and "run_state (processLocalDatasetCOS api cr) w = ((res, e), w')"
  shows "(e = None \<longleftrightarrow> credentials_of (view w) cr \<noteq> None) \<and>
    (if e = None then cos_settled (view w') cr else view w' = view w)"
  by (rule calm_api_server.COS_provisions_iff_credentials_in [OF assms])

theorem COS_provisions_iff_credentials_witness:
  "\<exists>w'. cos_settled (mem_view w') example_cos"
proof -
  obtain r e w' where run: "run_state (processLocalDatasetCOS mem_api example_cos) (world_of []) = ((r, e), w')"
    by (metis prod.exhaust)
  have "credentials_of (mem_view (world_of [])) example_cos \<noteq> None"
    by (simp add: credentials_of_def secret_ok_def example_cos_def secret_keys_def)
  then show ?thesis
    using COS_provisions_iff_credentials [OF mem_calm.calm_api_server_axioms world_of_calm run] by auto
qed

text \<open>
  What a successful run creates when the dataset is new: the secret holds the credentials, the
  bucket and folder (the parts before and after the first slash) and the flags, and the claim has the
  csi-s3 class and is read-only exactly for a read-only dataset.
\<close>

theorem COS_fresh_contents:
  assumes "api_server api view" and "run_state (processLocalDatasetCOS api cr) w = ((res, None), w')"
    and "view w (secret_key (name_of cr)) = None" and "view w (pvc_key (name_of cr)) = None"
  shows "\<exists>ks s p. credentials_of (view w) cr = Some ks \<and>
    view w' (secret_key (name_of cr)) = Some (OSecret s) \<and>
    map_of (sec_Data s) = map_of (sec_StringData (cos_secret cr ks)) \<and>
    view w' (pvc_key (name_of cr)) = Some p \<and> payload p = payload (OPersistentVolumeClaim (cos_pvc cr))"
  by (rule api_server.COS_fresh_contents_in [OF assms])

theorem COS_fresh_contents_witness:
  "\<exists>w' s p. mem_view w' (secret_key (''ns'', ''a'')) = Some (OSecret s) \<and> mget (sec_Data s) ''bucket'' = ''b'' \<and>
     mget (sec_Data s) ''folder'' = ''c'' \<and> mem_view w' (pvc_key (''ns'', ''a'')) = Some p"
proof -
  obtain r e w' where run: "run_state (processLocalDatasetCOS mem_api example_cos) (world_of []) = ((r, e), w')"
    by (metis prod.exhaust)
  have cred: "credentials_of (mem_view (world_of [])) example_cos \<noteq> None"
    by (simp add: credentials_of_def secret_ok_def example_cos_def secret_keys_def)
  then have e: "e = None"
    using mem_calm.COS_calm [OF world_of_calm [of "[]"], of example_cos] run by auto
  have n: "name_of example_cos = (''ns'', ''a'')" by (simp add: name_of_def example_cos_def ObjectMeta_def)
  obtain ks s p where c: "mem_view w' (secret_key (''ns'', ''a'')) = Some (OSecret s)"
    "map_of (sec_Data s) = map_of (sec_StringData (cos_secret example_cos ks))"
    "mem_view w' (pvc_key (''ns'', ''a'')) = Some p"
    using COS_fresh_contents [OF mem.api_server_axioms run [unfolded e]] n by (auto simp: view_world_of)
  have "mget (sec_Data s) k = mget (sec_StringData (cos_secret example_cos ks)) k" for k using c(2) by (simp add: mget_def)
  then have "mget (sec_Data s) ''bucket'' = ''b''" "mget (sec_Data s) ''folder'' = ''c''"
    by (simp_all add: cos_secret_def bucket_of_def folder_of_def example_cos_def Cut_def)
  then show ?thesis using c by blast
qed





section \<open>Deletion\<close>


definition deleted_cos :: DatasetInternal where
  "deleted_cos = with_finalizers (\<lambda>_. [datasetFinalizer])
     (example_cos\<lparr>di_meta := (di_meta example_cos)\<lparr>om_deletionTimestamp := Some ''now''\<rparr>\<rparr>)"

lemma deleted_cos_simps [simp]:
  "di_meta deleted_cos = (ObjectMeta ''a'' ''ns'' [])
     \<lparr>om_finalizers := [datasetFinalizer], om_deletionTimestamp := Some ''now''\<rparr>"
  by (simp add: deleted_cos_def with_finalizers_def example_cos_def)

lemma deleted_cos_view:
  "mem_view (world_of [ODatasetInternal deleted_cos]) k =
     (if k = internal_key (''ns'', ''a'') then Some (ODatasetInternal deleted_cos) else None)"
  by (simp add: view_world_of obj_key_def key_of_def key_defs ObjectMeta_def stored_form_def)

text \<open>The first request fails; the reconciliation after it finds a calm cluster.\<close>

definition deleted_faulty :: mem_world where
  "deleted_faulty = (world_of [ODatasetInternal deleted_cos])\<lparr>mw_faults := [True]\<rparr>"

lemma deleted_faulty_calm:
  "mem_calm (snd (run_state (reconcile_times 1 mem_api (table_metastore (\<lambda>_. None)) (\<lambda>_. None) (''ns'', ''a''))
     deleted_faulty))"
  by code_simp


text \<open>
  C8. The finalizer protects the clean-up: whatever requests fail, a reconciliation changes an instance
  that carries the finalizer only if it is marked for deletion and its claim and secret are gone.
\<close>

theorem finalizer_protects:
  assumes "catalog api view hms" and "view w (internal_key n) = Some (ODatasetInternal cr)"
    and "datasetFinalizer \<in> set (om_finalizers (di_meta cr))"
    and "run_state (ReconcileInternal api hms parse_url n) w = (r, w')"
  shows "view w' (internal_key n) = view w (internal_key n) \<or>
    om_deletionTimestamp (di_meta cr) \<noteq> None \<and> view w (pvc_key n) = None \<and> view w (secret_key n) = None"
  by (rule catalog.finalizer_kept [OF assms])

theorem finalizer_protects_witness:
  "\<exists>r w'. run_state (ReconcileInternal mem_api (table_metastore (\<lambda>_. None)) (\<lambda>_. None) (''ns'', ''a''))
     ((world_of [ODatasetInternal deleted_cos])\<lparr>mw_faults := [True]\<rparr>) = (r, w') \<and>
   (mem_view w' (internal_key (''ns'', ''a'')) = Some (ODatasetInternal deleted_cos) \<or>
    mem_view ((world_of [ODatasetInternal deleted_cos])\<lparr>mw_faults := [True]\<rparr>) (pvc_key (''ns'', ''a'')) = None)"
proof -
  let ?w = "(world_of [ODatasetInternal deleted_cos])\<lparr>mw_faults := [True]\<rparr>"
  have v: "mem_view ?w = mem_view (world_of [ODatasetInternal deleted_cos])" by (simp add: mem_view_def)
  have i: "mem_view ?w (internal_key (''ns'', ''a'')) = Some (ODatasetInternal deleted_cos)"
    by (simp add: v deleted_cos_view)
  obtain r w' where run: "run_state (ReconcileInternal mem_api (table_metastore (\<lambda>_. None)) (\<lambda>_. None) (''ns'', ''a'')) ?w = (r, w')"
    by (metis surj_pair)
  have "datasetFinalizer \<in> set (om_finalizers (di_meta deleted_cos))" by simp
  from finalizer_protects [OF mem_catalog.catalog_axioms i this run] show ?thesis using run i by auto
qed

section \<open>Two defects\<close>

lemma payload_volume:
  assumes "payload z = payload (OPersistentVolume v)"
  obtains v' where "z = OPersistentVolume v'" "pv_source v' = pv_source v"
proof (cases z)
  case (OPersistentVolume v')
  then have "v'\<lparr>pv_meta := strip_meta (pv_meta v')\<rparr> = v\<lparr>pv_meta := strip_meta (pv_meta v)\<rparr>"
    using assms by (simp add: payload_def)
  from arg_cong [OF this, of pv_source] show ?thesis using that OPersistentVolume by simp
qed (use assms in \<open>auto simp: payload_def\<close>)

lemma payload_claim:
  assumes "payload z = payload (OPersistentVolumeClaim c)"
  obtains c' where "z = OPersistentVolumeClaim c'" "pvc_volumeName c' = pvc_volumeName c"
proof (cases z)
  case (OPersistentVolumeClaim c')
  then have "c'\<lparr>pvc_phase := ClaimUnset, pvc_meta := strip_meta (pvc_meta c')\<rparr> =
      c\<lparr>pvc_phase := ClaimUnset, pvc_meta := strip_meta (pvc_meta c)\<rparr>"
    using assms by (simp add: payload_def)
  from arg_cong [OF this, of pvc_volumeName] show ?thesis using that OPersistentVolumeClaim by simp
qed (use assms in \<open>auto simp: payload_def\<close>)

text \<open>
  What a run without an error leaves for a new NFS dataset, whatever requests fail: its volume, and its claim
  unless the look-up of the claim failed.
\<close>

context api_server
begin

lemma NFS_fresh_contents_in:
  assumes run: "run_state (processLocalDatasetNFS api cr) w = ((res, None), w')"
    and new: "view w (pvc_key (name_of cr)) = None" "view w (pv_key (name_of cr)) = None"
  obtains uuid pv where "view w' (pv_key (name_of cr)) = Some (OPersistentVolume pv)"
    "pv_source pv = pv_source (nfs_pv cr uuid)"
    "\<And>p. view w' (pvc_key (name_of cr)) = Some p \<Longrightarrow>
       \<exists>c. p = OPersistentVolumeClaim c \<and> pvc_volumeName c = om_name (di_meta cr)"
proof -
  obtain g w1 where g: "run_state (api_Get api KPersistentVolumeClaim (name_of cr)) w = (g, w1)" by fastforce
  have "g = Inr x \<Longrightarrow> False" for x using get_found [of KPersistentVolumeClaim "name_of cr" w x w1] g new(1) by simp
  then obtain e where e: "g = Inl e" by (cases g) auto
  obtain uuid w2 where u: "run_state (api_NewUUID api) w1 = (uuid, w2)" by fastforce
  have "run_state (provision_volume api cr (nfs_pv cr uuid) (nfs_pvc cr)) w2 = ((res, None), w')"
    using run g e u by (simp add: processLocalDatasetNFS_def name_of_def)
  then obtain pv' pvc' w3 where
    pv': "api_SetControllerReference api (ODatasetInternal cr) (OPersistentVolume (nfs_pv cr uuid)) = Inr pv'"
    and pvc': "api_SetControllerReference api (ODatasetInternal cr) (OPersistentVolumeClaim (nfs_pvc cr)) = Inr pvc'"
    and r1: "run_state (create_if_absent api True pv') w2 = (None, w3)"
    and r2: "run_state (create_if_absent api False pvc') w3 = (None, w')"
    by (auto simp: provision_volume_def success_simps)
  have v2: "view w2 = view w" using get_view [OF g] new_uuid_view [OF u] by simp
  have k: "obj_key pv' = pv_key (name_of cr)" "obj_key pvc' = pvc_key (name_of cr)"
    using owned_key [OF pv'] owned_key [OF pvc'] by auto
  note e1 = create_strict_ok [OF r1] and e2 = create_if_absent_ok [OF r2]
  obtain y where y: "view w3 (pv_key (name_of cr)) = Some y" "payload y = payload pv'"
    using ensured_fresh [OF e1] k v2 new by auto
  obtain pv0 where pv0: "pv' = OPersistentVolume pv0" "pv_source pv0 = pv_source (nfs_pv cr uuid)"
    using set_reference [OF pv'] by auto
  obtain pv where pv: "y = OPersistentVolume pv" "pv_source pv = pv_source pv0"
    using payload_volume y(2) pv0(1) by metis
  have "view w' (pv_key (name_of cr)) = Some y" using e2 ensured_kept y(1) by metis
  moreover have "\<exists>c. p = OPersistentVolumeClaim c \<and> pvc_volumeName c = om_name (di_meta cr)"
    if p: "view w' (pvc_key (name_of cr)) = Some p" for p
  proof -
    have none: "view w3 (pvc_key (name_of cr)) = None" using ensured_other [OF e1] k v2 new by simp
    then have "ensured pvc' (view w3) (view w')" using e2 p by auto
    then have "payload p = payload pvc'" using ensured_fresh k none p by fastforce
    moreover obtain c where "pvc' = OPersistentVolumeClaim c" "pvc_volumeName c = om_name (di_meta cr)"
      using set_reference [OF pvc'] by (auto simp: nfs_pvc_def)
    ultimately show ?thesis using payload_claim by metis
  qed
  ultimately show thesis using that pv pv0 by auto
qed

end

context calm_api_server
begin

lemma HOST_volume:
  assumes "calm w" and "valid_host cr"
  obtains w' where "run_state (processLocalDatasetHOST api cr) w = ((Result, None), w')" "calm w'"
    "view w' (pvc_key (name_of cr)) \<noteq> None"
    "\<And>x. view w (pv_key (name_of cr)) = Some x \<Longrightarrow> view w' (pv_key (name_of cr)) = Some x"
    "view w (pv_key (name_of cr)) = None \<Longrightarrow>
     \<exists>pv t. view w' (pv_key (name_of cr)) = Some (OPersistentVolume pv) \<and>
       pv_source pv = HostPathVolumeSource (mget (spec_local cr) ''path'') t"
proof -
  obtain p t where p: "mget (spec_local cr) ''path'' \<noteq> ''''" "dataset_permissions (spec_local cr) = Inr p"
    "host_path_type_of (spec_local cr) = Inr t"
    using assms(2) by (auto simp: valid_host_def)
  obtain w' pv' pvc' v1 where
    r: "run_state (provision_volume api cr (host_pv cr p t) (host_pvc cr p)) w = ((Result, None), w')" "calm w'"
    and pv': "api_SetControllerReference api (ODatasetInternal cr) (OPersistentVolume (host_pv cr p t)) = Inr pv'"
    and pvc': "api_SetControllerReference api (ODatasetInternal cr) (OPersistentVolumeClaim (host_pvc cr p)) = Inr pvc'"
    and e: "ensured pv' (view w) v1" "ensured pvc' v1 (view w')"
    by (rule volume_calm [OF assms(1)])
  have k: "obj_key pv' = pv_key (name_of cr)" "obj_key pvc' = pvc_key (name_of cr)"
    using owned_key [OF pv'] owned_key [OF pvc'] by auto
  have fresh: "\<exists>pv t. view w' (pv_key (name_of cr)) = Some (OPersistentVolume pv) \<and>
      pv_source pv = HostPathVolumeSource (mget (spec_local cr) ''path'') t"
    if none: "view w (pv_key (name_of cr)) = None"
  proof -
    obtain v0 where v0: "pv' = OPersistentVolume v0" "pv_source v0 = pv_source (host_pv cr p t)"
      using set_reference [OF pv'] by auto
    obtain y where y: "v1 (pv_key (name_of cr)) = Some y" "payload y = payload pv'"
      using ensured_fresh [OF e(1)] none k by auto
    obtain q where "y = OPersistentVolume q" "pv_source q = pv_source v0"
      using payload_volume [of y v0] y(2) v0(1) by blast
    then show ?thesis using ensured_kept [OF e(2) y(1)] v0(2) by (auto simp: host_pv_def)
  qed
  have "run_state (processLocalDatasetHOST api cr) w = ((Result, None), w')"
    using p r(1) by (simp add: processLocalDatasetHOST_def)
  moreover have "view w' (pvc_key (name_of cr)) \<noteq> None" using ensured_present [OF e(2)] k by simp
  moreover have "view w' (pv_key (name_of cr)) = Some x" if "view w (pv_key (name_of cr)) = Some x" for x
    using ensured_kept [OF e(2) ensured_kept [OF e(1) that]] .
  ultimately show ?thesis using that [of w'] r(2) fresh by blast
qed

lemma host_collision:
  assumes "calm w" and "valid_host cr1" and "valid_host cr2" and "om_name (di_meta cr1) = om_name (di_meta cr2)"
    and "view w (pv_key (name_of cr1)) = None"
    and "run_state (processLocalDatasetHOST api cr1) w = (r1, w1)"
    and "run_state (processLocalDatasetHOST api cr2) w1 = (r2, w2)"
  shows "snd r2 = None \<and> view w2 (pvc_key (name_of cr2)) \<noteq> None \<and>
    (\<exists>pv t. view w2 (pv_key (name_of cr2)) = Some (OPersistentVolume pv) \<and>
       pv_source pv = HostPathVolumeSource (mget (spec_local cr1) ''path'') t)"
proof -
  have same: "pv_key (name_of cr1) = pv_key (name_of cr2)" using assms(4) by (simp add: pv_key_def name_of_def)
  obtain pv t where 1: "calm w1" "view w1 (pv_key (name_of cr1)) = Some (OPersistentVolume pv)"
    "pv_source pv = HostPathVolumeSource (mget (spec_local cr1) ''path'') t"
    by (rule HOST_volume [OF assms(1,2)]) (use assms(5,6) in auto)
  then have v1: "view w1 (pv_key (name_of cr2)) = Some (OPersistentVolume pv)" using same by simp
  obtain w' where 2: "run_state (processLocalDatasetHOST api cr2) w1 = ((Result, None), w')"
    "view w' (pvc_key (name_of cr2)) \<noteq> None"
    "\<And>x. view w1 (pv_key (name_of cr2)) = Some x \<Longrightarrow> view w' (pv_key (name_of cr2)) = Some x"
    by (rule HOST_volume [OF 1(1) assms(3)]) blast
  have "r2 = (Result, None)" "w' = w2" using 2(1) assms(7) by simp_all
  then show ?thesis using 2(2) 2(3) [OF v1] 1(3) by simp
qed

end

text \<open>
  C37. Volumes are named after the dataset alone, but are not namespaced: of two HOST datasets with the
  same name (in different namespaces), the second reports success with the volume, and so the host path,
  of the first.
\<close>

theorem host_volumes_collide:
  assumes "calm_api_server api view calm" and "calm w" and "valid_host cr1" and "valid_host cr2"
    and "om_name (di_meta cr1) = om_name (di_meta cr2)" and "view w (pv_key (name_of cr1)) = None"
    and "run_state (processLocalDatasetHOST api cr1) w = (r1, w1)"
    and "run_state (processLocalDatasetHOST api cr2) w1 = (r2, w2)"
  shows "snd r2 = None \<and> view w2 (pvc_key (name_of cr2)) \<noteq> None \<and>
    (\<exists>pv t. view w2 (pv_key (name_of cr2)) = Some (OPersistentVolume pv) \<and>
       pv_source pv = HostPathVolumeSource (mget (spec_local cr1) ''path'') t)"
  by (rule calm_api_server.host_collision [OF assms])

theorem host_volumes_collide_witness:
  "\<exists>w2 pv t. mem_view w2 (pv_key (''ns2'', ''a'')) = Some (OPersistentVolume pv) \<and>
     pv_source pv = HostPathVolumeSource ''/one'' t"
proof -
  obtain r1 w1 where r1: "run_state (processLocalDatasetHOST mem_api (example_host ''ns1'' ''/one'')) (world_of []) = (r1, w1)"
    by (metis surj_pair)
  obtain r2 w2 where r2: "run_state (processLocalDatasetHOST mem_api (example_host ''ns2'' ''/two'')) w1 = (r2, w2)"
    by (metis surj_pair)
  have valid: "valid_host (example_host ns p)" if "p \<noteq> ''''" for ns p
    using that by (simp add: valid_host_def example_host_def dataset_permissions_def host_path_type_of_def)
  have n: "name_of (example_host ns p) = (ns, ''a'')" for ns p by (simp add: name_of_def example_host_def ObjectMeta_def)
  have path: "mget (spec_local (example_host ns p)) ''path'' = p" for ns p by (simp add: example_host_def)
  have "mem_view (world_of []) k = None" for k by (simp add: view_world_of)
  from host_volumes_collide [OF mem_calm.calm_api_server_axioms world_of_calm valid valid _ this r1 r2]
  show ?thesis by (auto simp: n path) (auto simp: example_host_def ObjectMeta_def)
qed

text \<open>
  A failed request can pass for success: there is a run for an NFS dataset that returns no error, and
  asks for no requeue, although the claim was not created, because the error of the last lookup is
  dropped.
\<close>

theorem lost_claim_reported_as_success:
  "\<exists>w w' cr. run_state (processLocalDatasetNFS mem_api cr) w = ((Result, None), w') \<and>
     mem_view w' (pvc_key (name_of cr)) = None"
proof -
  let ?w = "(world_of [])\<lparr>mw_faults := [False, False, False, True]\<rparr>"
  let ?cr = example_nfs
  have "\<exists>w'. run_state (processLocalDatasetNFS mem_api ?cr) ?w = ((Result, None), w') \<and>
      mem_view w' (pvc_key (name_of ?cr)) = None"
    by (simp add: processLocalDatasetNFS_def provision_volume_def owned_by_def run_andthen create_if_absent_def
        mem_op_defs world_of_def example_nfs_def nfs_pv_def nfs_pvc_def empty_pvc_def dataset_meta_def ObjectMeta_def
        name_of_def IsNotFound_def obj_key_def key_of_def pvc_key_def set_deletion_def)
  then show ?thesis by blast
qed

end
