(* ===== verification/Archive.thy ===== *)
theory Archive
  imports K8s_Api
begin

text \<open>
  \<open>controllers/archive_handler.go\<close>: the job that downloads an archive into a fresh bucket.
\<close>

definition archive_command :: "bool \<Rightarrow> string \<Rightarrow> string \<Rightarrow> string \<Rightarrow> string list" where
  "archive_command extract podId fileUrl fileName =
     (if \<not> extract then
        [''/bin/sh'', ''-c'',
         ''wget '' @ fileUrl @ '' -P'' @ '' /tmp && '' @
         ''aws s3api create-bucket --bucket '' @ podId @ '' --endpoint-url $ENDPOINT && '' @
         ''aws s3 cp /tmp/'' @ fileName @ '' s3://'' @ podId @ '' --endpoint-url $ENDPOINT && '' @
         ''rm -rf  /tmp/'' @ fileName]
      else
        [''/bin/sh'', ''-c'',
         ''mkdir -p /data/'' @ podId @ '' && '' @
         ''wget '' @ fileUrl @ '' -P'' @ '' /tmp && '' @
         ''tar -xf /tmp/'' @ fileName @ '' -C /data/'' @ podId @ '' && '' @
         ''rm -rf /tmp/'' @ fileName @ '' && '' @
         ''aws s3api create-bucket --bucket '' @ podId @ '' --endpoint-url $ENDPOINT && '' @
         ''aws s3 cp /data/'' @ podId @ '' s3://'' @ podId @ '' --recursive --endpoint-url $ENDPOINT && '' @
         ''rm -rf /data''])"

text \<open>The job for a generated pod id.\<close>

definition download_job :: "Dataset \<Rightarrow> string \<Rightarrow> string \<Rightarrow> Job" where
  "download_job dataset operatorNamespace podId =
     (let fileUrl = sp_Url (ds_Spec dataset);
          extract = parse_bool_or_false (sp_Extract (ds_Spec dataset)) in
      \<lparr>job_meta = ObjectMeta (''cos-upload-'' @ take 4 podId) operatorNamespace [],
       job_BackoffLimit = 1, job_TTLSecondsAfterFinished = 1,
       job_Containers =
         [\<lparr>ct_Name = ''cos-uploader'', ct_Image = ''quay.io/datashim-io/cos-uploader:latest'',
           ct_ImagePullPolicy = ''Always'', ct_Command = archive_command extract podId fileUrl (path_base fileUrl),
           ct_EnvFrom = [\<lparr>ef_Prefix = '''', ef_ConfigMapRef = None, ef_SecretRef = Some ''minio-conf''\<rparr>],
           ct_VolumeMounts = []\<rparr>],
       job_RestartPolicy = ''Never''\<rparr>)"

definition getPodDataDownload :: "'w cluster_api \<Rightarrow> Dataset \<Rightarrow> string \<Rightarrow> ('w, Job \<times> string) state" where
  "getPodDataDownload api dataset operatorNamespace = do {
     podId \<leftarrow> api_NewUUID api;
     State_Monad.return (download_job dataset operatorNamespace podId, podId)
   }"

end
