(* ===== verification/Dataset_Controller.thy ===== *)
theory Dataset_Controller
  imports Dataset_Internal Archive
begin

text \<open>
  \<open>controllers/dataset_controller.go\<close>: the reconciler of Dataset objects.  It drives the two status
  fields of a Dataset (caching and provisioning) and creates the DatasetInternal object when caching is
  disabled.  Each call of \<open>ReconcileDataset\<close> is one invocation by the work queue; the parts of the
  handler that may return early give \<open>Some\<close> result, or \<open>None\<close> to go on.
\<close>

section \<open>Names\<close>

definition NameInvalidCharacters :: string where
  "NameInvalidCharacters =
     ''Name must consist of lower case alphanumeric characters or '' @ [CHR 0x27] @ ''-'' @ [CHR 0x27] @
     '', and must start and '' @
     ''end with an alphanumeric character (e.g. '' @ [CHR 0x27] @ ''example-dataset'' @ [CHR 0x27] @
     '',  or '' @ [CHR 0x27] @ ''123-dataset'' @ [CHR 0x27] @ '')''"

definition name_alnum :: "char \<Rightarrow> bool" where
  "name_alnum c =
     (let n = of_char c :: nat in (97 \<le> n \<and> n \<le> 122) \<or> (48 \<le> n \<and> n \<le> 57))"

definition name_char :: "char \<Rightarrow> bool" where
  "name_char c \<longleftrightarrow> name_alnum c \<or> c = CHR ''-''"

text \<open>The length of the match of \<open>([-a-z0-9]*[a-z0-9])?\<close> at the start of a string (greedy).\<close>

definition match_rest :: "string \<Rightarrow> nat" where
  "match_rest s = length (dropWhile (\<lambda>c. \<not> name_alnum c) (rev (takeWhile name_char s)))"

text \<open>\<open>reg.ReplaceAllString(name, "")\<close> for \<open>[a-z0-9]([-a-z0-9]*[a-z0-9])?\<close>.\<close>

function remove_matches :: "string \<Rightarrow> string" where
  "remove_matches [] = []"
| "remove_matches (c # s) =
     (if name_alnum c then remove_matches (drop (match_rest s) s) else c # remove_matches s)"
  by pat_completeness auto
termination by (relation "measure length") auto

section \<open>Status\<close>

definition set_provision :: "string \<Rightarrow> Dataset \<Rightarrow> Dataset" where
  "set_provision s d = d\<lparr>ds_Status := (ds_Status d)\<lparr>st_Provision := (st_Provision (ds_Status d))\<lparr>sc_Status := s\<rparr>\<rparr>\<rparr>"

definition set_provision_info :: "string \<Rightarrow> Dataset \<Rightarrow> Dataset" where
  "set_provision_info s d = d\<lparr>ds_Status := (ds_Status d)\<lparr>st_Provision := (st_Provision (ds_Status d))\<lparr>sc_Info := s\<rparr>\<rparr>\<rparr>"

definition set_caching :: "string \<Rightarrow> Dataset \<Rightarrow> Dataset" where
  "set_caching s d = d\<lparr>ds_Status := (ds_Status d)\<lparr>st_Caching := (st_Caching (ds_Status d))\<lparr>sc_Status := s\<rparr>\<rparr>\<rparr>"

definition set_caching_info :: "string \<Rightarrow> Dataset \<Rightarrow> Dataset" where
  "set_caching_info s d = d\<lparr>ds_Status := (ds_Status d)\<lparr>st_Caching := (st_Caching (ds_Status d))\<lparr>sc_Info := s\<rparr>\<rparr>\<rparr>"

abbreviation provision_status :: "Dataset \<Rightarrow> string" where
  "provision_status d \<equiv> sc_Status (st_Provision (ds_Status d))"

abbreviation provision_info :: "Dataset \<Rightarrow> string" where
  "provision_info d \<equiv> sc_Info (st_Provision (ds_Status d))"

abbreviation caching_status :: "Dataset \<Rightarrow> string" where
  "caching_status d \<equiv> sc_Status (st_Caching (ds_Status d))"

text \<open>The initialised dataset and whether it was modified.\<close>

definition initializeDatasetStatus :: "Dataset \<Rightarrow> Dataset \<times> bool" where
  "initializeDatasetStatus d =
     (let (d1, m1) = (if provision_status d = StatusEmpty then (set_provision StatusInitial d, True) else (d, False))
      in if caching_status d1 = StatusEmpty then (set_caching StatusInitial d1, True) else (d1, m1))"

definition updateDatasetStatusAndReturn :: "'w cluster_api \<Rightarrow> Dataset \<Rightarrow> ('w, reconcile_return) state" where
  "updateDatasetStatusAndReturn api d = do {
     err \<leftarrow> api_StatusUpdate api (ODataset d);
     State_Monad.return (Result, err)
   }"

definition updateDatasetAndReturn :: "'w cluster_api \<Rightarrow> Dataset \<Rightarrow> ('w, reconcile_return) state" where
  "updateDatasetAndReturn api d = do {
     err \<leftarrow> api_Update api (ODataset d);
     State_Monad.return (Result, err)
   }"

section \<open>Caching\<close>

definition datasetHasCachingAnnotationsSet :: "Dataset \<Rightarrow> string \<times> bool" where
  "datasetHasCachingAnnotationsSet d =
     (let annotations = om_annotations (ds_meta d);
          datasetHasCachingAnnotations = (\<forall>l \<in> set [''dlf-plugin-type'', ''dlf-plugin-name'']. mhas annotations l)
      in (if datasetHasCachingAnnotations then mget annotations ''dlf-plugin-name'' else '''',
          datasetHasCachingAnnotations))"

definition getCachingPlugins :: "'w cluster_api \<Rightarrow> ('w, api_error + Pod list) state" where
  "getCachingPlugins api =
     api_ListPods api (api_Getenv api ''OPERATOR_NAMESPACE'') [(''dlf-plugin-type'', ''caching'')] [''dlf-plugin-name'']"

definition set_annotations :: "smap \<Rightarrow> Dataset \<Rightarrow> Dataset" where
  "set_annotations a d = d\<lparr>ds_meta := (ds_meta d)\<lparr>om_annotations := a\<rparr>\<rparr>"

abbreviation pod_labels :: "Pod \<Rightarrow> smap" where
  "pod_labels p \<equiv> om_labels (pod_meta p)"

text \<open>A dataset in the presence of caching plugins.\<close>

definition assign_plugin :: "'w cluster_api \<Rightarrow> Dataset \<Rightarrow> Pod list \<Rightarrow> ('w, reconcile_return) state" where
  "assign_plugin api d plugins =
     (case datasetHasCachingAnnotationsSet d of (cachingPluginName, annotationsAreSet) \<Rightarrow>
        if \<not> annotationsAreSet then
          (case map_of (om_labels (ds_meta d)) ''cache.plugin'' of
             None \<Rightarrow> updateDatasetAndReturn api (set_annotations (pod_labels (hd plugins)) d)
           | Some cachePluginLabel \<Rightarrow>
               (case find (\<lambda>p. mget (pod_labels p) ''dlf-plugin-name'' = cachePluginLabel) plugins of
                  Some p \<Rightarrow> updateDatasetAndReturn api (set_annotations (pod_labels p) d)
                | None \<Rightarrow> updateDatasetStatusAndReturn api
                    (set_caching_info (''User specified plugin '' @ [CHR 0x27] @ cachePluginLabel @ [CHR 0x27] @
                       '' was not found. Falling back to disabled caching'')
                      (set_caching StatusDisabled d))))
        else updateDatasetStatusAndReturn api
          (set_caching_info (''Caching is assigned to '' @ cachingPluginName @ '' plugin'')
            (set_caching StatusPending d)))"

definition setup_caching :: "'w cluster_api \<Rightarrow> Dataset \<Rightarrow> ('w, reconcile_return) state" where
  "setup_caching api d =
     (if parse_bool_or_false (mget (om_labels (ds_meta d)) ''cache.disable'') then
        updateDatasetStatusAndReturn api
          (set_caching_info ''User explicitly disabled caching'' (set_caching StatusDisabled d))
      else do {
        pluginPods \<leftarrow> getCachingPlugins api;
        case pluginPods of
          Inl e \<Rightarrow> fail_with e
        | Inr plugins \<Rightarrow>
            if length plugins \<noteq> 0 then assign_plugin api d plugins
            else updateDatasetStatusAndReturn api
              (set_caching_info ''No DLF caching plugins are installed'' (set_caching StatusDisabled d))
      })"

section \<open>The DatasetInternal object\<close>

text \<open>The specification of an archive: object storage in the bucket the job fills.\<close>

definition archive_spec :: "Dataset \<Rightarrow> smap \<Rightarrow> string \<Rightarrow> DatasetSpec" where
  "archive_spec d minioConf bucket = empty_spec\<lparr>sp_Local := Some
     [(''type'', ''COS''), (''accessKeyID'', decoded_value minioConf ''AWS_ACCESS_KEY_ID''),
      (''secretAccessKey'', decoded_value minioConf ''AWS_SECRET_ACCESS_KEY''),
      (''endpoint'', decoded_value minioConf ''ENDPOINT''), (''readonly'', ''true''), (''bucket'', bucket),
      (''extract'', if length (sp_Extract (ds_Spec d)) > 0 then sp_Extract (ds_Spec d) else ''false''),
      (''region'', ''''),
      (''provision'', getBooleanStringForKeyInMap ''false'' ''provision'' (local_map (ds_Spec d)))]\<rparr>"

text \<open>The specification of the DatasetInternal; for an archive the download job is created first.\<close>

definition internal_spec :: "'w cluster_api \<Rightarrow> Dataset \<Rightarrow> ('w, api_error + DatasetSpec) state" where
  "internal_spec api d =
     (if sp_Type (ds_Spec d) = ''ARCHIVE'' then do {
        job \<leftarrow> getPodDataDownload api d (api_Getenv api ''OPERATOR_NAMESPACE'');
        err \<leftarrow> api_Create api (OJob (fst job));
        case err of
          Some e \<Rightarrow> State_Monad.return (Inl e)
        | None \<Rightarrow> do {
            minioConf \<leftarrow> api_Get api KSecret (api_Getenv api ''OPERATOR_NAMESPACE'', ''minio-conf'');
            State_Monad.return
              (case minioConf of
                 Inl e \<Rightarrow> Inl e
               | Inr (OSecret s) \<Rightarrow> Inr (archive_spec d (sec_Data s) (snd job))
               | Inr _ \<Rightarrow> Inl (OtherError ''unexpected object''))
          }
      } else State_Monad.return (Inr (ds_Spec d)))"

definition new_internal :: "Dataset \<Rightarrow> DatasetSpec \<Rightarrow> DatasetInternal" where
  "new_internal d s =
     \<lparr>di_meta = ObjectMeta (om_name (ds_meta d)) (om_namespace (ds_meta d)) (om_labels (ds_meta d)),
      di_Spec = s, di_Placements = empty_placement\<rparr>"

text \<open>The error of the first part of the handler for a disabled cache, if any.\<close>

definition ensure_internal :: "'w cluster_api \<Rightarrow> namespaced_name \<Rightarrow> Dataset \<Rightarrow> ('w, api_error option) state" where
  "ensure_internal api req d = do {
     found \<leftarrow> api_Get api KDatasetInternal req;
     case found of
       Inr _ \<Rightarrow> State_Monad.return None
     | Inl e \<Rightarrow>
         if \<not> IsNotFound e then State_Monad.return (Some e)
         else do {
           s \<leftarrow> internal_spec api d;
           case s of
             Inl e \<Rightarrow> State_Monad.return (Some e)
           | Inr sp \<Rightarrow>
               (case api_SetControllerReference api (ODataset d) (ODatasetInternal (new_internal d sp)) of
                  Inl e \<Rightarrow> State_Monad.return (Some e)
                | Inr x \<Rightarrow> api_Create api x)
         }
   }"

section \<open>Provisioning\<close>

definition RequeueAfter5s :: reconcile_result where
  "RequeueAfter5s = \<lparr>rr_Requeue = True, rr_RequeueAfter = 5\<rparr>"

definition readEventsForPVC ::
  "'w cluster_api \<Rightarrow> PersistentVolumeClaim \<Rightarrow> ('w, api_error + string) state" where
  "readEventsForPVC api pvc = do {
     eventList \<leftarrow> api_ListEvents api (om_namespace (pvc_meta pvc)) (om_name (pvc_meta pvc))
                   (om_resourceVersion (pvc_meta pvc)) ''ProvisioningFailed'';
     State_Monad.return
       (case eventList of
          Inl e \<Rightarrow> Inl e
        | Inr items \<Rightarrow> Inr (if length items > 0 then items ! (length items - 1) else ''''))
   }"

text \<open>A claim that is pending.\<close>

definition claim_pending ::
  "'w cluster_api \<Rightarrow> Dataset \<Rightarrow> PersistentVolumeClaim \<Rightarrow> ('w, reconcile_return) state" where
  "claim_pending api d pvc =
     (let (d1, updated1) =
            (if provision_status d \<noteq> StatusPending then (set_provision StatusPending d, True) else (d, False)) in
      do {
        lastEvent \<leftarrow> readEventsForPVC api pvc;
        let (d2, statusUpdated) =
          (case lastEvent of
             Inl _ \<Rightarrow> (d1, updated1)
           | Inr msg \<Rightarrow>
               if provision_info d1 \<noteq> msg then (set_provision_info msg d1, True) else (d1, updated1)) in
        if statusUpdated then updateDatasetStatusAndReturn api d2
        else State_Monad.return (RequeueAfter5s, None)
      })"

definition check_provision ::
  "'w cluster_api \<Rightarrow> namespaced_name \<Rightarrow> Dataset \<Rightarrow> ('w, reconcile_return option) state" where
  "check_provision api req d =
     (if provision_status d \<noteq> StatusFail \<and> provision_status d \<noteq> StatusOK then do {
        foundPVC \<leftarrow> api_Get api KPersistentVolumeClaim req;
        case foundPVC of
          Inl e \<Rightarrow>
            if IsNotFound e then
              if provision_status d \<noteq> StatusPending then do {
                r \<leftarrow> updateDatasetStatusAndReturn api (set_provision StatusPending d);
                State_Monad.return (Some r)
              }
              else State_Monad.return (Some (RequeueAfter5s, None))
            else State_Monad.return (Some (Result, Some e))
        | Inr (OPersistentVolumeClaim pvc) \<Rightarrow>
            (case pvc_phase pvc of
               ClaimLost \<Rightarrow> State_Monad.return None
             | ClaimPending \<Rightarrow> do { r \<leftarrow> claim_pending api d pvc; State_Monad.return (Some r) }
             | ClaimBound \<Rightarrow>
                 if provision_status d \<noteq> StatusOK then do {
                   r \<leftarrow> updateDatasetStatusAndReturn api (set_provision_info '''' (set_provision StatusOK d));
                   State_Monad.return (Some r)
                 }
                 else State_Monad.return None
             | ClaimUnset \<Rightarrow> State_Monad.return None)
        | Inr _ \<Rightarrow> State_Monad.return (Some (Result, Some (OtherError ''unexpected object'')))
      } else State_Monad.return None)"

section \<open>Editable labels\<close>

text \<open>The loop over \<open>editableLabels\<close>, on the labels of the DatasetInternal and the flag.\<close>

fun labels_loop :: "smap \<Rightarrow> string list \<Rightarrow> smap \<times> bool \<Rightarrow> smap \<times> bool" where
  "labels_loop datasetLabels [] st = st"
| "labels_loop datasetLabels (label # labels) (internal, shouldUpdate) =
     (let (internal1, shouldUpdate1) =
            (if mhas datasetLabels label then (mset_key label (mget datasetLabels label) internal, True)
             else (internal, shouldUpdate)) in
      if mhas internal1 label \<and> \<not> mhas datasetLabels label then
        labels_loop datasetLabels labels (mdelete label internal1, True)
      else labels_loop datasetLabels labels (internal1, shouldUpdate1))"

definition checkIfEditableLabelsChangedAndUpdate ::
  "'w cluster_api \<Rightarrow> Dataset \<Rightarrow> DatasetInternal \<Rightarrow> ('w, api_error option) state" where
  "checkIfEditableLabelsChangedAndUpdate api dataset datasetInternal =
     (case labels_loop (om_labels (ds_meta dataset)) [''remove-on-delete''] (om_labels (di_meta datasetInternal), False) of
        (labels, shouldUpdateOrDelete) \<Rightarrow>
          if shouldUpdateOrDelete then
            api_Update api (ODatasetInternal
              (datasetInternal\<lparr>di_meta := (di_meta datasetInternal)\<lparr>om_labels := labels\<rparr>\<rparr>))
          else State_Monad.return None)"

definition sync_labels :: "'w cluster_api \<Rightarrow> namespaced_name \<Rightarrow> Dataset \<Rightarrow> ('w, reconcile_return) state" where
  "sync_labels api req d = do {
     found \<leftarrow> api_Get api KDatasetInternal req;
     case found of
       Inr (ODatasetInternal internal) \<Rightarrow>
         andthen (checkIfEditableLabelsChangedAndUpdate api d internal) (State_Monad.return (Result, None))
     | _ \<Rightarrow> State_Monad.return (Result, None)
   }"

section \<open>Reconcile\<close>

text \<open>The status of a dataset whose status was just initialised, with the check of its name.\<close>

definition check_name :: "Dataset \<Rightarrow> Dataset" where
  "check_name d =
     (if length (remove_matches (om_name (ds_meta d))) > 0
      then set_caching StatusFail (set_provision_info NameInvalidCharacters (set_provision StatusFail d))
      else d)"

definition reconcile_provision ::
  "'w cluster_api \<Rightarrow> namespaced_name \<Rightarrow> Dataset \<Rightarrow> ('w, reconcile_return) state" where
  "reconcile_provision api req d = do {
     r \<leftarrow> check_provision api req d;
     case r of Some res \<Rightarrow> State_Monad.return res | None \<Rightarrow> sync_labels api req d
   }"

definition ReconcileDataset ::
  "'w cluster_api \<Rightarrow> namespaced_name \<Rightarrow> ('w, reconcile_return) state" where
  "ReconcileDataset api req = do {
     r \<leftarrow> api_Get api KDataset req;
     case r of
       Inl e \<Rightarrow> if IsNotFound e then State_Monad.return (Result, None) else fail_with e
     | Inr (ODataset d) \<Rightarrow>
         (case initializeDatasetStatus d of (d1, modified) \<Rightarrow>
            if modified then updateDatasetStatusAndReturn api (check_name d1)
            else if caching_status d1 = StatusInitial then setup_caching api d1
            else if caching_status d1 = StatusDisabled then
              andthen (ensure_internal api req d1) (reconcile_provision api req d1)
            else reconcile_provision api req d1)
     | Inr _ \<Rightarrow> fail_with (OtherError ''unexpected object'')
   }"

end
