(* ===== verification/Dataset_Proofs.thy ===== *)
theory Dataset_Proofs
  imports Dataset_Controller Internal_Properties
begin

text \<open>
  The effects of the Dataset reconciler: what it may touch, when it creates the DatasetInternal, and how the
  two status fields move.  \<open>status_step\<close> is the state machine of the status as a step relation; every run of
  the handler is shown to follow it.
\<close>

section \<open>Names\<close>

definition valid_name :: "string \<Rightarrow> bool" where
  "valid_name s \<longleftrightarrow> s \<noteq> [] \<and> name_alnum (hd s) \<and> name_alnum (last s) \<and> (\<forall>c \<in> set s. name_char c)"

lemma name_alnum_char [simp]: "name_alnum c \<Longrightarrow> name_char c"
  by (simp add: name_char_def)

lemma match_rest_le: "match_rest s \<le> length (takeWhile name_char s)"
  unfolding match_rest_def by (metis length_dropWhile_le length_rev)

lemma take_match_rest:
  "take (match_rest s) s = [] \<or> name_alnum (last (take (match_rest s) s))"
  "\<forall>c \<in> set (take (match_rest s) s). name_char c"
proof -
  let ?t = "takeWhile name_char s"
  have take: "take (match_rest s) s = take (match_rest s) ?t"
    using match_rest_le [of s] by (metis append_take_drop_id take_append takeWhile_dropWhile_id diff_is_0_eq take_0 append_Nil2)
  have "take (match_rest s) ?t = rev (dropWhile (\<lambda>c. \<not> name_alnum c) (rev ?t))"
  proof -
    let ?d = "dropWhile (\<lambda>c. \<not> name_alnum c) (rev ?t)"
    have "rev ?t = takeWhile (\<lambda>c. \<not> name_alnum c) (rev ?t) @ ?d" by simp
    then have "?t = rev ?d @ rev (takeWhile (\<lambda>c. \<not> name_alnum c) (rev ?t))" by (metis rev_append rev_rev_ident)
    then have "take (length (rev ?d)) ?t = rev ?d" by (metis append_eq_conv_conj)
    then show ?thesis by (simp add: match_rest_def)
  qed
  then have eq: "take (match_rest s) s = rev (dropWhile (\<lambda>c. \<not> name_alnum c) (rev ?t))" using take by simp
  show "take (match_rest s) s = [] \<or> name_alnum (last (take (match_rest s) s))"
    unfolding eq using hd_dropWhile [of "\<lambda>c. \<not> name_alnum c" "rev ?t"] by (auto simp: last_rev)
  show "\<forall>c \<in> set (take (match_rest s) s). name_char c"
    unfolding take by (meson in_set_takeD set_takeWhileD)
qed

lemma match_rest_all:
  assumes "\<forall>c \<in> set s. name_char c" and "s = [] \<or> name_alnum (last s)"
  shows "match_rest s = length s"
proof -
  have "takeWhile name_char s = s" using assms(1) by (simp add: takeWhile_eq_all_conv)
  moreover have "dropWhile (\<lambda>c. \<not> name_alnum c) (rev s) = rev s"
    using assms(2) by (cases s rule: rev_cases) auto
  ultimately show ?thesis unfolding match_rest_def by (simp only: length_rev)
qed

lemma remove_matches_start: "\<not> name_alnum c \<Longrightarrow> remove_matches (c # s) \<noteq> []"
  by simp

text \<open>After the longest match comes a character that starts no match.\<close>

lemma match_rest_next:
  assumes "match_rest s < length s"
  shows "remove_matches (drop (match_rest s) s) \<noteq> []"
proof -
  obtain c r where d: "drop (match_rest s) s = c # r" using assms by (metis Cons_nth_drop_Suc)
  have "\<not> name_alnum c"
  proof
    assume c: "name_alnum c"
    let ?m = "match_rest s"
    have pre: "\<forall>x \<in> set (take ?m s @ [c]). name_char x" using take_match_rest(2) [of s] c by simp
    have s: "s = (take ?m s @ [c]) @ r" using d by (metis append.assoc append_Cons append_Nil append_take_drop_id)
    have "takeWhile name_char s = (take ?m s @ [c]) @ takeWhile name_char r"
      using pre by (subst s, subst takeWhile_append2) auto
    then have "dropWhile (\<lambda>c. \<not> name_alnum c) (rev (takeWhile name_char s)) =
        dropWhile (\<lambda>c. \<not> name_alnum c) (rev (takeWhile name_char r) @ c # rev (take ?m s))" by simp
    also have "length \<dots> \<ge> length (c # rev (take ?m s))"
      using c by (simp add: dropWhile_append)
    finally have "match_rest s \<ge> Suc (length (take ?m s))" unfolding match_rest_def by simp
    then show False using assms by simp
  qed
  then show ?thesis using d by simp
qed

lemma remove_matches_empty_iff: "remove_matches s = [] \<longleftrightarrow> s = [] \<or> valid_name s"
proof (cases s)
  case (Cons c r)
  show ?thesis
  proof (cases "name_alnum c")
    case True
    show ?thesis
    proof (cases "match_rest r < length r")
      case True
      then have "remove_matches s \<noteq> []" using match_rest_next Cons \<open>name_alnum c\<close> by simp
      moreover have "\<not> valid_name s"
        using match_rest_all [of r] True Cons by (auto simp: valid_name_def split: if_splits)
      ultimately show ?thesis using Cons by simp
    next
      case False
      then have all: "take (match_rest r) r = r" by simp
      have "valid_name s"
        using take_match_rest [of r] True Cons unfolding all by (auto simp: valid_name_def)
      moreover have "remove_matches s = []" using False True Cons by simp
      ultimately show ?thesis by simp
    qed
  qed (use Cons in \<open>simp add: valid_name_def\<close>)
qed simp

section \<open>Status\<close>

lemma set_status_simps [simp]:
  "ds_meta (set_provision s d) = ds_meta d" "ds_meta (set_caching s d) = ds_meta d"
  "ds_meta (set_provision_info s d) = ds_meta d" "ds_meta (set_caching_info s d) = ds_meta d"
  "ds_Spec (set_provision s d) = ds_Spec d" "ds_Spec (set_caching s d) = ds_Spec d"
  "ds_Spec (set_provision_info s d) = ds_Spec d" "ds_Spec (set_caching_info s d) = ds_Spec d"
  "provision_status (set_provision s d) = s" "caching_status (set_provision s d) = caching_status d"
  "caching_status (set_caching s d) = s" "provision_status (set_caching s d) = provision_status d"
  "provision_status (set_provision_info i d) = provision_status d"
  "caching_status (set_provision_info i d) = caching_status d"
  "provision_status (set_caching_info i d) = provision_status d"
  "caching_status (set_caching_info i d) = caching_status d"
  by (simp_all add: set_provision_def set_caching_def set_provision_info_def set_caching_info_def)

text \<open>The pair of status fields, caching first.\<close>

type_synonym statuses = "string \<times> string"

definition statuses_of :: "Dataset \<Rightarrow> statuses" where
  "statuses_of d = (caching_status d, provision_status d)"

text \<open>The state machine of a dataset; the flag says whether its name is valid.\<close>

inductive status_step :: "bool \<Rightarrow> statuses \<Rightarrow> statuses \<Rightarrow> bool" for valid where
  init: "valid \<Longrightarrow> c = StatusEmpty \<or> p = StatusEmpty \<Longrightarrow>
    status_step valid (c, p) (if c = StatusEmpty then StatusInitial else c, if p = StatusEmpty then StatusInitial else p)"
| reject: "\<not> valid \<Longrightarrow> c = StatusEmpty \<or> p = StatusEmpty \<Longrightarrow> status_step valid (c, p) (StatusFail, StatusFail)"
| cache_off: "p \<noteq> StatusEmpty \<Longrightarrow> status_step valid (StatusInitial, p) (StatusDisabled, p)"
| cache_on: "p \<noteq> StatusEmpty \<Longrightarrow> status_step valid (StatusInitial, p) (StatusPending, p)"
| waiting: "c \<noteq> StatusInitial \<Longrightarrow> c \<noteq> StatusEmpty \<Longrightarrow> p \<notin> {StatusEmpty, StatusFail, StatusOK} \<Longrightarrow>
    status_step valid (c, p) (c, StatusPending)"
| bound: "c \<noteq> StatusInitial \<Longrightarrow> c \<noteq> StatusEmpty \<Longrightarrow> p \<notin> {StatusEmpty, StatusFail, StatusOK} \<Longrightarrow>
    status_step valid (c, p) (c, StatusOK)"

inductive_cases status_stepE: "status_step valid s t"

text \<open>A settled pair never moves again.\<close>

lemma status_distinct [simp]:
  "StatusInitial \<noteq> StatusEmpty" "StatusPending \<noteq> StatusEmpty" "StatusOK \<noteq> StatusEmpty"
  "StatusDisabled \<noteq> StatusEmpty" "StatusFail \<noteq> StatusEmpty" "StatusDisabled \<noteq> StatusInitial"
  "StatusPending \<noteq> StatusInitial" "StatusFail \<noteq> StatusInitial" "StatusOK \<noteq> StatusInitial"
  "StatusFail \<noteq> StatusOK" "StatusPending \<noteq> StatusOK" "StatusPending \<noteq> StatusFail"
  "StatusDisabled \<noteq> StatusFail" "StatusDisabled \<noteq> StatusPending" "StatusInitial \<noteq> StatusOK"
  "StatusInitial \<noteq> StatusFail" "StatusInitial \<noteq> StatusPending" "StatusInitial \<noteq> StatusDisabled"
  "StatusFail \<noteq> StatusDisabled"
  by (simp_all add: status_defs)

lemmas status_distinct_sym [simp] = status_distinct [symmetric]

lemma status_invariant:
  "(status_step valid)\<^sup>*\<^sup>* (StatusEmpty, StatusEmpty) s \<Longrightarrow>
   s = (StatusEmpty, StatusEmpty) \<or> \<not> valid \<and> s = (StatusFail, StatusFail) \<or>
   valid \<and> fst s \<in> {StatusInitial, StatusDisabled, StatusPending} \<and>
     snd s \<in> {StatusInitial, StatusPending, StatusOK} \<and> (fst s = StatusInitial \<longrightarrow> snd s = StatusInitial)"
proof (induction rule: rtranclp_induct)
  case (step s t)
  obtain c p where s: "s = (c, p)" by fastforce
  from step.hyps(2) [unfolded s] show ?case
  proof cases
    case init
    then show ?thesis using step.IH s by (cases "c = StatusEmpty") auto
  next
    case reject
    then show ?thesis by simp
  next
    case cache_off
    then show ?thesis using step.IH s by simp
  next
    case cache_on
    then show ?thesis using step.IH s by simp
  next
    case waiting
    then show ?thesis using step.IH s by simp
  next
    case bound
    then show ?thesis using step.IH s by simp
  qed
qed simp

lemma final_status:
  "(status_step valid)\<^sup>*\<^sup>* (c, p) t \<Longrightarrow> c \<notin> {StatusEmpty, StatusInitial} \<Longrightarrow> p \<in> {StatusOK, StatusFail} \<Longrightarrow> t = (c, p)"
proof (induction rule: rtranclp_induct)
  case (step s t)
  then show ?case by (auto elim: status_stepE)
qed simp

section \<open>Frame\<close>

definition dataset_key :: "namespaced_name \<Rightarrow> obj_key" where "dataset_key n = (KDataset, n)"

lemma dataset_key_simps [simp]: "(KDataset, n) = dataset_key n"
  "dataset_key n = internal_key m \<longleftrightarrow> False" "dataset_key n = (KJob, j) \<longleftrightarrow> False"
  "internal_key n = (KJob, j) \<longleftrightarrow> False"
  "(KJob, j) = dataset_key n \<longleftrightarrow> False" "(KJob, j) = internal_key n \<longleftrightarrow> False" "dataset_key n = pvc_key m \<longleftrightarrow> False"
  "internal_key n = dataset_key m \<longleftrightarrow> False" "dataset_key n = dataset_key m \<longleftrightarrow> n = m"
  by (simp_all add: dataset_key_def internal_key_def pvc_key_def)

definition ds_name :: "Dataset \<Rightarrow> namespaced_name" where
  "ds_name d = (om_namespace (ds_meta d), om_name (ds_meta d))"

lemma obj_key_dataset [simp]: "obj_key (ODataset d) = dataset_key (ds_name d)"
  by (simp add: obj_key_def key_of_def ds_name_def)

lemma ds_name_set_status [simp]:
  "ds_name (set_provision s d) = ds_name d" "ds_name (set_caching s d) = ds_name d"
  "ds_name (set_provision_info s d) = ds_name d" "ds_name (set_caching_info s d) = ds_name d"
  "ds_name (set_annotations a d) = ds_name d"
  by (simp_all add: ds_name_def set_annotations_def)

lemma obj_key_job [simp]: "obj_key (OJob (download_job d ns u)) = (KJob, (ns, ''cos-upload-'' @ take 4 u))"
  by (simp add: obj_key_def key_of_def download_job_def Let_def ObjectMeta_def)

lemma obj_key_new_internal [simp]: "obj_key (ODatasetInternal (new_internal d s)) = internal_key (ds_name d)"
  by (simp add: obj_key_internal new_internal_def name_of_def ds_name_def ObjectMeta_def)

lemma obj_key_labels [simp]:
  "obj_key (ODatasetInternal (i\<lparr>di_meta := (di_meta i)\<lparr>om_labels := ls\<rparr>\<rparr>)) = obj_key (ODatasetInternal i)"
  by (simp add: obj_key_def)

lemma check_name_meta [simp]: "ds_meta (check_name d) = ds_meta d" "ds_name (check_name d) = ds_name d"
  by (simp_all add: check_name_def)

lemma initialize_meta: "initializeDatasetStatus d = (d', m) \<Longrightarrow> ds_meta d' = ds_meta d \<and> ds_Spec d' = ds_Spec d"
  by (auto simp: initializeDatasetStatus_def Let_def split: if_splits)

text \<open>The jobs of the operator's namespace.\<close>

definition job_keys :: "'w cluster_api \<Rightarrow> obj_key set" where
  "job_keys api = {(KJob, (api_Getenv api ''OPERATOR_NAMESPACE'', j)) |j. True}"

context api_server
begin

lemma owned_by_dataset_key: "api_SetControllerReference api (ODataset d) x = Inr y \<Longrightarrow> obj_key y = obj_key x"
  by (rule owned_key)

lemma frame_status_return [frame_intros]:
  "dataset_key (ds_name d) \<in> K \<Longrightarrow> state_io_rel (off K) (updateDatasetStatusAndReturn api d)"
  unfolding updateDatasetStatusAndReturn_def by (intro frame_intros) auto

lemma frame_update_return [frame_intros]:
  "dataset_key (ds_name d) \<in> K \<Longrightarrow> state_io_rel (off K) (updateDatasetAndReturn api d)"
  unfolding updateDatasetAndReturn_def by (intro frame_intros) auto

lemma frame_assign_plugin [frame_intros]:
  "dataset_key (ds_name d) \<in> K \<Longrightarrow> state_io_rel (off K) (assign_plugin api d ps)"
  unfolding assign_plugin_def by (intro frame_intros) auto

lemma frame_setup_caching [frame_intros]:
  "dataset_key (ds_name d) \<in> K \<Longrightarrow> state_io_rel (off K) (setup_caching api d)"
  unfolding setup_caching_def getCachingPlugins_def by (intro frame_intros) auto

lemma frame_internal_spec [frame_intros]:
  assumes "job_keys api \<subseteq> K"
  shows "state_io_rel (off K) (internal_spec api d)"
proof -
  have "(KJob, (api_Getenv api ''OPERATOR_NAMESPACE'', j)) \<in> K" for j
    using assms by (auto simp: job_keys_def)
  then show ?thesis
    unfolding internal_spec_def getPodDataDownload_def by (auto intro!: frame_intros)
qed

lemma frame_ensure_internal [frame_intros]:
  assumes "job_keys api \<subseteq> K" and "internal_key (ds_name d) \<in> K"
  shows "state_io_rel (off K) (ensure_internal api n d)"
  unfolding ensure_internal_def
  using assms by (intro frame_intros) (auto dest: owned_key)

lemma frame_check_provision [frame_intros]:
  assumes "dataset_key (ds_name d) \<in> K"
  shows "state_io_rel (off K) (check_provision api n d)"
proof -
  have "state_io_rel (off K) (claim_pending api d pvc)" for pvc
    unfolding claim_pending_def readEventsForPVC_def Let_def
    by (intro frame_intros) (use assms in \<open>auto split: if_splits sum.splits prod.splits\<close>)
  then show ?thesis
    unfolding check_provision_def using assms by (intro frame_intros) (auto intro!: frame_intros split: k8s_object.splits claim_phase.splits)
qed

lemma frame_sync_labels [frame_intros]:
  assumes "internal_key n \<in> K"
  shows "state_io_rel (off K) (sync_labels api n d)"
  unfolding sync_labels_def
proof (rule frame_bind_get)
  fix x assume "obj_key x = key_of KDatasetInternal n"
  then show "state_io_rel (off K) (case Inr x of
      Inr (ODatasetInternal internal) \<Rightarrow>
        andthen (checkIfEditableLabelsChangedAndUpdate api d internal) (State_Monad.return (Result, None))
    | _ \<Rightarrow> State_Monad.return (Result, None))"
    using assms unfolding checkIfEditableLabelsChangedAndUpdate_def
    by (cases x) (auto intro!: frame_intros split: prod.splits)
qed (auto intro!: frame_intros)

lemma frame_reconcile_provision [frame_intros]:
  "dataset_key (ds_name d) \<in> K \<Longrightarrow> internal_key n \<in> K \<Longrightarrow> state_io_rel (off K) (reconcile_provision api n d)"
  unfolding reconcile_provision_def by (intro frame_intros) auto

lemma frame_reconcile_dataset:
  assumes "K = {dataset_key n, internal_key n} \<union> job_keys api"
  shows "state_io_rel (off K) (ReconcileDataset api n)"
  unfolding ReconcileDataset_def
proof (rule frame_bind_get)
  fix x assume x: "obj_key x = key_of KDataset n"
  show "state_io_rel (off K) (case Inr x of
      Inl e \<Rightarrow> if IsNotFound e then State_Monad.return (Result, None) else fail_with e
    | Inr (ODataset d) \<Rightarrow>
        (case initializeDatasetStatus d of (d1, modified) \<Rightarrow>
           if modified then updateDatasetStatusAndReturn api (check_name d1)
           else if caching_status d1 = StatusInitial then setup_caching api d1
           else if caching_status d1 = StatusDisabled then
             andthen (ensure_internal api n d1) (reconcile_provision api n d1)
           else reconcile_provision api n d1)
    | Inr _ \<Rightarrow> fail_with (OtherError ''unexpected object''))"
  proof (cases x)
    case (ODataset d)
    then have "ds_name d = n" using x by simp
    then have "ds_name d1 = n" if "initializeDatasetStatus d = (d1, m)" for d1 m
      using initialize_meta [OF that] by (simp add: ds_name_def)
    then show ?thesis using ODataset assms by (auto intro!: frame_intros split: prod.splits)
  qed (auto intro!: frame_intros)
qed (auto intro!: frame_intros)

end

end
