(* ===== verification/Dataset_Steps.thy ===== *)
theory Dataset_Steps
  imports Dataset_Proofs
begin

text \<open>
  Every run of the Dataset reconciler follows the state machine \<open>status_step\<close>, as Hoare triples: until its
  last write a handler keeps the stored dataset, and the last write sets one of the successors.
\<close>

definition status_at :: "cluster \<Rightarrow> namespaced_name \<Rightarrow> statuses option" where
  "status_at v n = (case v (dataset_key n) of Some (ODataset d) \<Rightarrow> Some (statuses_of d) | _ \<Rightarrow> None)"

lemma triple_keep_bind:
  "triple P m (\<lambda>_. P) \<Longrightarrow> (\<And>a. triple P (f a) Q) \<Longrightarrow> triple P (State_Monad.bind m f) Q"
  by (rule triple_bind)

lemma statuses_of_simps [simp]:
  "statuses_of (set_provision s d) = (caching_status d, s)" "statuses_of (set_caching s d) = (s, provision_status d)"
  "statuses_of (set_provision_info i d) = statuses_of d" "statuses_of (set_caching_info i d) = statuses_of d"
  "statuses_of (set_annotations a d) = statuses_of d"
  by (simp_all add: statuses_of_def) (simp add: set_annotations_def)

lemma finalizers_annotations [simp]: "om_finalizers (ds_meta (set_annotations a d)) = om_finalizers (ds_meta d)"
  by (simp add: set_annotations_def)

context api_server
begin

text \<open>The world holds dataset \<open>d\<close>, or a dataset with one of the given statuses.\<close>

definition holds :: "Dataset \<Rightarrow> 'w \<Rightarrow> bool" where
  "holds d w \<longleftrightarrow> view w (dataset_key (ds_name d)) = Some (ODataset d)"

definition status_in :: "namespaced_name \<Rightarrow> statuses set \<Rightarrow> 'w \<Rightarrow> bool" where
  "status_in n S w \<longleftrightarrow> status_at (view w) n \<in> Some ` S"

lemma holds_status: "holds d w \<Longrightarrow> statuses_of d \<in> S \<Longrightarrow> status_in (ds_name d) S w"
  by (simp add: holds_def status_in_def status_at_def)

lemma triple_frame:
  assumes "state_io_rel (off K) m" and "dataset_key (ds_name d) \<notin> K"
  shows "triple (holds d) m (\<lambda>_. holds d)"
  by (rule tripleI) (use frameD [OF assms(1) _ assms(2)] in \<open>auto simp: holds_def\<close>)

lemma triple_frame_status:
  assumes "state_io_rel (off K) m" and "dataset_key n \<notin> K"
  shows "triple (status_in n S) m (\<lambda>_. status_in n S)"
  by (rule tripleI) (use frameD [OF assms(1) _ assms(2)] in \<open>auto simp: status_in_def status_at_def\<close>)

lemma triple_keep:
  "triple (holds d) (api_Get api k n) (\<lambda>_. holds d)"
  "triple (holds d) (api_ListPods api ns ls hs) (\<lambda>_. holds d)"
  "triple (holds d) (api_ListEvents api ns nm rv why) (\<lambda>_. holds d)"
  by (rule triple_frame [where K = "{}"]; auto intro: frame_intros)+

lemma triple_stay [triple_intros]:
  "statuses_of d \<in> S \<Longrightarrow> triple (holds d) (State_Monad.return r) (\<lambda>_. status_in (ds_name d) S)"
  by (rule triple_return) (rule holds_status)

lemma triple_fail [triple_intros]:
  "statuses_of d \<in> S \<Longrightarrow> triple (holds d) (fail_with e) (\<lambda>_. status_in (ds_name d) S)"
  unfolding fail_with_def by (rule triple_stay)

lemma triple_status_update:
  assumes "ds_name d1 = ds_name d" and "statuses_of d \<in> S" and "statuses_of d1 \<in> S"
  shows "triple (holds d) (updateDatasetStatusAndReturn api d1) (\<lambda>_. status_in (ds_name d) S)"
proof (rule tripleI)
  fix w r w'
  assume h: "holds d w" and run: "run_state (updateDatasetStatusAndReturn api d1) w = (r, w')"
  then obtain e where "run_state (api_StatusUpdate api (ODataset d1)) w = (e, w')"
    by (auto simp: updateDatasetStatusAndReturn_def split: prod.splits)
  then have "view w' = view w \<or> status_updated (ODataset d1) (view w) (view w')"
    using status_update_ok status_update_failed by (cases e) auto
  then show "status_in (ds_name d) S w'"
  proof
    assume "view w' = view w"
    then show ?thesis using h assms(2) by (simp add: holds_def status_in_def status_at_def)
  next
    assume "status_updated (ODataset d1) (view w) (view w')"
    then obtain y where "view w' (dataset_key (ds_name d)) = Some y" "status_of y = StDataset (ds_Status d1)"
      using assms(1) by (auto simp: status_updated_def)
    moreover then obtain d' where "y = ODataset d'" "ds_Status d' = ds_Status d1" by (cases y) auto
    ultimately show ?thesis using assms(3) by (simp add: status_in_def status_at_def statuses_of_def)
  qed
qed

lemma triple_annotate:
  assumes "statuses_of d \<in> S"
  shows "triple (holds d) (updateDatasetAndReturn api (set_annotations a d)) (\<lambda>_. status_in (ds_name d) S)"
proof (rule tripleI)
  fix w r w'
  assume h: "holds d w" and run: "run_state (updateDatasetAndReturn api (set_annotations a d)) w = (r, w')"
  then obtain e where "run_state (api_Update api (ODataset (set_annotations a d))) w = (e, w')"
    by (auto simp: updateDatasetAndReturn_def split: prod.splits)
  then have "view w' = view w \<or> updated (ODataset (set_annotations a d)) (view w) (view w')"
    using update_ok update_failed by (cases e) auto
  then show "status_in (ds_name d) S w'"
  proof
    assume "view w' = view w"
    then show ?thesis using h assms by (simp add: holds_def status_in_def status_at_def)
  next
    assume u: "updated (ODataset (set_annotations a d)) (view w) (view w')"
    have old: "view w (dataset_key (ds_name d)) = Some (ODataset d)" using h by (simp add: holds_def)
    have "\<not> (om_deletionTimestamp (ds_meta d) \<noteq> None \<and> om_finalizers (ds_meta d) = [])"
      using view_stored [OF old] by (auto simp: stored_form_def)
    then obtain y where "view w' (dataset_key (ds_name d)) = Some y" "status_of y = StDataset (ds_Status d)"
      using u old by (auto simp: updated_def split: if_splits)
    moreover then obtain d' where "y = ODataset d'" "ds_Status d' = ds_Status d" by (cases y) auto
    ultimately show ?thesis using assms by (simp add: status_in_def status_at_def statuses_of_def)
  qed
qed

lemma triple_setup_caching:
  assumes "{statuses_of d, (StatusDisabled, provision_status d), (StatusPending, provision_status d)} \<subseteq> S"
  shows "triple (holds d) (setup_caching api d) (\<lambda>_. status_in (ds_name d) S)"
proof -
  note upd = triple_status_update triple_annotate
  have "triple (holds d) (assign_plugin api d ps) (\<lambda>_. status_in (ds_name d) S)" for ps
    unfolding assign_plugin_def
    by (intro triple_intros upd) (use assms in \<open>simp_all add: statuses_of_def\<close>)
  then show ?thesis
    unfolding setup_caching_def getCachingPlugins_def
    by (intro triple_intros upd triple_keep_bind [OF triple_keep(2)]) (use assms in \<open>simp_all add: statuses_of_def\<close>)
qed

lemma triple_some:
  "triple P m (\<lambda>_. Q) \<Longrightarrow>
   triple P (State_Monad.bind m (\<lambda>r. State_Monad.return (Some r))) (\<lambda>res w. Q w \<and> (res = None \<longrightarrow> R w))"
  by (rule triple_bind) (auto intro!: triple_return)

lemma triple_claim_pending:
  assumes "{statuses_of d, (caching_status d, StatusPending)} \<subseteq> S"
  shows "triple (holds d) (claim_pending api d pvc) (\<lambda>_. status_in (ds_name d) S)"
proof -
  have keep: "triple (holds d) (readEventsForPVC api pvc) (\<lambda>_. holds d)"
    unfolding readEventsForPVC_def
    by (rule triple_keep_bind [OF triple_keep(3)]) (rule triple_return)
  show ?thesis
    unfolding claim_pending_def
    by (intro triple_intros triple_keep_bind [OF keep] triple_status_update)
      (use assms in \<open>auto simp: statuses_of_def split: if_splits sum.splits\<close>)
qed

lemma triple_check_provision:
  assumes "provision_status d \<notin> {StatusFail, StatusOK} \<Longrightarrow>
      {(caching_status d, StatusPending), (caching_status d, StatusOK)} \<subseteq> S"
    and S: "statuses_of d \<in> S"
  shows "triple (holds d) (check_provision api n d)
    (\<lambda>res w'. status_in (ds_name d) S w' \<and> (res = None \<longrightarrow> holds d w'))"
proof (cases "provision_status d \<in> {StatusFail, StatusOK}")
  case True
  then have "check_provision api n d = State_Monad.return None" by (auto simp: check_provision_def)
  then show ?thesis using S by (auto intro!: triple_return holds_status)
next
  case False
  then have sub: "{(caching_status d, StatusPending), (caching_status d, StatusOK)} \<subseteq> S" using assms(1) by blast
  have ret: "triple (holds d) (State_Monad.return (Some r)) (\<lambda>res w'. status_in (ds_name d) S w' \<and> (res = None \<longrightarrow> holds d w'))"
    "triple (holds d) (State_Monad.return None) (\<lambda>res w'. status_in (ds_name d) S w' \<and> (res = None \<longrightarrow> holds d w'))" for r
    using S by (auto intro!: triple_return holds_status)
  have pend: "triple (holds d) (claim_pending api d pvc) (\<lambda>_. status_in (ds_name d) S)" for pvc
    using sub S by (intro triple_claim_pending) auto
  have upd: "triple (holds d) (updateDatasetStatusAndReturn api (set_provision StatusPending d)) (\<lambda>_. status_in (ds_name d) S)"
    "triple (holds d) (updateDatasetStatusAndReturn api (set_provision_info '''' (set_provision StatusOK d))) (\<lambda>_. status_in (ds_name d) S)"
    using sub S by (auto intro!: triple_status_update)
  have found: "triple (holds d) (case x of
      OPersistentVolumeClaim pvc \<Rightarrow>
        (case pvc_phase pvc of
           ClaimLost \<Rightarrow> State_Monad.return None
         | ClaimPending \<Rightarrow> do { r \<leftarrow> claim_pending api d pvc; State_Monad.return (Some r) }
         | ClaimBound \<Rightarrow>
             if provision_status d \<noteq> StatusOK then do {
               r \<leftarrow> updateDatasetStatusAndReturn api (set_provision_info '''' (set_provision StatusOK d));
               State_Monad.return (Some r)
             }
             else State_Monad.return None
         | ClaimUnset \<Rightarrow> State_Monad.return None)
    | _ \<Rightarrow> State_Monad.return (Some (Result, Some (OtherError ''unexpected object''))))
    (\<lambda>res w'. status_in (ds_name d) S w' \<and> (res = None \<longrightarrow> holds d w'))" for x
    by (cases x) (auto intro!: ret triple_some pend upd split: claim_phase.splits)
  show ?thesis
    unfolding check_provision_def
    by (intro triple_if triple_keep_bind [OF triple_keep(1)] triple_case_sum found ret triple_some upd)
qed

lemma triple_reconcile_provision:
  assumes "provision_status d \<notin> {StatusFail, StatusOK} \<Longrightarrow>
      {(caching_status d, StatusPending), (caching_status d, StatusOK)} \<subseteq> S"
    and "statuses_of d \<in> S"
  shows "triple (holds d) (reconcile_provision api n d) (\<lambda>_. status_in (ds_name d) S)"
  unfolding reconcile_provision_def
proof (rule triple_bind [OF triple_check_provision [OF assms]])
  fix res
  have sync: "triple (status_in (ds_name d) S) (sync_labels api n d) (\<lambda>_. status_in (ds_name d) S)"
    by (rule triple_frame_status [where K = "{internal_key n}"]) (auto intro: frame_intros)
  show "triple (\<lambda>w'. status_in (ds_name d) S w' \<and> (res = None \<longrightarrow> holds d w'))
      (case res of None \<Rightarrow> sync_labels api n d | Some res \<Rightarrow> State_Monad.return res) (\<lambda>_. status_in (ds_name d) S)"
    by (cases res) (auto intro: triple_return triple_conseq [OF sync])
qed simp

lemma triple_ensure_internal: "triple (holds d) (ensure_internal api n d) (\<lambda>_. holds d)"
  by (rule triple_frame [where K = "job_keys api \<union> {internal_key (ds_name d)}"])
    (auto intro!: frame_intros simp: job_keys_def)

text \<open>The body of the handler, on the dataset it has read.\<close>

lemma reconcile_status:
  assumes "S = insert (statuses_of d) {t. status_step (remove_matches (om_name (ds_meta d)) = []) (statuses_of d) t}"
  shows "triple (holds d)
    (case initializeDatasetStatus d of (d1, modified) \<Rightarrow>
       if modified then updateDatasetStatusAndReturn api (check_name d1)
       else if caching_status d1 = StatusInitial then setup_caching api d1
       else if caching_status d1 = StatusDisabled then
         andthen (ensure_internal api n d1) (reconcile_provision api n d1)
       else reconcile_provision api n d1) (\<lambda>_. status_in (ds_name d) S)"
proof (cases "caching_status d = StatusEmpty \<or> provision_status d = StatusEmpty")
  case True
  let ?valid = "remove_matches (om_name (ds_meta d)) = []"
  define d1 where "d1 = fst (initializeDatasetStatus d)"
  have d1: "initializeDatasetStatus d = (d1, True)" "ds_meta d1 = ds_meta d"
    "statuses_of d1 = (if caching_status d = StatusEmpty then StatusInitial else caching_status d,
                       if provision_status d = StatusEmpty then StatusInitial else provision_status d)"
    using True unfolding d1_def
    by (cases "provision_status d = StatusEmpty"; cases "caching_status d = StatusEmpty";
        simp add: initializeDatasetStatus_def statuses_of_def)+
  have "status_step ?valid (statuses_of d) (statuses_of (check_name d1))"
  proof (cases ?valid)
    case valid: True
    then have "check_name d1 = d1" using d1(2) by (simp add: check_name_def)
    then show ?thesis using status_step.init [OF valid True] d1(3) by (simp add: statuses_of_def)
  next
    case False
    then have "statuses_of (check_name d1) = (StatusFail, StatusFail)"
      using d1(2) by (simp add: check_name_def statuses_of_def)
    then show ?thesis using status_step.reject [OF False True] by (simp add: statuses_of_def)
  qed
  moreover have "ds_name (check_name d1) = ds_name d" using d1(2) by (simp add: ds_name_def)
  ultimately have "triple (holds d) (updateDatasetStatusAndReturn api (check_name d1)) (\<lambda>_. status_in (ds_name d) S)"
    by (intro triple_status_update) (simp_all add: assms)
  then show ?thesis by (simp add: d1(1))
next
  case False
  then have init: "initializeDatasetStatus d = (d, False)" by (simp add: initializeDatasetStatus_def)
  have cache: "triple (holds d) (setup_caching api d) (\<lambda>_. status_in (ds_name d) S)"
    if "caching_status d = StatusInitial"
    using that False assms status_step.cache_off status_step.cache_on
    by (intro triple_setup_caching) (auto simp: statuses_of_def)
  have prov: "triple (holds d) (reconcile_provision api n d) (\<lambda>_. status_in (ds_name d) S)"
    if "caching_status d \<noteq> StatusInitial"
    using that False assms status_step.waiting status_step.bound
    by (intro triple_reconcile_provision) (auto simp: statuses_of_def)
  have "triple (holds d) (andthen (ensure_internal api n d) (reconcile_provision api n d)) (\<lambda>_. status_in (ds_name d) S)"
    if "caching_status d \<noteq> StatusInitial"
    unfolding andthen_def
    using assms by (intro triple_keep_bind [OF triple_ensure_internal] triple_intros prov that) auto
  then show ?thesis using cache prov by (auto simp: init)
qed

lemma reconcile_follows_status_step:
  assumes v: "view w (dataset_key n) = Some (ODataset d)"
    and run: "run_state (ReconcileDataset api n) w = (r, w')"
  shows "\<exists>d'. view w' (dataset_key n) = Some (ODataset d') \<and>
    (statuses_of d' = statuses_of d \<or>
     status_step (remove_matches (om_name (ds_meta d)) = []) (statuses_of d) (statuses_of d'))"
proof -
  let ?S = "insert (statuses_of d) {t. status_step (remove_matches (om_name (ds_meta d)) = []) (statuses_of d) t}"
  have n: "ds_name d = n" using view_key [OF v] by simp
  obtain r1 w1 where g: "run_state (api_Get api KDataset n) w = (r1, w1)" by fastforce
  note v1 = get_view [OF g]
  have found: "x = ODataset d" if "r1 = Inr x" for x using get_found [of KDataset n w x w1] g that v by simp
  have "status_in n ?S w'"
  proof (cases r1)
    case (Inl e)
    then have "w' = w1" using run g by (simp add: ReconcileDataset_def split: if_splits)
    then show ?thesis using v v1 by (simp add: status_in_def status_at_def)
  next
    case (Inr x)
    have "holds d w1" using v v1 n by (simp add: holds_def)
    from tripleD [OF reconcile_status [OF refl] this] show ?thesis
      using run g Inr found [OF Inr] n by (simp add: ReconcileDataset_def)
  qed
  then show ?thesis
    by (auto simp: status_in_def status_at_def split: option.splits k8s_object.splits)
qed

end

end
