(* ===== verification/Dataset_Creation.thy ===== *)
theory Dataset_Creation
  imports Dataset_Steps
begin

text \<open>
  When and how the Dataset reconciler creates the DatasetInternal object, and how it keeps the editable
  labels in step.
\<close>

section \<open>Labels\<close>

lemma labels_loop_one:
  "map_of (fst (labels_loop ds [l] (i, b))) = (map_of i)(l := map_of ds l)"
  "snd (labels_loop ds [l] (i, b)) \<longleftrightarrow> b \<or> mhas ds l \<or> mhas i l"
  by (auto simp: Let_def mhas_def mget_def fun_eq_iff split: option.splits)

lemma payload_internal:
  assumes "payload z = payload (ODatasetInternal i)"
  obtains i' where "z = ODatasetInternal i'" "di_Spec i' = di_Spec i" "om_labels (di_meta i') = om_labels (di_meta i)"
proof (cases z)
  case (ODatasetInternal i')
  then have eq: "i'\<lparr>di_Placements := empty_placement, di_meta := strip_meta (di_meta i')\<rparr> =
      i\<lparr>di_Placements := empty_placement, di_meta := strip_meta (di_meta i)\<rparr>"
    using assms by (simp add: payload_def)
  from arg_cong [OF eq, of di_Spec] arg_cong [OF eq, of "\<lambda>x. om_labels (di_meta x)"]
  show ?thesis using that ODatasetInternal by (simp add: strip_meta_def)
qed (use assms in \<open>auto simp: payload_def\<close>)

lemma payload_job:
  assumes "payload z = payload (OJob j)"
  obtains j' where "z = OJob j'" "job_Containers j' = job_Containers j"
proof (cases z)
  case (OJob j')
  then have "j'\<lparr>job_meta := strip_meta (job_meta j')\<rparr> = j\<lparr>job_meta := strip_meta (job_meta j)\<rparr>"
    using assms by (simp add: payload_def)
  from arg_cong [OF this, of job_Containers] show ?thesis using that OJob by simp
qed (use assms in \<open>auto simp: payload_def\<close>)

section \<open>Creation\<close>

text \<open>A live DatasetInternal with the given specification and the labels of the dataset.\<close>

definition carries :: "Dataset \<Rightarrow> DatasetSpec \<Rightarrow> cluster \<Rightarrow> bool" where
  "carries d sp v \<longleftrightarrow> (\<exists>z. v (internal_key (ds_name d)) = Some (ODatasetInternal z) \<and> di_Spec z = sp \<and>
     map_of (om_labels (di_meta z)) = map_of (om_labels (ds_meta d)) \<and> om_deletionTimestamp (di_meta z) = None)"

text \<open>
  The specification the DatasetInternal must get: that of the dataset, or, for an archive, object storage
  with the credentials of the operator's MinIO in the bucket that the download job fills.
\<close>

definition intended_spec :: "string \<Rightarrow> cluster \<Rightarrow> cluster \<Rightarrow> Dataset \<Rightarrow> DatasetSpec \<Rightarrow> bool" where
  "intended_spec ons v v' d sp \<longleftrightarrow>
     (if sp_Type (ds_Spec d) = ''ARCHIVE'' then
        \<exists>s u j. v (secret_key (ons, ''minio-conf'')) = Some (OSecret s) \<and> sp = archive_spec d (sec_Data s) u \<and>
          v' (KJob, (ons, ''cos-upload-'' @ take 4 u)) = Some (OJob j) \<and>
          job_Containers j = job_Containers (download_job d ons u)
      else sp = ds_Spec d)"

lemma intended_spec_later:
  assumes "intended_spec ons v v1 d sp" and "\<And>j. v2 (KJob, j) = v1 (KJob, j)"
  shows "intended_spec ons v v2 d sp"
  using assms(1) unfolding intended_spec_def assms(2) .

context api_server
begin

abbreviation operator_namespace :: string where
  "operator_namespace \<equiv> api_Getenv api ''OPERATOR_NAMESPACE''"

lemma internal_spec_intended:
  assumes "run_state (internal_spec api d) w = (Inr sp, w')"
  shows "intended_spec operator_namespace (view w) (view w') d sp"
proof (cases "sp_Type (ds_Spec d) = ''ARCHIVE''")
  case True
  obtain u w1 where u: "run_state (api_NewUUID api) w = (u, w1)" by fastforce
  obtain w2 s where c: "run_state (api_Create api (OJob (download_job d operator_namespace u))) w1 = (None, w2)"
    and g: "run_state (api_Get api KSecret (operator_namespace, ''minio-conf'')) w2 = (Inr (OSecret s), w')"
    and sp: "sp = archive_spec d (sec_Data s) u"
    using assms True u
    by (auto simp: internal_spec_def getPodDataDownload_def split: prod.splits option.splits sum.splits k8s_object.splits)
  let ?j = "OJob (download_job d operator_namespace u)"
  have cr: "created ?j (view w) (view w2)" using create_ok [OF c] new_uuid_view [OF u] by simp
  obtain z where z: "view w2 (obj_key ?j) = Some z" "payload z = payload ?j" using cr by (auto simp: created_def)
  obtain j where j: "z = OJob j" "job_Containers j = job_Containers (download_job d operator_namespace u)"
    using payload_job [OF z(2)] by blast
  have "view w (secret_key (operator_namespace, ''minio-conf'')) = Some (OSecret s)"
    using get_found [OF g] agree_offD [OF created_agree [OF cr, of "{obj_key ?j}"], of "secret_key (operator_namespace, ''minio-conf'')"]
    by (simp add: secret_key_def)
  then show ?thesis using True z(1) j get_view [OF g] sp by (auto simp: intended_spec_def)
qed (use assms in \<open>simp add: internal_spec_def intended_spec_def\<close>)

lemma internal_spec_keeps:
  assumes "run_state (internal_spec api d) w = (r, w')"
  shows "view w' (internal_key n) = view w (internal_key n)"
  by (rule frameD [OF frame_internal_spec [of "job_keys api"] assms]) (auto simp: job_keys_def)

lemma created_carries:
  assumes "api_SetControllerReference api (ODataset d) (ODatasetInternal (new_internal d sp)) = Inr x"
    and "created x v v'"
  shows "carries d sp v'"
proof -
  have k: "obj_key x = internal_key (ds_name d)" using owned_key [OF assms(1)] by simp
  obtain rs where x: "x = ODatasetInternal
      (new_internal d sp\<lparr>di_meta := (di_meta (new_internal d sp))\<lparr>om_ownerReferences := rs\<rparr>\<rparr>)"
    using set_reference [OF assms(1)] by auto
  obtain y where y: "v' (internal_key (ds_name d)) = Some y" "payload y = payload x" "deletion_of y = None"
    using assms(2) k by (auto simp: created_def)
  obtain z where "y = ODatasetInternal z" "di_Spec z = sp" "om_labels (di_meta z) = om_labels (ds_meta d)"
    using payload_internal [OF y(2) [unfolded x]] by (auto simp: new_internal_def ObjectMeta_def)
  then show ?thesis using y by (auto simp: carries_def)
qed

lemma ensure_internal_result:
  assumes "run_state (ensure_internal api n d) w = (r, w')" and "ds_name d = n"
    and "view w (internal_key n) = None"
  shows "r \<noteq> None \<and> view w' (internal_key n) = None \<or>
    (\<exists>sp. intended_spec operator_namespace (view w) (view w') d sp \<and> carries d sp (view w'))"
proof -
  obtain r0 w0 where g: "run_state (api_Get api KDatasetInternal n) w = (r0, w0)" by fastforce
  obtain e where r0: "r0 = Inl e" using get_found [of KDatasetInternal n w _ w0] g assms(3) by (cases r0) auto
  have v0: "view w0 = view w" using get_view [OF g] .
  show ?thesis
  proof (cases "IsNotFound e")
    case False
    then show ?thesis using assms g r0 v0 by (auto simp: ensure_internal_def)
  next
    case True
    obtain s w1 where s: "run_state (internal_spec api d) w0 = (s, w1)" by fastforce
    have none: "view w1 (internal_key n) = None" using internal_spec_keeps [OF s] v0 assms(3) by simp
    show ?thesis
    proof (cases s)
      case (Inl e1)
      then show ?thesis using assms(1) g r0 True s none by (auto simp: ensure_internal_def)
    next
      case (Inr sp)
      have intended: "intended_spec operator_namespace (view w) (view w1) d sp"
        using internal_spec_intended [OF s [unfolded Inr]] v0 by simp
      show ?thesis
      proof (cases "api_SetControllerReference api (ODataset d) (ODatasetInternal (new_internal d sp))")
        case (Inl e1)
        then show ?thesis using assms(1) g r0 True s Inr none by (auto simp: ensure_internal_def)
      next
        case ref: (Inr x)
        then have c: "run_state (api_Create api x) w1 = (r, w')"
          using assms(1) g r0 True s Inr by (simp add: ensure_internal_def)
        have "view w' = view w1 \<and> r \<noteq> None \<or> created x (view w1) (view w')"
          using create_ok [of x w1 w'] create_failed [of x w1 _ w'] c by (cases r) auto
        then show ?thesis
        proof
          assume cr: "created x (view w1) (view w')"
          have "view w' (KJob, j) = view w1 (KJob, j)" for j
            using agree_offD [OF created_agree [OF cr, of "{obj_key x}"], of "(KJob, j)"] owned_key [OF ref]
            by simp
          from intended_spec_later [OF intended this]
          have "intended_spec operator_namespace (view w) (view w') d sp" .
          then show ?thesis using created_carries [OF ref cr] by blast
        qed (use none in simp)
      qed
    qed
  qed
qed

text \<open>The label synchronisation neither creates the object nor undoes what was created.\<close>

lemma sync_labels_keeps:
  assumes "run_state (sync_labels api (ds_name d) d) w = (r, w')"
  shows "view w (internal_key (ds_name d)) = None \<Longrightarrow> view w' = view w"
    and "carries d sp (view w) \<Longrightarrow> carries d sp (view w')"
proof -
  let ?k = "internal_key (ds_name d)"
  obtain r0 w0 where g: "run_state (api_Get api KDatasetInternal (ds_name d)) w = (r0, w0)" by fastforce
  have v0: "view w0 = view w" using get_view [OF g] .
  have failed: "view w' = view w" if "r0 = Inl e" for e
    using assms g v0 that by (simp add: sync_labels_def)
  show "view w' = view w" if "view w ?k = None"
    using failed get_found [of KDatasetInternal "ds_name d" w _ w0] g that by (cases r0) auto
  show "carries d sp (view w')" if c: "carries d sp (view w)"
  proof (cases r0)
    case (Inl e)
    then show ?thesis using failed c by simp
  next
    case (Inr x)
    then have x: "view w ?k = Some x" using get_found [of KDatasetInternal "ds_name d" w x w0] g by simp
    then obtain z where z: "x = ODatasetInternal z" "di_Spec z = sp"
      "map_of (om_labels (di_meta z)) = map_of (om_labels (ds_meta d))" "om_deletionTimestamp (di_meta z) = None"
      using c by (auto simp: carries_def)
    define ls where "ls = fst (labels_loop (om_labels (ds_meta d)) [''remove-on-delete''] (om_labels (di_meta z), False))"
    define x1 where "x1 = ODatasetInternal (z\<lparr>di_meta := (di_meta z)\<lparr>om_labels := ls\<rparr>\<rparr>)"
    have ls: "map_of ls = map_of (om_labels (ds_meta d))"
      unfolding ls_def labels_loop_one(1) z(3) by simp
    have k1: "obj_key x1 = ?k" using view_key [OF x] z(1) by (simp add: x1_def)
    have "view w' = view w \<or> updated x1 (view w) (view w')"
      using assms g Inr v0 z(1) update_ok [of x1 w0] update_failed [of x1 w0]
      by (auto simp: sync_labels_def checkIfEditableLabelsChangedAndUpdate_def run_andthen x1_def ls_def
          split: prod.splits option.splits if_splits)
    then show ?thesis
    proof
      assume "updated x1 (view w) (view w')"
      then obtain y where y: "view w' ?k = Some y" "payload y = payload x1" "deletion_of y = None"
        using x z k1 by (auto simp: updated_def)
      obtain y' where "y = ODatasetInternal y'" "di_Spec y' = sp" "om_labels (di_meta y') = ls"
        using payload_internal [OF y(2) [unfolded x1_def]] z(2) by auto
      then show ?thesis using y ls by (auto simp: carries_def)
    qed (use c in simp)
  qed
qed

lemma check_provision_keeps:
  "run_state (check_provision api n d) w = (r, w') \<Longrightarrow> k \<noteq> dataset_key (ds_name d) \<Longrightarrow> view w' k = view w k"
  by (rule frameD [OF frame_check_provision [of d "{dataset_key (ds_name d)}"]]) auto

lemma reconcile_provision_keeps:
  assumes "run_state (reconcile_provision api (ds_name d) d) w = (r, w')"
  shows "view w (internal_key (ds_name d)) = None \<Longrightarrow> view w' (internal_key (ds_name d)) = None"
    and "carries d sp (view w) \<Longrightarrow> carries d sp (view w')"
    and "view w' (KJob, j) = view w (KJob, j)"
proof -
  obtain o1 w1 where c: "run_state (check_provision api (ds_name d) d) w = (o1, w1)" by fastforce
  have v1: "view w1 k = view w k" if "k \<noteq> dataset_key (ds_name d)" for k
    using check_provision_keeps [OF c that] .
  have s: "w' = w1 \<or> run_state (sync_labels api (ds_name d) d) w1 = (r, w')"
    using assms c by (cases o1) (auto simp: reconcile_provision_def)
  show "view w' (internal_key (ds_name d)) = None" if "view w (internal_key (ds_name d)) = None"
    using s v1 [of "internal_key (ds_name d)"] that sync_labels_keeps(1) [of d w1 r w'] by auto
  have "carries d sp (view w1)" if "carries d sp (view w)" using that v1 by (simp add: carries_def)
  then show "carries d sp (view w')" if "carries d sp (view w)" using s sync_labels_keeps(2) [of d w1 r w'] that by blast
  show "view w' (KJob, j) = view w (KJob, j)"
    using frameD [OF frame_reconcile_provision [of d "{dataset_key (ds_name d), internal_key (ds_name d)}"] assms, of "(KJob, j)"]
    by simp
qed

lemma reconcile_creates:
  assumes run: "run_state (ReconcileDataset api n) w = (r, w')"
    and before: "view w (internal_key n) = None" and after: "view w' (internal_key n) \<noteq> None"
  shows "\<exists>d sp. view w (dataset_key n) = Some (ODataset d) \<and> caching_status d = StatusDisabled \<and>
    provision_status d \<noteq> StatusEmpty \<and> intended_spec operator_namespace (view w) (view w') d sp \<and> carries d sp (view w')"
proof -
  obtain r0 w0 where g: "run_state (api_Get api KDataset n) w = (r0, w0)" by fastforce
  have v0: "view w0 = view w" using get_view [OF g] .
  have "\<exists>d. r0 = Inr (ODataset d)"
    using run g after before v0 by (auto simp: ReconcileDataset_def split: sum.splits k8s_object.splits if_splits)
  then obtain d where r0: "r0 = Inr (ODataset d)" by blast
  have d: "view w (dataset_key n) = Some (ODataset d)"
    using get_found [of KDataset n w "ODataset d" w0] g r0 by simp
  have n: "ds_name d = n" using view_key [OF d] by simp
  have other: "view w' (internal_key n) = view w (internal_key n)"
    if "state_io_rel (off {dataset_key n}) m" "run_state m w0 = (r, w')" for m
    using frameD [OF that, of "internal_key n"] v0 by simp
  note keep = reconcile_provision_keeps [of d, unfolded n]
  show ?thesis
  proof (cases "initializeDatasetStatus d")
    case (Pair d1 m)
    have "\<not> m"
    proof
      assume m
      then have "run_state (updateDatasetStatusAndReturn api (check_name d1)) w0 = (r, w')"
        using run g r0 Pair by (simp add: ReconcileDataset_def)
      moreover have "ds_name d1 = n" using initialize_meta [OF Pair] n by (simp add: ds_name_def)
      ultimately show False using other [of "updateDatasetStatusAndReturn api (check_name d1)"] after before
          frame_status_return [of "check_name d1" "{dataset_key n}"] by simp
    qed
    then have d1: "d1 = d" "provision_status d \<noteq> StatusEmpty" "caching_status d \<noteq> StatusEmpty"
      using Pair by (auto simp: initializeDatasetStatus_def Let_def split: if_splits)
    have "caching_status d = StatusDisabled"
    proof (rule ccontr)
      assume nd: "caching_status d \<noteq> StatusDisabled"
      consider "run_state (setup_caching api d) w0 = (r, w')" | "run_state (reconcile_provision api n d) w0 = (r, w')"
        using run g r0 Pair d1 nd \<open>\<not> m\<close> by (auto simp: ReconcileDataset_def split: if_splits)
      then show False
      proof cases
        case 1
        then show False using other [of "setup_caching api d"] after before n by (auto intro: frame_intros)
      next
        case 2
        then show False using keep(1) [of w0 r w'] after before v0 by simp
      qed
    qed
    then have "run_state (andthen (ensure_internal api n d) (reconcile_provision api n d)) w0 = (r, w')"
      using run g r0 Pair d1 \<open>\<not> m\<close> by (simp add: ReconcileDataset_def)
    then obtain e w1 where e: "run_state (ensure_internal api n d) w0 = (e, w1)"
      and rest: "if e = None then run_state (reconcile_provision api n d) w1 = (r, w') else w' = w1"
      by (auto simp: run_andthen split: prod.splits option.splits)
    from ensure_internal_result [OF e n] before v0
    consider "e \<noteq> None" "view w1 (internal_key n) = None"
      | sp where "intended_spec operator_namespace (view w) (view w1) d sp" "carries d sp (view w1)" by auto
    then show ?thesis
    proof cases
      case 1
      then show ?thesis using rest after by simp
    next
      case 2
      then have "intended_spec operator_namespace (view w) (view w') d sp \<and> carries d sp (view w')"
        using rest keep(2) [of w1 r w'] intended_spec_later [OF 2(1) keep(3) [of w1 r w']] by (cases "e = None") auto
      then show ?thesis using d d1 \<open>caching_status d = StatusDisabled\<close> by blast
    qed
  qed
qed

end

end
