(* ===== verification/Dataset_Calm.thy ===== *)
theory Dataset_Calm
  imports Dataset_Creation
begin

text \<open>
  The Dataset reconciler in a calm cluster: what each of its branches returns and leaves behind.
\<close>

text \<open>What the handler sees of a dataset apart from its status.\<close>

definition same_request :: "Dataset \<Rightarrow> Dataset \<Rightarrow> bool" where
  "same_request d d' \<longleftrightarrow> ds_Spec d' = ds_Spec d \<and> ds_name d' = ds_name d \<and>
     om_labels (ds_meta d') = om_labels (ds_meta d) \<and> om_annotations (ds_meta d') = om_annotations (ds_meta d)"

lemma same_request_refl [simp]: "same_request d d"
  by (simp add: same_request_def)

lemma same_request_trans: "same_request d d1 \<Longrightarrow> same_request d1 d2 \<Longrightarrow> same_request d d2"
  by (simp add: same_request_def)

lemma payload_dataset:
  assumes "payload z = payload (ODataset d)" and "obj_key z = obj_key (ODataset d)"
  obtains d' where "z = ODataset d'" "same_request d d'"
proof (cases z)
  case (ODataset d')
  then have eq: "d'\<lparr>ds_Status := empty_status, ds_meta := strip_meta (ds_meta d')\<rparr> =
      d\<lparr>ds_Status := empty_status, ds_meta := strip_meta (ds_meta d)\<rparr>"
    using assms(1) by (simp add: payload_def)
  from arg_cong [OF eq, of ds_Spec] arg_cong [OF eq, of "\<lambda>x. om_labels (ds_meta x)"]
    arg_cong [OF eq, of "\<lambda>x. om_annotations (ds_meta x)"]
  show ?thesis using that ODataset assms(2) by (simp add: strip_meta_def same_request_def)
qed (use assms in \<open>auto simp: payload_def\<close>)

text \<open>The editable label of the DatasetInternal is as the dataset has it, and nothing else has changed.\<close>

definition label_synced :: "Dataset \<Rightarrow> cluster \<Rightarrow> cluster \<Rightarrow> bool" where
  "label_synced d v v' \<longleftrightarrow> agree_off {internal_key (ds_name d)} v v' \<and>
     (case v (internal_key (ds_name d)) of
        Some (ODatasetInternal z) \<Rightarrow>
          \<exists>z'. v' (internal_key (ds_name d)) = Some (ODatasetInternal z') \<and> di_Spec z' = di_Spec z \<and>
            map_of (om_labels (di_meta z')) =
              (map_of (om_labels (di_meta z)))(''remove-on-delete'' := map_of (om_labels (ds_meta d)) ''remove-on-delete'')
      | _ \<Rightarrow> v' (internal_key (ds_name d)) = None)"

text \<open>A dataset whose caching is decided and whose DatasetInternal, if it is due here, exists.\<close>

definition cache_settled :: "cluster \<Rightarrow> namespaced_name \<Rightarrow> Dataset \<Rightarrow> bool" where
  "cache_settled v n d \<longleftrightarrow> v (dataset_key n) = Some (ODataset d) \<and>
     caching_status d \<notin> {StatusEmpty, StatusInitial} \<and> provision_status d \<noteq> StatusEmpty \<and>
     (caching_status d = StatusDisabled \<longrightarrow> v (internal_key n) \<noteq> None)"

context calm_api_server
begin

lemma get_dataset_calm:
  assumes "calm w" and "view w (dataset_key n) = Some (ODataset d)"
  obtains w0 where "run_state (api_Get api KDataset n) w = (Inr (ODataset d), w0)" "calm w0" "view w0 = view w"
  using assms(1) by (cases rule: calm_get_cases [where k = KDataset and n = n]) (use assms(2) in auto)

lemma get_internal_calm:
  assumes "calm w"
  obtains e w0 where "run_state (api_Get api KDatasetInternal n) w = (Inl e, w0)" "IsNotFound e"
      "view w (internal_key n) = None" "calm w0" "view w0 = view w"
  | z w0 where "run_state (api_Get api KDatasetInternal n) w = (Inr (ODatasetInternal z), w0)"
      "view w (internal_key n) = Some (ODatasetInternal z)" "calm w0" "view w0 = view w"
  using assms
proof (cases rule: calm_get_cases [where k = KDatasetInternal and n = n])
  case (2 x w0)
  then have k: "obj_key x = internal_key n" using view_key by fastforce
  then have "kind_of x = KDatasetInternal" by (auto simp: obj_key_def key_of_def internal_key_def split: if_splits)
  then obtain z where "x = ODatasetInternal z" by (cases x) auto
  then show ?thesis using 2 that(2) by simp
qed (use that(1) in simp)

lemma status_write_calm:
  assumes "calm w" and "view w (dataset_key (ds_name d)) = Some (ODataset d)" and "same_request d d1"
  obtains w' d' where "run_state (updateDatasetStatusAndReturn api d1) w = ((Result, None), w')" "calm w'"
    "view w' = (view w)(dataset_key (ds_name d) \<mapsto> ODataset d')" "ds_Status d' = ds_Status d1" "same_request d d'"
proof -
  have k: "obj_key (ODataset d1) = dataset_key (ds_name d)" using assms(3) by (simp add: same_request_def)
  obtain r w' where r: "run_state (api_StatusUpdate api (ODataset d1)) w = (r, w')" by fastforce
  have c: "calm w'" "r = None" using calm_status_update [OF assms(1) r] assms(2) k by auto
  obtain y where y: "view w' = (view w)(dataset_key (ds_name d) \<mapsto> y)" "payload y = payload (ODataset d)"
    "status_of y = StDataset (ds_Status d1)" "obj_key y = dataset_key (ds_name d)"
    using status_update_ok [of "ODataset d1" w w'] r c(2) assms(2) k by (auto simp: status_updated_def)
  obtain d' where d': "y = ODataset d'" "same_request d d'" using payload_dataset [OF y(2)] y(4) by auto
  have "run_state (updateDatasetStatusAndReturn api d1) w = ((Result, None), w')"
    using r c by (simp add: updateDatasetStatusAndReturn_def)
  then show ?thesis using that [of w' d'] c y d' by simp
qed

lemma internal_update_calm:
  assumes "calm w" and "view w (internal_key n) = Some (ODatasetInternal z)"
  obtains w' z' where
    "run_state (api_Update api (ODatasetInternal (z\<lparr>di_meta := (di_meta z)\<lparr>om_labels := ls\<rparr>\<rparr>))) w = (None, w')"
    "calm w'" "view w' = (view w)(internal_key n := Some (ODatasetInternal z'))"
    "om_labels (di_meta z') = ls" "di_Spec z' = di_Spec z"
proof -
  let ?x = "ODatasetInternal (z\<lparr>di_meta := (di_meta z)\<lparr>om_labels := ls\<rparr>\<rparr>)"
  have k: "obj_key ?x = internal_key n" using view_key [OF assms(2)] by simp
  obtain r w' where r: "run_state (api_Update api ?x) w = (r, w')" by fastforce
  have c: "calm w'" "r = None" using calm_update [OF assms(1) r] assms(2) k by auto
  have "\<not> (om_deletionTimestamp (di_meta z) \<noteq> None \<and> om_finalizers (di_meta z) = [])"
    using view_stored [OF assms(2)] by (auto simp: stored_form_def)
  then obtain y where y: "view w' = (view w)(internal_key n \<mapsto> y)" "payload y = payload ?x"
    using update_ok [of ?x w w'] r c(2) assms(2) k by (auto simp: updated_def split: if_splits)
  obtain z' where "y = ODatasetInternal z'" "di_Spec z' = di_Spec z" "om_labels (di_meta z') = ls"
    using payload_internal [OF y(2)] by auto
  then show ?thesis using that [of w' z'] r c y(1) by simp
qed

lemma sync_labels_calm:
  assumes "calm w" and "ds_name d = n"
  obtains w' where "run_state (sync_labels api n d) w = ((Result, None), w')" "calm w'" "label_synced d (view w) (view w')"
  using assms(1)
proof (cases rule: get_internal_calm [where n = n])
  case (1 e w0)
  then show ?thesis using that [of w0] assms(2) by (simp add: sync_labels_def label_synced_def)
next
  case (2 z w0)
  obtain ls b where l: "labels_loop (om_labels (ds_meta d)) [''remove-on-delete''] (om_labels (di_meta z), False) = (ls, b)"
    by fastforce
  have ls: "map_of ls = (map_of (om_labels (di_meta z)))(''remove-on-delete'' := map_of (om_labels (ds_meta d)) ''remove-on-delete'')"
    and b: "b \<longleftrightarrow> mhas (om_labels (ds_meta d)) ''remove-on-delete'' \<or> mhas (om_labels (di_meta z)) ''remove-on-delete''"
    using labels_loop_one [where l = "''remove-on-delete''" and ds = "om_labels (ds_meta d)" and i = "om_labels (di_meta z)" and b = False]
    unfolding l by simp_all
  show ?thesis
  proof (cases b)
    case False
    then have "map_of (om_labels (di_meta z)) =
      (map_of (om_labels (di_meta z)))(''remove-on-delete'' := map_of (om_labels (ds_meta d)) ''remove-on-delete'')"
      using b by (auto simp: mhas_def fun_eq_iff)
    then show ?thesis using that [of w0] 2 l False assms(2)
      by (auto simp: sync_labels_def checkIfEditableLabelsChangedAndUpdate_def run_andthen label_synced_def)
  next
    case True
    obtain w' z' where u: "run_state (api_Update api (ODatasetInternal (z\<lparr>di_meta := (di_meta z)\<lparr>om_labels := ls\<rparr>\<rparr>))) w0 = (None, w')"
      "calm w'" "view w' = (view w0)(internal_key n := Some (ODatasetInternal z'))"
      "om_labels (di_meta z') = ls" "di_Spec z' = di_Spec z"
      by (rule internal_update_calm [OF 2(3), of n z ls]) (use 2 in auto)
    have "run_state (sync_labels api n d) w = ((Result, None), w')"
      using 2 l True u by (simp add: sync_labels_def checkIfEditableLabelsChangedAndUpdate_def run_andthen)
    moreover have "label_synced d (view w) (view w')"
      using 2 u ls assms(2) by (auto simp: label_synced_def agree_off_def)
    ultimately show ?thesis using that u(2) by blast
  qed
qed

lemma cache_settled_run:
  assumes "calm w" and "cache_settled (view w) n d"
  obtains w0 where "run_state (ReconcileDataset api n) w = run_state (reconcile_provision api n d) w0"
    "calm w0" "view w0 = view w"
proof -
  have v: "view w (dataset_key n) = Some (ODataset d)" using assms(2) by (simp add: cache_settled_def)
  have init: "initializeDatasetStatus d = (d, False)" using assms(2) by (simp add: cache_settled_def initializeDatasetStatus_def)
  obtain w0 where g: "run_state (api_Get api KDataset n) w = (Inr (ODataset d), w0)" "calm w0" "view w0 = view w"
    by (rule get_dataset_calm [OF assms(1) v])
  show ?thesis
  proof (cases "caching_status d = StatusDisabled")
    case False
    then show ?thesis using that [of w0] g init assms(2) by (simp add: ReconcileDataset_def cache_settled_def)
  next
    case True
    from g(2) show ?thesis
    proof (cases rule: get_internal_calm [where n = n])
      case (1 e w1)
      then show ?thesis using assms(2) True g(3) by (simp add: cache_settled_def)
    next
      case (2 z w1)
      then show ?thesis using that [of w1] g init True
        by (simp add: ReconcileDataset_def run_andthen ensure_internal_def)
    qed
  qed
qed

lemma claim_calm:
  assumes "calm w" and "view w (pvc_key n) = Some (OPersistentVolumeClaim p)"
  obtains w0 where "run_state (api_Get api KPersistentVolumeClaim n) w = (Inr (OPersistentVolumeClaim p), w0)"
    "calm w0" "view w0 = view w"
  using assms(1) by (cases rule: calm_get_cases [where k = KPersistentVolumeClaim and n = n]) (use assms(2) in auto)

text \<open>Nothing is left to do for the status: only the labels are synchronised.\<close>

lemma settled_run:
  assumes "calm w" and "cache_settled (view w) n d"
    and "provision_status d \<in> {StatusOK, StatusFail} \<or>
      (\<exists>p. view w (pvc_key n) = Some (OPersistentVolumeClaim p) \<and> pvc_phase p \<in> {ClaimLost, ClaimUnset})"
  obtains w' where "run_state (ReconcileDataset api n) w = ((Result, None), w')" "calm w'" "label_synced d (view w) (view w')"
proof -
  obtain w0 where w0: "run_state (ReconcileDataset api n) w = run_state (reconcile_provision api n d) w0"
    "calm w0" "view w0 = view w" by (rule cache_settled_run [OF assms(1,2)])
  have "\<exists>w1. run_state (check_provision api n d) w0 = (None, w1) \<and> calm w1 \<and> view w1 = view w"
  proof (cases "provision_status d \<in> {StatusOK, StatusFail}")
    case True
    then show ?thesis using w0 by (auto simp: check_provision_def)
  next
    case False
    then obtain p where p: "view w0 (pvc_key n) = Some (OPersistentVolumeClaim p)" "pvc_phase p \<in> {ClaimLost, ClaimUnset}"
      using assms(3) w0(3) by auto
    obtain w1 where "run_state (api_Get api KPersistentVolumeClaim n) w0 = (Inr (OPersistentVolumeClaim p), w1)"
      "calm w1" "view w1 = view w0" by (rule claim_calm [OF w0(2) p(1)])
    then show ?thesis using False p(2) w0(3) by (auto simp: check_provision_def)
  qed
  then obtain w1 where w1: "run_state (check_provision api n d) w0 = (None, w1)" "calm w1" "view w1 = view w" by blast
  have n: "ds_name d = n" using view_key [of w "dataset_key n" "ODataset d"] assms(2) by (simp add: cache_settled_def)
  obtain w' where "run_state (sync_labels api n d) w1 = ((Result, None), w')" "calm w'" "label_synced d (view w1) (view w')"
    by (rule sync_labels_calm [OF w1(2) n])
  then show ?thesis using that [of w'] w0(1) w1 by (simp add: reconcile_provision_def)
qed

text \<open>A bound claim makes the dataset ready.\<close>

lemma bound_run:
  assumes "calm w" and "cache_settled (view w) n d" and "provision_status d \<notin> {StatusOK, StatusFail}"
    and "view w (pvc_key n) = Some (OPersistentVolumeClaim p)" and "pvc_phase p = ClaimBound"
  obtains w' d' where "run_state (ReconcileDataset api n) w = ((Result, None), w')" "calm w'"
    "view w' = (view w)(dataset_key n \<mapsto> ODataset d')" "statuses_of d' = (caching_status d, StatusOK)"
    "provision_info d' = ''''" "same_request d d'"
proof -
  obtain w0 where w0: "run_state (ReconcileDataset api n) w = run_state (reconcile_provision api n d) w0"
    "calm w0" "view w0 = view w" by (rule cache_settled_run [OF assms(1,2)])
  have d: "view w (dataset_key n) = Some (ODataset d)" using assms(2) by (simp add: cache_settled_def)
  have n: "ds_name d = n" using view_key [OF d] by simp
  obtain w1 where w1: "run_state (api_Get api KPersistentVolumeClaim n) w0 = (Inr (OPersistentVolumeClaim p), w1)"
    "calm w1" "view w1 = view w0" by (rule claim_calm [OF w0(2), of n p]) (use assms(4) w0(3) in simp)
  let ?d1 = "set_provision_info '''' (set_provision StatusOK d)"
  obtain w' d' where u: "run_state (updateDatasetStatusAndReturn api ?d1) w1 = ((Result, None), w')" "calm w'"
    "view w' = (view w1)(dataset_key (ds_name d) \<mapsto> ODataset d')" "ds_Status d' = ds_Status ?d1" "same_request d d'"
    by (rule status_write_calm [OF w1(2), of d ?d1])
      (use d n w0(3) w1(3) in \<open>simp_all add: same_request_def\<close>)
  have "statuses_of d' = (caching_status d, StatusOK)" "provision_info d' = ''''"
    using u(4) by (simp_all add: statuses_of_def) (simp add: set_provision_info_def)
  then show ?thesis using that [of w' d'] w0 w1 u n assms(3,5)
    by (simp add: reconcile_provision_def check_provision_def)
qed

text \<open>The first three runs for a dataset with disabled caching.\<close>

lemma run_init:
  assumes "calm w" and d: "view w (dataset_key n) = Some (ODataset d)"
    and "statuses_of d = (StatusEmpty, StatusEmpty)" and "valid_name (om_name (ds_meta d))"
  obtains r w' d' where "run_state (ReconcileDataset api n) w = (r, w')" "calm w'"
    "view w' = (view w)(dataset_key n \<mapsto> ODataset d')" "statuses_of d' = (StatusInitial, StatusInitial)" "same_request d d'"
proof -
  obtain w0 where g: "run_state (api_Get api KDataset n) w = (Inr (ODataset d), w0)" "calm w0" "view w0 = view w"
    by (rule get_dataset_calm [OF assms(1) d])
  have n: "ds_name d = n" using view_key [OF d] by simp
  let ?d1 = "set_caching StatusInitial (set_provision StatusInitial d)"
  have init: "initializeDatasetStatus d = (?d1, True)"
    using assms(3) by (simp add: initializeDatasetStatus_def statuses_of_def)
  have check: "check_name ?d1 = ?d1"
    using assms(4) remove_matches_empty_iff [of "om_name (ds_meta d)"] by (simp add: check_name_def)
  obtain w' d' where u: "run_state (updateDatasetStatusAndReturn api ?d1) w0 = ((Result, None), w')" "calm w'"
    "view w' = (view w0)(dataset_key (ds_name d) \<mapsto> ODataset d')" "ds_Status d' = ds_Status ?d1" "same_request d d'"
    by (rule status_write_calm [OF g(2), of d ?d1]) (use d n g(3) in \<open>simp_all add: same_request_def\<close>)
  have "statuses_of d' = statuses_of ?d1" using u(4) unfolding statuses_of_def by simp
  then have "statuses_of d' = (StatusInitial, StatusInitial)" by (simp add: statuses_of_def)
  then show ?thesis using that [of "(Result, None)" w' d'] g u n init check
    by (simp add: ReconcileDataset_def)
qed

lemma run_cache_disabled:
  assumes "calm w" and d: "view w (dataset_key n) = Some (ODataset d)"
    and "statuses_of d = (StatusInitial, p)" and "p \<noteq> StatusEmpty"
    and "parse_bool_or_false (mget (om_labels (ds_meta d)) ''cache.disable'')"
  obtains r w' d' where "run_state (ReconcileDataset api n) w = (r, w')" "calm w'"
    "view w' = (view w)(dataset_key n \<mapsto> ODataset d')" "statuses_of d' = (StatusDisabled, p)" "same_request d d'"
proof -
  obtain w0 where g: "run_state (api_Get api KDataset n) w = (Inr (ODataset d), w0)" "calm w0" "view w0 = view w"
    by (rule get_dataset_calm [OF assms(1) d])
  have n: "ds_name d = n" using view_key [OF d] by simp
  have init: "initializeDatasetStatus d = (d, False)"
    using assms(3,4) by (auto simp: initializeDatasetStatus_def statuses_of_def)
  let ?d1 = "set_caching_info ''User explicitly disabled caching'' (set_caching StatusDisabled d)"
  obtain w' d' where u: "run_state (updateDatasetStatusAndReturn api ?d1) w0 = ((Result, None), w')" "calm w'"
    "view w' = (view w0)(dataset_key (ds_name d) \<mapsto> ODataset d')" "ds_Status d' = ds_Status ?d1" "same_request d d'"
    by (rule status_write_calm [OF g(2), of d ?d1]) (use d n g(3) in \<open>simp_all add: same_request_def\<close>)
  have "statuses_of d' = statuses_of ?d1" using u(4) unfolding statuses_of_def by simp
  then have "statuses_of d' = (StatusDisabled, p)" using assms(3) by (simp add: statuses_of_def)
  then show ?thesis using that [of "(Result, None)" w' d'] g u n init assms(3,5)
    by (simp add: ReconcileDataset_def setup_caching_def statuses_of_def)
qed

lemma ensure_internal_calm:
  assumes "calm w" and "ds_name d = n" and "view w (internal_key n) = None" and "sp_Type (ds_Spec d) \<noteq> ''ARCHIVE''"
  obtains w' where "run_state (ensure_internal api n d) w = (None, w')" "calm w'" "carries d (ds_Spec d) (view w')"
    "agree_off {internal_key n} (view w) (view w')"
  using assms(1)
proof (cases rule: get_internal_calm [where n = n])
  case (1 e w0)
  obtain x where x: "api_SetControllerReference api (ODataset d) (ODatasetInternal (new_internal d (ds_Spec d))) = Inr x"
    using calm_set_reference by blast
  have k: "obj_key x = internal_key n" using owned_key [OF x] assms(2) by simp
  obtain r w' where c: "run_state (api_Create api x) w0 = (r, w')" by fastforce
  have r: "r = None" "calm w'" using calm_create [OF 1(4) c] assms(3) 1(5) k by auto
  have cr: "created x (view w0) (view w')" using create_ok c r(1) by simp
  have "run_state (ensure_internal api n d) w = (None, w')"
    using 1 x c r(1) assms(4) by (simp add: ensure_internal_def internal_spec_def)
  then show ?thesis using that [of w'] r(2) created_carries [OF x cr] created_agree [OF cr, of "{internal_key n}"] k 1(5) by simp
qed (use assms(3) in simp)

lemma run_create_internal:
  assumes "calm w" and d: "view w (dataset_key n) = Some (ODataset d)"
    and "statuses_of d = (StatusDisabled, StatusInitial)" and "sp_Type (ds_Spec d) \<noteq> ''ARCHIVE''"
    and "view w (internal_key n) = None" and "view w (pvc_key n) = None"
  obtains r w' d' where "run_state (ReconcileDataset api n) w = (r, w')" "calm w'"
    "agree_off {dataset_key n, internal_key n} (view w) (view w')" "view w' (dataset_key n) = Some (ODataset d')"
    "statuses_of d' = (StatusDisabled, StatusPending)" "same_request d d'" "carries d (ds_Spec d) (view w')"
proof -
  obtain w0 where g: "run_state (api_Get api KDataset n) w = (Inr (ODataset d), w0)" "calm w0" "view w0 = view w"
    by (rule get_dataset_calm [OF assms(1) d])
  have n: "ds_name d = n" using view_key [OF d] by simp
  have init: "initializeDatasetStatus d = (d, False)"
    using assms(3) by (auto simp: initializeDatasetStatus_def statuses_of_def)
  obtain w1 where e: "run_state (ensure_internal api n d) w0 = (None, w1)" "calm w1" "carries d (ds_Spec d) (view w1)"
    "agree_off {internal_key n} (view w0) (view w1)"
    by (rule ensure_internal_calm [OF g(2) n]) (use assms(4,5) g(3) in simp_all)
  have v1: "view w1 k = view w k" if "k \<noteq> internal_key n" for k using agree_offD [OF e(4)] that g(3) by simp
  from e(2) obtain err w2 where p: "run_state (api_Get api KPersistentVolumeClaim n) w1 = (Inl err, w2)" "IsNotFound err"
    "calm w2" "view w2 = view w1"
    by (cases rule: calm_get_cases [where k = KPersistentVolumeClaim and n = n]) (use v1 [of "pvc_key n"] assms(6) in auto)
  let ?d1 = "set_provision StatusPending d"
  obtain w' d' where u: "run_state (updateDatasetStatusAndReturn api ?d1) w2 = ((Result, None), w')" "calm w'"
    "view w' = (view w2)(dataset_key (ds_name d) \<mapsto> ODataset d')" "ds_Status d' = ds_Status ?d1" "same_request d d'"
    by (rule status_write_calm [OF p(3), of d ?d1])
      (use d n p(4) v1 [of "dataset_key n"] in \<open>simp_all add: same_request_def\<close>)
  have "statuses_of d' = statuses_of ?d1" using u(4) unfolding statuses_of_def by simp
  then have "statuses_of d' = (StatusDisabled, StatusPending)" using assms(3) by (simp add: statuses_of_def)
  moreover have "carries d (ds_Spec d) (view w')" using e(3) u(3) p(4) by (simp add: carries_def)
  moreover have "agree_off {dataset_key n, internal_key n} (view w) (view w')"
    using u(3) p(4) v1 n unfolding agree_off_def by auto
  moreover have "run_state (ReconcileDataset api n) w = ((Result, None), w')"
    using g init assms(3) e p u by (simp add: ReconcileDataset_def statuses_of_def run_andthen reconcile_provision_def check_provision_def)
  ultimately show ?thesis using that u n by simp
qed

end

end
