(* ===== verification/Dataset_Properties.thy ===== *)
theory Dataset_Properties
  imports Dataset_Calm
begin

text \<open>
  The properties of the Dataset reconciler: over single runs, over whole histories in which the runs
  interleave with users and the caching plugin, and in calm clusters.
\<close>

section \<open>Histories\<close>

text \<open>
  What others may do to a dataset between two runs: users edit, delete and create it (a new object has no
  status), the caching plugin reports success, and creates the DatasetInternal of a dataset that waits for it.
\<close>

definition others_step :: "namespaced_name \<Rightarrow> cluster \<Rightarrow> cluster \<Rightarrow> bool" where
  "others_step n v v' \<longleftrightarrow>
     (status_at v' n \<in> {status_at v n, None, Some (StatusEmpty, StatusEmpty)} \<or>
      (\<exists>p. status_at v n = Some (StatusPending, p) \<and> status_at v' n = Some (StatusOK, p))) \<and>
     (v (internal_key n) = None \<longrightarrow> v' (internal_key n) \<noteq> None \<longrightarrow> (\<exists>p. status_at v n = Some (StatusPending, p)))"

inductive dataset_history :: "'w cluster_api \<Rightarrow> ('w \<Rightarrow> cluster) \<Rightarrow> namespaced_name \<Rightarrow> 'w \<Rightarrow> 'w \<Rightarrow> bool"
  for api view n where
  start: "dataset_history api view n w w"
| reconcile: "dataset_history api view n w w1 \<Longrightarrow> run_state (ReconcileDataset api n) w1 = (r, w2) \<Longrightarrow>
    dataset_history api view n w w2"
| others: "dataset_history api view n w w1 \<Longrightarrow> others_step n (view w1) (view w2) \<Longrightarrow>
    dataset_history api view n w w2"

text \<open>The statuses a dataset can have.\<close>

definition status_ok :: "bool \<Rightarrow> statuses \<Rightarrow> bool" where
  "status_ok valid s \<longleftrightarrow> s = (StatusEmpty, StatusEmpty) \<or> \<not> valid \<and> s = (StatusFail, StatusFail) \<or>
     valid \<and> fst s \<in> {StatusInitial, StatusDisabled, StatusPending, StatusOK} \<and>
     snd s \<in> {StatusInitial, StatusPending, StatusOK} \<and> (fst s = StatusInitial \<longrightarrow> snd s = StatusInitial)"

lemma status_ok_step: "status_step valid s t \<Longrightarrow> status_ok valid s \<Longrightarrow> status_ok valid t"
  by (erule status_stepE) (auto simp: status_ok_def split: if_splits)

definition history_inv :: "bool \<Rightarrow> namespaced_name \<Rightarrow> cluster \<Rightarrow> bool" where
  "history_inv valid n v \<longleftrightarrow> (\<forall>s. status_at v n = Some s \<longrightarrow> status_ok valid s) \<and>
     (\<not> valid \<longrightarrow> v (internal_key n) = None)"

lemma status_at_dataset: "v (dataset_key n) = Some (ODataset d) \<Longrightarrow> status_at v n = Some (statuses_of d)"
  by (simp add: status_at_def)

lemma history_others:
  assumes "history_inv valid n v" and "others_step n v v'"
  shows "history_inv valid n v'"
proof -
  have s: "status_ok valid s" if "status_at v n = Some s" for s using assms(1) that by (simp add: history_inv_def)
  have pend: "status_ok valid (StatusPending, p) \<Longrightarrow> valid \<and> status_ok valid (StatusOK, p)" for p
    by (auto simp: status_ok_def)
  have "status_ok valid (StatusEmpty, StatusEmpty)" by (simp add: status_ok_def)
  then have "status_ok valid t" if "status_at v' n = Some t" for t
  proof -
    have "status_at v' n = status_at v n \<or> status_at v' n = None \<or> status_at v' n = Some (StatusEmpty, StatusEmpty) \<or>
        (\<exists>p. status_at v n = Some (StatusPending, p) \<and> status_at v' n = Some (StatusOK, p))"
      using assms(2) unfolding others_step_def by blast
    then show ?thesis
    proof (elim disjE exE conjE)
      fix p assume "status_at v n = Some (StatusPending, p)" "status_at v' n = Some (StatusOK, p)"
      moreover have "status_ok valid (StatusOK, p)" using pend [OF s [OF calculation(1)]] by blast
      ultimately show ?thesis using that by simp
    qed (use that s \<open>status_ok valid (StatusEmpty, StatusEmpty)\<close> in simp_all)
  qed
  moreover have "v' (internal_key n) = None" if invalid: "\<not> valid"
  proof (rule ccontr)
    assume "v' (internal_key n) \<noteq> None"
    then obtain p where "status_at v n = Some (StatusPending, p)"
      using assms invalid unfolding others_step_def history_inv_def by blast
    then show False using pend [OF s] invalid by blast
  qed
  ultimately show ?thesis by (simp add: history_inv_def)
qed

context api_server
begin

lemma reconcile_nothing:
  assumes "view w (dataset_key n) = None" and "run_state (ReconcileDataset api n) w = (r, w')"
  shows "view w' = view w"
proof -
  obtain r0 w0 where g: "run_state (api_Get api KDataset n) w = (r0, w0)" by fastforce
  obtain e where "r0 = Inl e" using get_found [of KDataset n w _ w0] g assms(1) by (cases r0) auto
  then show ?thesis using assms(2) g get_view [OF g] by (auto simp: ReconcileDataset_def split: if_splits)
qed

lemma dataset_object:
  assumes "view w (dataset_key n) = Some x"
  obtains d where "x = ODataset d" "ds_name d = n"
proof -
  have k: "obj_key x = dataset_key n" using view_key [OF assms] .
  have "fst (obj_key x) = kind_of x" by (simp add: obj_key_def key_of_def)
  then have "kind_of x = KDataset" unfolding k by (simp add: dataset_key_def del: dataset_key_simps)
  then obtain d where d: "x = ODataset d" by (cases x) auto
  with k have "ds_name d = n" by simp
  with d show ?thesis using that by blast
qed

lemma history_reconcile:
  assumes "history_inv (snd n = '''' \<or> valid_name (snd n)) n (view w)"
    and run: "run_state (ReconcileDataset api n) w = (r, w')"
  shows "history_inv (snd n = '''' \<or> valid_name (snd n)) n (view w')"
proof (cases "view w (dataset_key n)")
  case None
  then show ?thesis using reconcile_nothing [OF None run] assms(1) by simp
next
  case (Some x)
  let ?valid = "snd n = '''' \<or> valid_name (snd n)"
  obtain d where d: "x = ODataset d" "ds_name d = n" by (rule dataset_object [OF Some])
  then have v: "view w (dataset_key n) = Some (ODataset d)" using Some by simp
  have flag: "(remove_matches (om_name (ds_meta d)) = []) = ?valid"
    using remove_matches_empty_iff [of "om_name (ds_meta d)"] by (simp add: ds_name_def flip: d(2))
  have old: "status_ok ?valid (statuses_of d)"
    using assms(1) status_at_dataset [of "view w" n d] v by (simp add: history_inv_def)
  obtain d' where d': "view w' (dataset_key n) = Some (ODataset d')"
    "statuses_of d' = statuses_of d \<or> status_step ?valid (statuses_of d) (statuses_of d')"
    using reconcile_follows_status_step [OF v run] flag by auto
  have "status_ok ?valid (statuses_of d')"
    using d'(2)
  proof
    assume "status_step ?valid (statuses_of d) (statuses_of d')"
    then show ?thesis using old by (rule status_ok_step)
  qed (use old in simp)
  moreover have "view w' (internal_key n) = None" if invalid: "\<not> ?valid"
  proof (rule ccontr)
    assume "view w' (internal_key n) \<noteq> None"
    moreover have "view w (internal_key n) = None" using assms(1) invalid by (simp add: history_inv_def)
    ultimately obtain d1 where "view w (dataset_key n) = Some (ODataset d1)" "caching_status d1 = StatusDisabled"
      using reconcile_creates [OF run] by blast
    then show False using old v invalid by (auto simp: status_ok_def statuses_of_def)
  qed
  ultimately show ?thesis using d'(1) by (simp add: history_inv_def status_at_dataset)
qed

lemma history_keeps:
  "dataset_history api view n w w' \<Longrightarrow> history_inv (snd n = '''' \<or> valid_name (snd n)) n (view w) \<Longrightarrow>
   history_inv (snd n = '''' \<or> valid_name (snd n)) n (view w')"
  by (induction rule: dataset_history.induct) (blast intro: history_reconcile history_others)+

end

lemma history_start:
  "status_at v n \<in> {None, Some (StatusEmpty, StatusEmpty)} \<Longrightarrow> v (internal_key n) = None \<Longrightarrow> history_inv valid n v"
  by (auto simp: history_inv_def status_ok_def)

section \<open>Examples\<close>

definition example_dataset :: "string \<Rightarrow> smap \<Rightarrow> DatasetSpec \<Rightarrow> statuses \<Rightarrow> Dataset" where
  "example_dataset nm labels sp s =
     \<lparr>ds_meta = ObjectMeta nm ''ns'' labels, ds_Spec = sp,
      ds_Status = \<lparr>st_Caching = \<lparr>sc_Status = fst s, sc_Info = ''''\<rparr>, st_Provision = \<lparr>sc_Status = snd s, sc_Info = ''''\<rparr>\<rparr>\<rparr>"

lemma example_dataset_simps [simp]:
  "ds_name (example_dataset nm ls sp s) = (''ns'', nm)" "statuses_of (example_dataset nm ls sp s) = s"
  "ds_Spec (example_dataset nm ls sp s) = sp" "om_labels (ds_meta (example_dataset nm ls sp s)) = ls"
  "om_name (ds_meta (example_dataset nm ls sp s)) = nm" "caching_status (example_dataset nm ls sp s) = fst s"
  "provision_status (example_dataset nm ls sp s) = snd s"
  by (simp_all add: example_dataset_def ds_name_def ObjectMeta_def statuses_of_def)

lemma view_dataset:
  "mem_view (world_of [ODataset (example_dataset nm ls sp s)]) k =
     (if k = dataset_key (''ns'', nm) then Some (ODataset (example_dataset nm ls sp s)) else None)"
  by (simp add: view_world_of) (simp add: stored_form_def example_dataset_def ObjectMeta_def)

section \<open>Names and statuses\<close>

text \<open>
  The name check accepts exactly the names of lower-case letters, digits and dashes that start and end
  with a letter or digit (and the empty name); any other name fails both status fields with the message.
\<close>

theorem name_check_correct:
  "check_name d =
     (let s = om_name (ds_meta d) in
      if s = '''' \<or> name_alnum (hd s) \<and> name_alnum (last s) \<and> (\<forall>c \<in> set s. name_alnum c \<or> c = CHR ''-'') then d
      else set_caching StatusFail (set_provision_info NameInvalidCharacters (set_provision StatusFail d)))"
  using remove_matches_empty_iff [of "om_name (ds_meta d)"] unfolding valid_name_def name_char_def check_name_def Let_def
  by auto

theorem name_check_correct_witness:
  "caching_status (check_name (example_dataset ''-a'' [] empty_spec (StatusInitial, StatusInitial))) = StatusFail \<and>
   check_name (example_dataset ''a-1'' [] empty_spec (StatusInitial, StatusInitial)) =
     example_dataset ''a-1'' [] empty_spec (StatusInitial, StatusInitial)"
  using name_check_correct [of "example_dataset ''-a'' [] empty_spec (StatusInitial, StatusInitial)"]
    name_check_correct [of "example_dataset ''a-1'' [] empty_spec (StatusInitial, StatusInitial)"]
  by (simp add: name_alnum_def)

text \<open>
  C10. The reconciler refines the state machine of the status: whatever requests fail, a run keeps the pair of
  status fields or makes one step of \<open>status_step\<close>.
\<close>

theorem status_moves:
  assumes "api_server api view" and "view w (dataset_key n) = Some (ODataset d)"
    and "run_state (ReconcileDataset api n) w = (r, w')"
  shows "\<exists>d'. view w' (dataset_key n) = Some (ODataset d') \<and>
    (statuses_of d' = statuses_of d \<or>
     status_step (remove_matches (om_name (ds_meta d)) = []) (statuses_of d) (statuses_of d'))"
  by (rule api_server.reconcile_follows_status_step [OF assms])

theorem status_moves_witness:
  "\<exists>d' r w'. run_state (ReconcileDataset mem_api (''ns'', ''a''))
       (world_of [ODataset (example_dataset ''a'' [] empty_spec (StatusInitial, StatusInitial))]) = (r, w') \<and>
     mem_view w' (dataset_key (''ns'', ''a'')) = Some (ODataset d')"
proof -
  let ?w = "world_of [ODataset (example_dataset ''a'' [] empty_spec (StatusInitial, StatusInitial))]"
  obtain r w' where run: "run_state (ReconcileDataset mem_api (''ns'', ''a'')) ?w = (r, w')" by (metis surj_pair)
  have v: "mem_view ?w (dataset_key (''ns'', ''a'')) =
      Some (ODataset (example_dataset ''a'' [] empty_spec (StatusInitial, StatusInitial)))"
    by (simp add: view_dataset)
  from status_moves [OF mem.api_server_axioms v run] show ?thesis using run by blast
qed

text \<open>
  C9. Over any history of runs, user actions and caching-plugin reports that starts without a status, a dataset
  is always uninitialised, rejected for its name, or valid with a caching status of Initializing, Disabled,
  Pending or OK and a provision status of Initializing, Pending or OK; provisioning starts after caching is decided.
\<close>

theorem dataset_lifecycle:
  assumes "api_server api view" and "dataset_history api view n w w'"
    and "status_at (view w) n \<in> {None, Some (StatusEmpty, StatusEmpty)}" and "view w (internal_key n) = None"
    and "view w' (dataset_key n) = Some (ODataset d)"
  shows "status_ok (snd n = '''' \<or> valid_name (snd n)) (statuses_of d)"
  using api_server.history_keeps [OF assms(1,2) history_start [OF assms(3,4)]] status_at_dataset [of "view w'" n d] assms(5)
  by (simp add: history_inv_def)

theorem dataset_lifecycle_witness:
  "\<exists>d w'. mem_view w' (dataset_key (''ns'', ''a'')) = Some (ODataset d) \<and> status_ok True (statuses_of d)"
proof -
  let ?d = "example_dataset ''a'' [] empty_spec (StatusEmpty, StatusEmpty)"
  obtain r w' where run: "run_state (ReconcileDataset mem_api (''ns'', ''a'')) (world_of [ODataset ?d]) = (r, w')"
    by (metis surj_pair)
  have v: "mem_view (world_of [ODataset ?d]) (dataset_key (''ns'', ''a'')) = Some (ODataset ?d)"
    "mem_view (world_of [ODataset ?d]) (internal_key (''ns'', ''a'')) = None" by (simp_all add: view_dataset)
  obtain d where d: "mem_view w' (dataset_key (''ns'', ''a'')) = Some (ODataset d)"
    using mem.reconcile_follows_status_step [OF v(1) run] by blast
  have h: "dataset_history mem_api mem_view (''ns'', ''a'') (world_of [ODataset ?d]) w'"
    by (rule dataset_history.reconcile [OF dataset_history.start run])
  have "status_at (mem_view (world_of [ODataset ?d])) (''ns'', ''a'') \<in> {None, Some (StatusEmpty, StatusEmpty)}"
    using v(1) by (simp add: status_at_def)
  from dataset_lifecycle [OF mem.api_server_axioms h this v(2) d] have "status_ok True (statuses_of d)"
    by (simp add: valid_name_def name_alnum_def name_char_def)
  then show ?thesis using d by blast
qed



section \<open>What a run may do\<close>

text \<open>
  C32. A run of the Dataset reconciler changes nothing but the dataset it is called for, the DatasetInternal of
  the same name, and jobs in the operator's namespace, whatever requests fail.
\<close>

theorem dataset_confined:
  assumes "api_server api view" and "run_state (ReconcileDataset api n) w = (r, w')"
    and "k \<notin> {dataset_key n, internal_key n} \<union> job_keys api"
  shows "view w' k = view w k"
  by (rule api_server.frameD [OF assms(1) api_server.frame_reconcile_dataset [OF assms(1) refl] assms(2,3)])

theorem dataset_confined_witness:
  "mem_view (snd (run_state (ReconcileDataset mem_api (''ns'', ''a''))
     (world_of [ODataset (example_dataset ''a'' [] empty_spec (StatusEmpty, StatusEmpty))]))) (pvc_key (''ns'', ''a'')) =
   mem_view (world_of [ODataset (example_dataset ''a'' [] empty_spec (StatusEmpty, StatusEmpty))]) (pvc_key (''ns'', ''a''))"
  by (rule dataset_confined [OF mem.api_server_axioms prod.collapse [symmetric]])
    (auto simp: job_keys_def pvc_key_def internal_key_def dataset_key_def simp del: dataset_key_simps)

text \<open>
  C11. A run creates the DatasetInternal only for a dataset whose caching is disabled, and creates it with the
  dataset's labels and specification; for an archive with the specification of the bucket that a new download
  job fills, under the credentials of the operator's MinIO.
\<close>

theorem internal_created_as_specified:
  assumes "api_server api view" and "run_state (ReconcileDataset api n) w = (r, w')"
    and "view w (internal_key n) = None" and "view w' (internal_key n) \<noteq> None"
  shows "\<exists>d sp. view w (dataset_key n) = Some (ODataset d) \<and> caching_status d = StatusDisabled \<and>
    provision_status d \<noteq> StatusEmpty \<and>
    intended_spec (api_Getenv api ''OPERATOR_NAMESPACE'') (view w) (view w') d sp \<and> carries d sp (view w')"
  by (rule api_server.reconcile_creates [OF assms])

theorem internal_created_as_specified_witness:
  "\<exists>d sp w'. intended_spec ''dlf'' (mem_view (world_of [ODataset (example_dataset ''a'' [] empty_spec
      (StatusDisabled, StatusInitial))])) (mem_view w') d sp \<and> carries d sp (mem_view w')"
proof -
  let ?d = "example_dataset ''a'' [] empty_spec (StatusDisabled, StatusInitial)"
  let ?w = "world_of [ODataset ?d]"
  have v: "mem_view ?w (dataset_key (''ns'', ''a'')) = Some (ODataset ?d)" by (simp add: view_dataset)
  have none: "mem_view ?w (internal_key (''ns'', ''a'')) = None" "mem_view ?w (pvc_key (''ns'', ''a'')) = None"
    by (simp_all add: view_dataset) (simp add: pvc_key_def dataset_key_def del: dataset_key_simps)
  obtain r w' d' where run: "run_state (ReconcileDataset mem_api (''ns'', ''a'')) ?w = (r, w')"
    and c: "carries ?d empty_spec (mem_view w')"
    by (rule mem_calm.run_create_internal [OF world_of_calm v _ _ none])
      (auto simp: empty_spec_def)
  have "mem_view w' (internal_key (''ns'', ''a'')) \<noteq> None" using c by (auto simp: carries_def)
  from internal_created_as_specified [OF mem.api_server_axioms run none(1) this] show ?thesis
    by (auto simp: mem_api_def)
qed

section \<open>Progress\<close>

text \<open>The key of the download job with pod id \<open>u\<close>.\<close>

definition upload_job_key :: "string \<Rightarrow> string \<Rightarrow> obj_key" where
  "upload_job_key ons u = (KJob, (ons, ''cos-upload-'' @ take 4 u))"

fun dataset_times :: "nat \<Rightarrow> 'w cluster_api \<Rightarrow> namespaced_name \<Rightarrow> ('w, unit) state" where
  "dataset_times 0 api n = State_Monad.return ()"
| "dataset_times (Suc k) api n = do { _ \<leftarrow> ReconcileDataset api n; dataset_times k api n }"

text \<open>A new dataset for which the user disabled caching.\<close>

definition fresh_uncached :: "cluster \<Rightarrow> namespaced_name \<Rightarrow> Dataset \<Rightarrow> bool" where
  "fresh_uncached v n d \<longleftrightarrow> v (dataset_key n) = Some (ODataset d) \<and> statuses_of d = (StatusEmpty, StatusEmpty) \<and>
     valid_name (om_name (ds_meta d)) \<and> parse_bool_or_false (mget (om_labels (ds_meta d)) ''cache.disable'') \<and>
     sp_Type (ds_Spec d) \<noteq> ''ARCHIVE'' \<and> v (internal_key n) = None \<and> v (pvc_key n) = None"

context calm_api_server
begin

lemma three_runs:
  assumes "calm w" and "fresh_uncached (view w) n d"
  obtains w' d' where "run_state (dataset_times 3 api n) w = ((), w')" "calm w'"
    "agree_off {dataset_key n, internal_key n} (view w) (view w')" "view w' (dataset_key n) = Some (ODataset d')"
    "statuses_of d' = (StatusDisabled, StatusPending)" "same_request d d'" "carries d (ds_Spec d) (view w')"
proof -
  note f = assms(2) [unfolded fresh_uncached_def]
  obtain r1 w1 d1 where 1: "run_state (ReconcileDataset api n) w = (r1, w1)" "calm w1"
    "view w1 = (view w)(dataset_key n \<mapsto> ODataset d1)" "statuses_of d1 = (StatusInitial, StatusInitial)" "same_request d d1"
    by (rule run_init [OF assms(1), of n d]) (use f in auto)
  have s1: "ds_Spec d1 = ds_Spec d" "om_labels (ds_meta d1) = om_labels (ds_meta d)"
    using 1(5) by (simp_all add: same_request_def)
  obtain r2 w2 d2 where 2: "run_state (ReconcileDataset api n) w1 = (r2, w2)" "calm w2"
    "view w2 = (view w1)(dataset_key n \<mapsto> ODataset d2)" "statuses_of d2 = (StatusDisabled, StatusInitial)" "same_request d1 d2"
    by (rule run_cache_disabled [OF 1(2), of n d1 StatusInitial]) (use f 1 s1 in auto)
  have s2: "ds_Spec d2 = ds_Spec d" "same_request d d2"
    using 1(5) 2(5) same_request_trans by (auto simp: same_request_def)
  obtain r3 w3 d3 where 3: "run_state (ReconcileDataset api n) w2 = (r3, w3)" "calm w3"
    "agree_off {dataset_key n, internal_key n} (view w2) (view w3)" "view w3 (dataset_key n) = Some (ODataset d3)"
    "statuses_of d3 = (StatusDisabled, StatusPending)" "same_request d2 d3" "carries d2 (ds_Spec d2) (view w3)"
    by (rule run_create_internal [OF 2(2), of n d2]) (use f 1 2 s2 in auto)
  have "run_state (dataset_times 3 api n) w = ((), w3)"
    using 1(1) 2(1) 3(1) by (simp add: numeral_3_eq_3)
  moreover have "agree_off {dataset_key n, internal_key n} (view w) (view w3)"
    using 3(3) 2(3) 1(3) unfolding agree_off_def by auto
  moreover have "carries d (ds_Spec d) (view w3)" using 3(7) s2 by (simp add: carries_def same_request_def)
  ultimately show ?thesis using that 3 same_request_trans [OF s2(2) 3(6)] by blast
qed

lemma archive_leak:
  assumes "calm w" and d: "view w (dataset_key n) = Some (ODataset d)"
    and "caching_status d = StatusDisabled" and "provision_status d \<noteq> StatusEmpty"
    and "sp_Type (ds_Spec d) = ''ARCHIVE''" and "view w (internal_key n) = None"
    and "view w (secret_key (operator_namespace, ''minio-conf'')) = None"
    and "\<And>u. view w (upload_job_key operator_namespace u) = None"
  shows "\<exists>e w' u j. run_state (ReconcileDataset api n) w = ((Result, Some e), w') \<and>
    view w' = (view w)((upload_job_key operator_namespace u) \<mapsto> OJob j) \<and>
    job_Containers j = job_Containers (download_job d operator_namespace u)"
proof -
  obtain w0 where g: "run_state (api_Get api KDataset n) w = (Inr (ODataset d), w0)" "calm w0" "view w0 = view w"
    by (rule get_dataset_calm [OF assms(1) d])
  have init: "initializeDatasetStatus d = (d, False)" using assms(3,4) by (simp add: initializeDatasetStatus_def)
  from g(2) obtain e1 w1 where i: "run_state (api_Get api KDatasetInternal n) w0 = (Inl e1, w1)" "IsNotFound e1"
    "calm w1" "view w1 = view w"
    by (cases rule: get_internal_calm [where n = n]) (use assms(6) g(3) in auto)
  obtain u w2 where u: "run_state (api_NewUUID api) w1 = (u, w2)" by fastforce
  have w2: "calm w2" "view w2 = view w" using calm_new_uuid [OF i(3) u] new_uuid_view [OF u] i(4) by simp_all
  let ?j = "OJob (download_job d operator_namespace u)"
  obtain r w3 where c: "run_state (api_Create api ?j) w2 = (r, w3)" by fastforce
  have r: "r = None" "calm w3" using calm_create [OF w2(1) c] assms(8) [of u] w2(2) by (auto simp: upload_job_key_def)
  have k: "obj_key ?j = upload_job_key operator_namespace u" by (simp add: upload_job_key_def)
  obtain z where z: "view w3 = (view w)(upload_job_key operator_namespace u \<mapsto> z)" "payload z = payload ?j"
    using create_ok [of ?j w2 w3] c r(1) w2(2) unfolding created_def k by auto
  obtain j where j: "z = OJob j" "job_Containers j = job_Containers (download_job d operator_namespace u)"
    using payload_job [OF z(2)] by blast
  from r(2) obtain e2 w4 where s: "run_state (api_Get api KSecret (operator_namespace, ''minio-conf'')) w3 = (Inl e2, w4)"
    "view w4 = view w3"
    by (cases rule: calm_get_cases [where k = KSecret and n = "(operator_namespace, ''minio-conf'')"])
      (use z(1) assms(7) in \<open>auto simp: secret_key_def upload_job_key_def\<close>)
  have "run_state (ReconcileDataset api n) w = ((Result, Some e2), w4)"
    using g init assms(3,5) i u c r(1) s
    by (simp add: ReconcileDataset_def run_andthen ensure_internal_def internal_spec_def getPodDataDownload_def)
  then show ?thesis using s(2) z(1) j by auto
qed

end

text \<open>
  Progress: in a calm cluster three runs on a new dataset with a valid name and caching disabled by the
  user create its DatasetInternal, with the dataset's labels and specification, and leave it Disabled and Pending.
\<close>

theorem dataset_gets_internal:
  assumes "calm_api_server api view calm" and "calm w" and "fresh_uncached (view w) n d"
  shows "\<exists>w' d'. run_state (dataset_times 3 api n) w = ((), w') \<and> carries d (ds_Spec d) (view w') \<and>
    view w' (dataset_key n) = Some (ODataset d') \<and> statuses_of d' = (StatusDisabled, StatusPending)"
  using calm_api_server.three_runs [OF assms] by metis

definition example_uncached :: Dataset where
  "example_uncached = example_dataset ''a'' [(''cache.disable'', ''true'')]
     (empty_spec\<lparr>sp_Local := Some [(''type'', ''NFS''), (''server'', ''h''), (''share'', ''/x'')]\<rparr>) (StatusEmpty, StatusEmpty)"

lemma example_uncached_fresh: "fresh_uncached (mem_view (world_of [ODataset example_uncached])) (''ns'', ''a'') example_uncached"
  unfolding fresh_uncached_def example_uncached_def
  by (simp add: view_dataset valid_name_def name_alnum_def name_char_def empty_spec_def parse_bool_or_false_def ParseBool_def)
    (simp add: pvc_key_def dataset_key_def del: dataset_key_simps)

theorem dataset_gets_internal_witness:
  "\<exists>w'. run_state (dataset_times 3 mem_api (''ns'', ''a'')) (world_of [ODataset example_uncached]) = ((), w') \<and>
     carries example_uncached (ds_Spec example_uncached) (mem_view w')"
  using dataset_gets_internal [OF mem_calm.calm_api_server_axioms world_of_calm example_uncached_fresh] by blast

text \<open>
  When the claim of a pending dataset is bound, one run in a calm cluster sets its provision status to OK,
  clears the message and changes nothing else.
\<close>

theorem bound_claim_makes_ready:
  assumes "calm_api_server api view calm" and "calm w" and "cache_settled (view w) n d"
    and "provision_status d \<notin> {StatusOK, StatusFail}"
    and "view w (pvc_key n) = Some (OPersistentVolumeClaim p)" and "pvc_phase p = ClaimBound"
  shows "\<exists>w' d'. run_state (ReconcileDataset api n) w = ((Result, None), w') \<and>
    view w' = (view w)(dataset_key n \<mapsto> ODataset d') \<and> statuses_of d' = (caching_status d, StatusOK) \<and>
    provision_info d' = '''' \<and> same_request d d'"
  using calm_api_server.bound_run [OF assms] by metis

definition example_claim :: "claim_phase \<Rightarrow> PersistentVolumeClaim" where
  "example_claim ph = (empty_pvc (ObjectMeta ''a'' ''ns'' []))\<lparr>pvc_phase := ph\<rparr>"

definition claim_world :: "statuses \<Rightarrow> claim_phase \<Rightarrow> mem_world" where
  "claim_world s ph = world_of [ODataset (example_dataset ''a'' [] empty_spec s), OPersistentVolumeClaim (example_claim ph)]"

lemma claim_world_view:
  "mem_view (claim_world s ph) (dataset_key (''ns'', ''a'')) = Some (ODataset (example_dataset ''a'' [] empty_spec s))"
  "mem_view (claim_world s ph) (pvc_key (''ns'', ''a'')) = Some (OPersistentVolumeClaim (example_claim ph))"
  "mem_calm (claim_world s ph)"
proof -
  have k: "obj_key (OPersistentVolumeClaim (example_claim ph)) = pvc_key (''ns'', ''a'')"
    by (simp add: example_claim_def obj_key_def key_of_def pvc_key_def ObjectMeta_def)
  have f: "stored_form (ODataset (example_dataset ''a'' [] empty_spec s))" "stored_form (OPersistentVolumeClaim (example_claim ph))"
    by (simp_all add: stored_form_def example_dataset_def example_claim_def ObjectMeta_def)
  show "mem_view (claim_world s ph) (dataset_key (''ns'', ''a'')) = Some (ODataset (example_dataset ''a'' [] empty_spec s))"
    "mem_view (claim_world s ph) (pvc_key (''ns'', ''a'')) = Some (OPersistentVolumeClaim (example_claim ph))"
    unfolding claim_world_def using k f
    by (simp_all add: view_world_of) (simp add: pvc_key_def dataset_key_def del: dataset_key_simps)
qed (simp add: claim_world_def)

theorem bound_claim_makes_ready_witness:
  "\<exists>w' d'. run_state (ReconcileDataset mem_api (''ns'', ''a'')) (claim_world (StatusPending, StatusPending) ClaimBound) =
       ((Result, None), w') \<and>
     mem_view w' (dataset_key (''ns'', ''a'')) = Some (ODataset d') \<and> statuses_of d' = (StatusPending, StatusOK)"
proof -
  let ?d = "example_dataset ''a'' [] empty_spec (StatusPending, StatusPending)"
  have s: "cache_settled (mem_view (claim_world (StatusPending, StatusPending) ClaimBound)) (''ns'', ''a'') ?d"
    by (simp add: cache_settled_def claim_world_view)
  have "provision_status ?d \<notin> {StatusOK, StatusFail}" "pvc_phase (example_claim ClaimBound) = ClaimBound"
    by (simp_all add: example_claim_def)
  from bound_claim_makes_ready [OF mem_calm.calm_api_server_axioms claim_world_view(3) s this(1) claim_world_view(2) this(2)]
  show ?thesis by auto
qed

text \<open>
  Once the status is settled, a run in a calm cluster gives the DatasetInternal exactly the dataset's
  \<open>remove-on-delete\<close> label (or none), keeps its other labels and its specification, and changes nothing else.
\<close>

theorem labels_follow_dataset:
  assumes "calm_api_server api view calm" and "calm w" and "cache_settled (view w) n d"
    and "provision_status d \<in> {StatusOK, StatusFail}" and "view w (internal_key n) = Some (ODatasetInternal z)"
    and "run_state (ReconcileDataset api n) w = (r, w')"
  shows "r = (Result, None) \<and> agree_off {internal_key n} (view w) (view w') \<and>
    (\<exists>z'. view w' (internal_key n) = Some (ODatasetInternal z') \<and> di_Spec z' = di_Spec z \<and>
       map_of (om_labels (di_meta z')) =
         (map_of (om_labels (di_meta z)))(''remove-on-delete'' := map_of (om_labels (ds_meta d)) ''remove-on-delete''))"
proof -
  have d: "view w (dataset_key n) = Some (ODataset d)" using assms(3) by (simp add: cache_settled_def)
  have n: "ds_name d = n"
    using api_server.view_key [OF calm_api_server.axioms(1) [OF assms(1)] d] by simp
  obtain w1 where "run_state (ReconcileDataset api n) w = ((Result, None), w1)" "label_synced d (view w) (view w1)"
    by (rule calm_api_server.settled_run [OF assms(1,2,3)]) (use assms(4) in auto)
  then have "r = (Result, None)" "label_synced d (view w) (view w')" using assms(6) by simp_all
  then show ?thesis using assms(5) n unfolding label_synced_def by simp
qed

theorem labels_follow_dataset_witness:
  "\<exists>w' z'. mem_view w' (internal_key (''ns'', ''a'')) = Some (ODatasetInternal z') \<and>
     map_of (om_labels (di_meta z')) ''remove-on-delete'' = Some ''true''"
proof -
  let ?d = "example_dataset ''a'' [(''remove-on-delete'', ''true'')] empty_spec (StatusDisabled, StatusOK)"
  let ?w = "world_of [ODataset ?d, ODatasetInternal example_nfs]"
  obtain r w' where run: "run_state (ReconcileDataset mem_api (''ns'', ''a'')) ?w = (r, w')" by (metis surj_pair)
  have "obj_key (ODatasetInternal example_nfs) = internal_key (''ns'', ''a'')"
    by (simp add: obj_key_internal name_of_def example_nfs_def ObjectMeta_def)
  moreover have "stored_form (ODataset ?d)" "stored_form (ODatasetInternal example_nfs)"
    by (simp_all add: stored_form_def example_dataset_def example_nfs_def ObjectMeta_def)
  ultimately have v: "mem_view ?w (dataset_key (''ns'', ''a'')) = Some (ODataset ?d)"
    "mem_view ?w (internal_key (''ns'', ''a'')) = Some (ODatasetInternal example_nfs)"
    by (simp_all add: view_world_of)
  then have "cache_settled (mem_view ?w) (''ns'', ''a'') ?d" by (simp add: cache_settled_def)
  from labels_follow_dataset [OF mem_calm.calm_api_server_axioms world_of_calm this _ v(2) run]
  obtain z' where "mem_view w' (internal_key (''ns'', ''a'')) = Some (ODatasetInternal z')"
    "map_of (om_labels (di_meta z')) =
       (map_of (om_labels (di_meta example_nfs)))(''remove-on-delete'' := map_of (om_labels (ds_meta ?d)) ''remove-on-delete'')"
    by (simp only: example_dataset_simps snd_conv insert_iff simp_thms) blast
  then show ?thesis by (intro exI [of _ w'] exI [of _ z']) simp
qed

section \<open>Two defects\<close>

text \<open>
  A lost claim is not noticed: although a comment says that lost claims are examined like pending ones,
  a run for a pending dataset with a lost claim succeeds without a requeue and leaves the dataset as it is.
\<close>

theorem lost_claim_ignored:
  assumes "calm_api_server api view calm" and "calm w" and "cache_settled (view w) n d"
    and "view w (pvc_key n) = Some (OPersistentVolumeClaim p)" and "pvc_phase p = ClaimLost"
    and "run_state (ReconcileDataset api n) w = (r, w')"
  shows "r = (Result, None) \<and> view w' (dataset_key n) = Some (ODataset d)"
proof -
  have d: "view w (dataset_key n) = Some (ODataset d)" using assms(3) by (simp add: cache_settled_def)
  obtain w1 where "run_state (ReconcileDataset api n) w = ((Result, None), w1)" "label_synced d (view w) (view w1)"
    by (rule calm_api_server.settled_run [OF assms(1,2,3)]) (use assms(4,5) in auto)
  then have "r = (Result, None)" "label_synced d (view w) (view w')" using assms(6) by simp_all
  then show ?thesis using agree_offD [of "{internal_key (ds_name d)}" "view w" "view w'" "dataset_key n"] d
    by (simp add: label_synced_def)
qed

theorem lost_claim_ignored_witness:
  "\<exists>w'. run_state (ReconcileDataset mem_api (''ns'', ''a'')) (claim_world (StatusPending, StatusPending) ClaimLost) =
       ((Result, None), w')"
proof -
  obtain r w' where run: "run_state (ReconcileDataset mem_api (''ns'', ''a''))
      (claim_world (StatusPending, StatusPending) ClaimLost) = (r, w')" by (metis surj_pair)
  have s: "cache_settled (mem_view (claim_world (StatusPending, StatusPending) ClaimLost)) (''ns'', ''a'')
      (example_dataset ''a'' [] empty_spec (StatusPending, StatusPending))"
    by (simp add: cache_settled_def claim_world_view)
  have "pvc_phase (example_claim ClaimLost) = ClaimLost" by (simp add: example_claim_def)
  from lost_claim_ignored [OF mem_calm.calm_api_server_axioms claim_world_view(3) s claim_world_view(2) this run]
  show ?thesis using run by auto
qed

text \<open>
  C38. Without the \<open>minio-conf\<close> secret the run for an archive fails, but it has already started a download
  job; so every retry starts another job, and with it another bucket.
\<close>

theorem archive_retry_leaks_job:
  assumes "calm_api_server api view calm" and "calm w" and "view w (dataset_key n) = Some (ODataset d)"
    and "caching_status d = StatusDisabled" and "provision_status d \<noteq> StatusEmpty"
    and "sp_Type (ds_Spec d) = ''ARCHIVE''" and "view w (internal_key n) = None"
    and "view w (secret_key (api_Getenv api ''OPERATOR_NAMESPACE'', ''minio-conf'')) = None"
    and "\<And>u. view w (upload_job_key (api_Getenv api ''OPERATOR_NAMESPACE'') u) = None"
  shows "\<exists>e w' u j. run_state (ReconcileDataset api n) w = ((Result, Some e), w') \<and>
    view w' = (view w)((upload_job_key (api_Getenv api ''OPERATOR_NAMESPACE'') u) \<mapsto> OJob j) \<and>
    job_Containers j = job_Containers (download_job d (api_Getenv api ''OPERATOR_NAMESPACE'') u)"
  by (rule calm_api_server.archive_leak) (fact assms)+

theorem archive_retry_leaks_job_witness:
  "\<exists>e w' u j. run_state (ReconcileDataset mem_api (''ns'', ''a'')) (world_of [ODataset (example_dataset ''a'' []
      (empty_spec\<lparr>sp_Type := ''ARCHIVE'', sp_Url := ''http://h/f''\<rparr>) (StatusDisabled, StatusPending))]) = ((Result, Some e), w') \<and>
    mem_view w' (upload_job_key ''dlf'' u) = Some (OJob j)"
proof -
  let ?d = "example_dataset ''a'' [] (empty_spec\<lparr>sp_Type := ''ARCHIVE'', sp_Url := ''http://h/f''\<rparr>) (StatusDisabled, StatusPending)"
  have ons: "api_Getenv mem_api ''OPERATOR_NAMESPACE'' = ''dlf''" by (simp add: mem_api_def)
  have none: "mem_view (world_of [ODataset ?d]) (internal_key (''ns'', ''a'')) = None"
    "mem_view (world_of [ODataset ?d]) (secret_key (api_Getenv mem_api ''OPERATOR_NAMESPACE'', ''minio-conf'')) = None"
    "\<And>u. mem_view (world_of [ODataset ?d]) (upload_job_key (api_Getenv mem_api ''OPERATOR_NAMESPACE'') u) = None"
    by (simp_all add: view_dataset upload_job_key_def)
      (simp add: secret_key_def dataset_key_def del: dataset_key_simps)
  have v: "mem_view (world_of [ODataset ?d]) (dataset_key (''ns'', ''a'')) = Some (ODataset ?d)" by (simp add: view_dataset)
  have "\<exists>e w' u j. run_state (ReconcileDataset mem_api (''ns'', ''a'')) (world_of [ODataset ?d]) = ((Result, Some e), w') \<and>
    mem_view w' = (mem_view (world_of [ODataset ?d]))(upload_job_key (api_Getenv mem_api ''OPERATOR_NAMESPACE'') u \<mapsto> OJob j) \<and>
    job_Containers j = job_Containers (download_job ?d (api_Getenv mem_api ''OPERATOR_NAMESPACE'') u)"
    by (rule archive_retry_leaks_job [where calm = mem_calm])
      (use none v in \<open>simp_all add: mem_calm.calm_api_server_axioms\<close>)
  then obtain e w' u j where "run_state (ReconcileDataset mem_api (''ns'', ''a'')) (world_of [ODataset ?d]) = ((Result, Some e), w')"
    "mem_view w' = (mem_view (world_of [ODataset ?d]))(upload_job_key ''dlf'' u \<mapsto> OJob j)"
    unfolding ons by blast
  then show ?thesis by (intro exI [of _ e] exI [of _ w'] exI [of _ u] exI [of _ j]) simp
qed

end
