(* ===== verification/Provisioning.thy ===== *)
theory Provisioning
  imports Internal_Properties Dataset_Properties
begin

text \<open>
  The two controllers of the operator together: in a calm cluster a new local dataset gets its claim, and is
  ready once the cluster has bound it.  \<open>provisionable\<close> says when the DatasetInternal controller can serve an
  instance: the credentials or the parameters of its type are there.
\<close>

section \<open>Instances that can be served\<close>

definition provisionable :: "cluster \<Rightarrow> DatasetInternal \<Rightarrow> bool" where
  "provisionable v cr \<longleftrightarrow> sp_Local (di_Spec cr) \<noteq> None \<and>
     (let t = mget (spec_local cr) ''type'' in
      t = ''COS'' \<and> credentials_of v cr \<noteq> None \<or> t = ''NFS'' \<or> t = ''HOST'' \<and> valid_host cr \<or> t = ''H3'' \<and> valid_h3 cr)"

text \<open>Only the name and the specification matter, and of the cluster only the secrets.\<close>

lemma provisionable_cong:
  assumes "name_of cr' = name_of cr" and "di_Spec cr' = di_Spec cr" and "\<And>k. v' (secret_key k) = v (secret_key k)"
  shows "provisionable v' cr' \<longleftrightarrow> provisionable v cr"
proof -
  have l: "spec_local cr' = spec_local cr" using assms(2) by simp
  have ns: "om_namespace (di_meta cr') = om_namespace (di_meta cr)" using assms(1) by (simp add: name_of_def)
  show ?thesis
    unfolding provisionable_def credentials_of_def secret_ok_def valid_host_def valid_h3_def l ns assms(2,3) ..
qed

lemma settled_claim: "settled v cr \<Longrightarrow> v (pvc_key (name_of cr)) \<noteq> None"
  unfolding settled_def cos_settled_def volume_there_def Let_def by blast

text \<open>The instance with the finalizer, and the update that stores it.\<close>

definition added_finalizer :: "DatasetInternal \<Rightarrow> DatasetInternal" where
  "added_finalizer cr = with_finalizers (\<lambda>fs. if datasetFinalizer \<in> set fs then fs else fs @ [datasetFinalizer]) cr"

lemma finalizer_updated:
  assumes "updated (ODatasetInternal (added_finalizer cr)) v v'"
    and "v (internal_key n) = Some (ODatasetInternal cr)" and "name_of cr = n" and "om_deletionTimestamp (di_meta cr) = None"
  obtains cr' where "v' = v(internal_key n \<mapsto> ODatasetInternal cr')" "di_Spec cr' = di_Spec cr" "name_of cr' = name_of cr"
    "om_deletionTimestamp (di_meta cr') = None" "\<not> needs_finalizer cr'" "om_labels (di_meta cr') = om_labels (di_meta cr)"
proof -
  define x where "x = added_finalizer cr"
  have x: "obj_key (ODatasetInternal x) = internal_key n" "di_Spec x = di_Spec cr"
    "datasetFinalizer \<in> set (om_finalizers (di_meta x))" "om_labels (di_meta x) = om_labels (di_meta cr)"
    using assms(3) by (auto simp: x_def added_finalizer_def with_finalizers_def obj_key_internal name_of_def)
  obtain y where y: "v' = v(internal_key n \<mapsto> y)" "obj_key y = internal_key n"
    "payload y = payload (ODatasetInternal x)" "finalizers_of y = finalizers_of (ODatasetInternal x)" "deletion_of y = None"
    using assms(1,2,4) x(1) unfolding x_def [symmetric] by (auto simp: updated_def)
  obtain cr' where cr': "y = ODatasetInternal cr'" "di_Spec cr' = di_Spec x" "om_labels (di_meta cr') = om_labels (di_meta x)"
    by (rule payload_internal [OF y(3)])
  have "name_of cr' = name_of cr" using y(2) cr'(1) assms(3) by (simp add: obj_key_internal internal_key_def)
  moreover have "\<not> needs_finalizer cr'" using finalizer_not_needed [of cr'] y(4) cr'(1) x(3) by simp
  ultimately show ?thesis using that [of cr'] y cr' x by simp
qed

context calm_api_server
begin

lemma instance_calm:
  assumes "calm w" and "view w (internal_key n) = Some (ODatasetInternal cr)"
  obtains w0 where "run_state (api_Get api KDatasetInternal n) w = (Inr (ODatasetInternal cr), w0)" "calm w0" "view w0 = view w"
  using assms(1) by (cases rule: get_internal_calm [where n = n]) (use assms(2) in auto)

end

context calm_catalog
begin

lemma process_succeeds:
  assumes "calm w" and "provisionable (view w) cr"
  obtains w' where "run_state (process_dataset api hms parse_url cr) w = ((Result, None), w')" "calm w'"
    "settled (view w') cr"
proof -
  have local: "sp_Local (di_Spec cr) \<noteq> None" using assms(2) by (simp add: provisionable_def)
  consider "mget (spec_local cr) ''type'' = ''COS''" "credentials_of (view w) cr \<noteq> None"
    | "mget (spec_local cr) ''type'' = ''NFS''" | "mget (spec_local cr) ''type'' = ''HOST''" "valid_host cr"
    | "mget (spec_local cr) ''type'' = ''H3''" "valid_h3 cr"
    using assms(2) by (auto simp: provisionable_def Let_def)
  then have "\<exists>w'. run_state (process_dataset api hms parse_url cr) w = ((Result, None), w')"
  proof cases
    case 1
    then show ?thesis using COS_calm [OF assms(1), of cr] local
      by (auto simp: process_dataset_def datasetLocalProcessTable_def)
  next
    case 2
    then show ?thesis using local
      by (auto simp: process_dataset_def datasetLocalProcessTable_def intro: NFS_calm [OF assms(1), of cr])
  next
    case 3
    then show ?thesis using local
      by (auto simp: process_dataset_def datasetLocalProcessTable_def intro: HOST_calm [OF assms(1), of cr])
  next
    case 4
    then show ?thesis using local
      by (auto simp: process_dataset_def datasetLocalProcessTable_def intro: H3_calm [OF assms(1), of cr])
  qed
  then obtain w' where w': "run_state (process_dataset api hms parse_url cr) w = ((Result, None), w')" by blast
  show ?thesis using that [OF w' process_calm [OF assms(1) local w'] process_settles [OF assms(1) local w']] .
qed

text \<open>A run on a live instance that needs no finalizer serves it.\<close>

lemma reconcile_serves:
  assumes "calm w" and "view w (internal_key n) = Some (ODatasetInternal cr)"
    and "om_deletionTimestamp (di_meta cr) = None" and "\<not> needs_finalizer cr" and "provisionable (view w) cr"
  obtains w' where "run_state (ReconcileInternal api hms parse_url n) w = ((Result, None), w')" "calm w'"
    "settled (view w') cr" "view w' (internal_key n) = Some (ODatasetInternal cr)"
proof -
  obtain w0 where w0: "run_state (api_Get api KDatasetInternal n) w = (Inr (ODatasetInternal cr), w0)" "calm w0"
    "view w0 = view w" by (rule instance_calm [OF assms(1,2)])
  obtain w' where w': "run_state (process_dataset api hms parse_url cr) w0 = ((Result, None), w')" "calm w'"
    "settled (view w') cr"
    by (rule process_succeeds [OF w0(2), of cr]) (use assms(5) w0(3) in simp)
  have "run_state (ReconcileInternal api hms parse_url n) w = ((Result, None), w')"
    using w0(1) w'(1) assms(3,4) by (simp add: ReconcileInternal_def)
  then show ?thesis using that w' process_keeps_internal [OF w'(1), of n] w0(3) assms(2) by simp
qed

text \<open>For object storage: the secret it makes holds the configuration of the instance.\<close>

lemma reconcile_serves_cos:
  assumes "calm w" and "view w (internal_key (name_of cr)) = Some (ODatasetInternal cr)"
    and "om_deletionTimestamp (di_meta cr) = None" and "\<not> needs_finalizer cr"
    and "sp_Local (di_Spec cr) \<noteq> None" and "mget (spec_local cr) ''type'' = ''COS''" and "credentials_of (view w) cr = Some ks"
    and "view w (secret_key (name_of cr)) = None" and "view w (pvc_key (name_of cr)) = None"
  obtains w' s where "run_state (ReconcileInternal api hms parse_url (name_of cr)) w = ((Result, None), w')" "calm w'"
    "settled (view w') cr" "view w' (internal_key (name_of cr)) = Some (ODatasetInternal cr)"
    "view w' (secret_key (name_of cr)) = Some (OSecret s)"
    "map_of (sec_Data s) = map_of (sec_StringData (cos_secret cr ks))"
proof -
  have "provisionable (view w) cr" using assms(5-7) by (simp add: provisionable_def)
  then obtain w' where w': "run_state (ReconcileInternal api hms parse_url (name_of cr)) w = ((Result, None), w')" "calm w'"
    "settled (view w') cr" "view w' (internal_key (name_of cr)) = Some (ODatasetInternal cr)"
    by (rule reconcile_serves [OF assms(1-4)])
  obtain w0 where w0: "run_state (api_Get api KDatasetInternal (name_of cr)) w = (Inr (ODatasetInternal cr), w0)" "view w0 = view w"
    by (rule instance_calm [OF assms(1,2)])
  have "\<exists>r. run_state (processLocalDatasetCOS api cr) w0 = ((r, None), w')"
    using w'(1) w0(1) assms(3-6)
    by (auto simp: ReconcileInternal_def process_dataset_def datasetLocalProcessTable_def split: prod.splits)
  then obtain r where "run_state (processLocalDatasetCOS api cr) w0 = ((r, None), w')" ..
  from COS_fresh_contents_in [OF this] obtain s where "view w' (secret_key (name_of cr)) = Some (OSecret s)"
    "map_of (sec_Data s) = map_of (sec_StringData (cos_secret cr ks))"
    using assms(7-9) w0(2) by auto
  then show ?thesis using that w' by blast
qed

text \<open>The first run on an object-storage instance adds the finalizer.\<close>

lemma reconcile_adds_finalizer:
  assumes "calm w" and "view w (internal_key n) = Some (ODatasetInternal cr)"
    and "om_deletionTimestamp (di_meta cr) = None" and "needs_finalizer cr"
  obtains w' cr' where "run_state (ReconcileInternal api hms parse_url n) w = ((Result, None), w')" "calm w'"
    "view w' = (view w)(internal_key n \<mapsto> ODatasetInternal cr')" "di_Spec cr' = di_Spec cr" "name_of cr' = name_of cr"
    "om_deletionTimestamp (di_meta cr') = None" "\<not> needs_finalizer cr'" "om_labels (di_meta cr') = om_labels (di_meta cr)"
proof -
  obtain w0 where w0: "run_state (api_Get api KDatasetInternal n) w = (Inr (ODatasetInternal cr), w0)" "calm w0"
    "view w0 = view w" by (rule instance_calm [OF assms(1,2)])
  have n: "name_of cr = n" using view_key [OF assms(2)] by (simp add: obj_key_internal)
  let ?x = "ODatasetInternal (added_finalizer cr)"
  have k: "obj_key ?x = internal_key n" using n by (simp add: obj_key_internal added_finalizer_def)
  obtain e w' where u: "run_state (api_Update api ?x) w0 = (e, w')" by fastforce
  have c: "calm w'" "e = None" using calm_update [OF w0(2) u] assms(2,3) w0(3) k by auto
  have "updated ?x (view w) (view w')" using update_ok [of ?x w0 w'] u c(2) w0(3) by simp
  then obtain cr' where cr': "view w' = (view w)(internal_key n \<mapsto> ODatasetInternal cr')" "di_Spec cr' = di_Spec cr"
    "name_of cr' = name_of cr" "om_deletionTimestamp (di_meta cr') = None" "\<not> needs_finalizer cr'"
    "om_labels (di_meta cr') = om_labels (di_meta cr)"
    by (rule finalizer_updated [where v = "view w" and cr = cr and n = n, OF _ assms(2) n assms(3)])
  have "run_state (ReconcileInternal api hms parse_url n) w = ((Result, None), w')"
    using w0(1) u c(2) assms(4) by (simp add: ReconcileInternal_def addFinalizer_def added_finalizer_def)
  then show ?thesis using that [of w' cr'] c(1) cr' by simp
qed

text \<open>Two runs on a new object-storage instance, whether or not it has the finalizer already.\<close>

lemma two_runs_serve_cos:
  assumes "calm w" and cr: "view w (internal_key (name_of cr)) = Some (ODatasetInternal cr)"
    and live: "om_deletionTimestamp (di_meta cr) = None"
    and l: "sp_Local (di_Spec cr) \<noteq> None" "mget (spec_local cr) ''type'' = ''COS''"
    and cred: "\<And>v. credentials_of v cr = Some ks"
    and none: "view w (secret_key (name_of cr)) = None" "view w (pvc_key (name_of cr)) = None"
  obtains w' s where "run_state (reconcile_times 2 api hms parse_url (name_of cr)) w = ((), w')" "calm w'"
    "view w' (secret_key (name_of cr)) = Some (OSecret s)" "view w' (pvc_key (name_of cr)) \<noteq> None"
    "map_of (sec_Data s) = map_of (sec_StringData (cos_secret cr ks))"
proof (cases "needs_finalizer cr")
  case True
  obtain w1 cr' where w1: "run_state (ReconcileInternal api hms parse_url (name_of cr)) w = ((Result, None), w1)" "calm w1"
    "view w1 = (view w)(internal_key (name_of cr) \<mapsto> ODatasetInternal cr')" "di_Spec cr' = di_Spec cr" "name_of cr' = name_of cr"
    "om_deletionTimestamp (di_meta cr') = None" "\<not> needs_finalizer cr'" "om_labels (di_meta cr') = om_labels (di_meta cr)"
    by (rule reconcile_adds_finalizer [OF assms(1) cr live True])
  have same: "cos_secret cr' ks = cos_secret cr ks"
    using w1(4,5,8) by (simp add: cos_secret_def dataset_meta_def name_of_def bucket_of_def folder_of_def cos_readonly_def
        cos_provision_def cos_remove_on_delete_def)
  have "credentials_of (view w1) cr' = credentials_of (view w1) cr"
    using w1(4,5) by (simp add: credentials_of_def secret_ok_def name_of_def)
  then have cred1: "credentials_of (view w1) cr' = Some ks" using cred by simp
  obtain w' s where w': "run_state (ReconcileInternal api hms parse_url (name_of cr')) w1 = ((Result, None), w')" "calm w'"
    "settled (view w') cr'" "view w' (secret_key (name_of cr')) = Some (OSecret s)"
    "map_of (sec_Data s) = map_of (sec_StringData (cos_secret cr' ks))"
    by (rule reconcile_serves_cos [OF w1(2) _ w1(6,7) _ _ cred1]) (use w1 l none in simp_all)
  then show ?thesis
    using that [of w' s] w1(1,5) settled_claim [OF w'(3)] same by (simp add: numeral_2_eq_2)
next
  case False
  obtain w1 s where w1: "run_state (ReconcileInternal api hms parse_url (name_of cr)) w = ((Result, None), w1)" "calm w1"
    "settled (view w1) cr" "view w1 (internal_key (name_of cr)) = Some (ODatasetInternal cr)"
    "view w1 (secret_key (name_of cr)) = Some (OSecret s)" "map_of (sec_Data s) = map_of (sec_StringData (cos_secret cr ks))"
    by (rule reconcile_serves_cos [OF assms(1) cr live False l cred none])
  obtain w0 where w0: "run_state (api_Get api KDatasetInternal (name_of cr)) w1 = (Inr (ODatasetInternal cr), w0)" "calm w0"
    "view w0 = view w1" by (rule instance_calm [OF w1(2,4)])
  obtain w' where w': "run_state (process_dataset api hms parse_url cr) w0 = ((Result, None), w')" "calm w'" "view w' = view w0"
    using settled_noop [OF w0(2), of cr] w1(3) w0(3) l(1) by auto
  have "run_state (ReconcileInternal api hms parse_url (name_of cr)) w1 = ((Result, None), w')"
    using w0(1) w'(1) live False by (simp add: ReconcileInternal_def)
  then show ?thesis
    using that [of w' s] w1(1,5,6) w'(2,3) w0(3) settled_claim [OF w1(3)] by (simp add: numeral_2_eq_2)
qed

end

end
