(* ===== verification/Operator_Schedule.thy ===== *)
theory Operator_Schedule
  imports Provisioning "HOL-Library.Sublist"
begin

text \<open>
  The operator at work: the two controllers and the cluster that binds claims act on one dataset, in any order and
  as often as they like.  \<open>stage\<close> measures how far the dataset has come; no action throws it back, and the
  action that is due takes it one further.
\<close>

section \<open>The actions\<close>

datatype actor = DatasetRun | InternalRun | ClaimBinder | ClaimWaits

inductive operator_step ::
  "'w cluster_api \<Rightarrow> ('w \<Rightarrow> cluster) \<Rightarrow> ('w \<Rightarrow> bool) \<Rightarrow> 'w metastore \<Rightarrow> (string \<Rightarrow> url option) \<Rightarrow>
   namespaced_name \<Rightarrow> actor \<Rightarrow> 'w \<Rightarrow> 'w \<Rightarrow> bool"
  for api view calm hms parse_url n where
  by_dataset: "run_state (ReconcileDataset api n) w = (r, w') \<Longrightarrow>
    operator_step api view calm hms parse_url n DatasetRun w w'"
| by_internal: "run_state (ReconcileInternal api hms parse_url n) w = (r, w') \<Longrightarrow>
    operator_step api view calm hms parse_url n InternalRun w w'"
| by_cluster: "calm w' \<Longrightarrow> view w (pvc_key n) = Some (OPersistentVolumeClaim p) \<Longrightarrow>
    view w' = (view w)(pvc_key n \<mapsto> OPersistentVolumeClaim (p\<lparr>pvc_phase := ClaimBound\<rparr>)) \<Longrightarrow>
    operator_step api view calm hms parse_url n ClaimBinder w w'"
| by_volumes: "calm w' \<Longrightarrow> view w (pvc_key n) = Some (OPersistentVolumeClaim p) \<Longrightarrow> pvc_phase p \<noteq> ClaimBound \<Longrightarrow>
    view w' = (view w)(pvc_key n \<mapsto> OPersistentVolumeClaim (p\<lparr>pvc_phase := ClaimPending\<rparr>)) \<Longrightarrow>
    operator_step api view calm hms parse_url n ClaimWaits w w'"

inductive_cases dataset_stepE: "operator_step api view calm hms parse_url n DatasetRun w w'"
inductive_cases internal_stepE: "operator_step api view calm hms parse_url n InternalRun w w'"
inductive_cases binder_stepE: "operator_step api view calm hms parse_url n ClaimBinder w w'"
inductive_cases waits_stepE: "operator_step api view calm hms parse_url n ClaimWaits w w'"

inductive operator_trace ::
  "'w cluster_api \<Rightarrow> ('w \<Rightarrow> cluster) \<Rightarrow> ('w \<Rightarrow> bool) \<Rightarrow> 'w metastore \<Rightarrow> (string \<Rightarrow> url option) \<Rightarrow>
   namespaced_name \<Rightarrow> actor list \<Rightarrow> 'w \<Rightarrow> 'w \<Rightarrow> bool"
  for api view calm hms parse_url n where
  nothing: "operator_trace api view calm hms parse_url n [] w w"
| action: "operator_step api view calm hms parse_url n a w w1 \<Longrightarrow> operator_trace api view calm hms parse_url n as w1 w' \<Longrightarrow>
    operator_trace api view calm hms parse_url n (a # as) w w'"

inductive_cases operator_trace_ConsE: "operator_trace api view calm hms parse_url n (a # as) w w'"
inductive_simps operator_trace_Nil [simp]: "operator_trace api view calm hms parse_url n [] w w'"

text \<open>Traces of repeated runs.\<close>

lemma operator_trace_append:
  "operator_trace api view calm hms parse_url n as w w1 \<Longrightarrow> operator_trace api view calm hms parse_url n bs w1 w2 \<Longrightarrow>
   operator_trace api view calm hms parse_url n (as @ bs) w w2"
  by (induction rule: operator_trace.induct) (auto intro: operator_trace.action)

lemma dataset_times_trace:
  "operator_trace api view calm hms parse_url n (replicate k DatasetRun) w (snd (run_state (dataset_times k api n) w))"
  by (induction k arbitrary: w) (auto simp: case_prod_beta intro!: operator_trace.action by_dataset [OF prod.collapse [symmetric]])

lemma reconcile_times_trace:
  "operator_trace api view calm hms parse_url n (replicate k InternalRun) w
     (snd (run_state (reconcile_times k api hms parse_url n) w))"
  by (induction k arbitrary: w) (auto simp: case_prod_beta intro!: operator_trace.action by_internal [OF prod.collapse [symmetric]])

section \<open>How far a dataset has come\<close>

definition claim_bound :: "cluster \<Rightarrow> namespaced_name \<Rightarrow> bool" where
  "claim_bound v n \<longleftrightarrow> (\<exists>p. v (pvc_key n) = Some (OPersistentVolumeClaim p) \<and> pvc_phase p = ClaimBound)"

text \<open>The instance that a dataset asks for, as long as it lives.\<close>

definition serves :: "Dataset \<Rightarrow> DatasetInternal \<Rightarrow> bool" where
  "serves d cr \<longleftrightarrow> di_Spec cr = ds_Spec d \<and> name_of cr = ds_name d \<and> om_deletionTimestamp (di_meta cr) = None \<and>
     map_of (om_labels (di_meta cr)) = map_of (om_labels (ds_meta d))"

text \<open>The actions due, in the order of the stages.\<close>

definition plan :: "actor list" where
  "plan = [DatasetRun, DatasetRun, DatasetRun, InternalRun, InternalRun, ClaimBinder, DatasetRun]"

lemma length_plan: "length plan = 7" by (simp add: plan_def)

definition early :: "nat \<Rightarrow> statuses" where
  "early k = [(StatusEmpty, StatusEmpty), (StatusInitial, StatusInitial), (StatusDisabled, StatusInitial)] ! k"

definition early_stage :: "Dataset \<Rightarrow> nat \<Rightarrow> cluster \<Rightarrow> bool" where
  "early_stage d k v \<longleftrightarrow> (\<exists>e. v (dataset_key (ds_name d)) = Some (ODataset e) \<and> same_request d e \<and> statuses_of e = early k) \<and>
     v (internal_key (ds_name d)) = None \<and> v (pvc_key (ds_name d)) = None \<and> provisionable v (new_internal d (ds_Spec d))"

abbreviation open_statuses :: "string set" where
  "open_statuses \<equiv> {StatusInitial, StatusPending, StatusOK}"

definition late_stage :: "Dataset \<Rightarrow> nat \<Rightarrow> cluster \<Rightarrow> bool" where
  "late_stage d k v \<longleftrightarrow>
     (\<exists>e cr. v (dataset_key (ds_name d)) = Some (ODataset e) \<and> same_request d e \<and> caching_status e = StatusDisabled \<and>
        provision_status e \<in> open_statuses \<and> (k \<ge> 7 \<longrightarrow> provision_status e = StatusOK) \<and>
        v (internal_key (ds_name d)) = Some (ODatasetInternal cr) \<and> serves d cr \<and> provisionable v cr \<and>
        (k \<ge> 4 \<longrightarrow> \<not> needs_finalizer cr) \<and> (k \<ge> 5 \<longrightarrow> settled v cr)) \<and>
     (k \<ge> 6 \<longrightarrow> claim_bound v (ds_name d))"

definition stage :: "Dataset \<Rightarrow> nat \<Rightarrow> cluster \<Rightarrow> bool" where
  "stage d k v \<longleftrightarrow> (if k < 3 then early_stage d k v else late_stage d k v)"

lemma dataset_key_distinct [simp]:
  "pvc_key m \<noteq> dataset_key n" "dataset_key n \<noteq> pvc_key m" "secret_key m \<noteq> dataset_key n" "dataset_key n \<noteq> secret_key m"
  "config_key m \<noteq> dataset_key n" "dataset_key n \<noteq> config_key m" "pv_key m \<noteq> dataset_key n" "dataset_key n \<noteq> pv_key m"
  "internal_key m \<noteq> dataset_key n" "dataset_key n \<noteq> internal_key m"
  "config_key m \<noteq> internal_key n" "pv_key m \<noteq> internal_key n" "pv_key m \<noteq> pvc_key n" "config_key m \<noteq> pvc_key n"
  by (simp_all add: key_defs dataset_key_def del: dataset_key_simps)

lemma late_stage_mono: "late_stage d k v \<Longrightarrow> j \<le> k \<Longrightarrow> late_stage d j v"
  unfolding late_stage_def by (meson order_trans)

text \<open>What is settled stays so when the phase of the claim or the labels' representation changes.\<close>

lemma settled_cong:
  assumes "settled v cr" and "di_Spec cr' = di_Spec cr" and "name_of cr' = name_of cr"
    and "map_of (om_labels (di_meta cr')) = map_of (om_labels (di_meta cr))"
    and "\<And>k. v' (secret_key k) = v (secret_key k)" and "v' (config_key (name_of cr)) = v (config_key (name_of cr))"
    and "v' (pv_key (name_of cr)) = v (pv_key (name_of cr))"
    and "v (pvc_key (name_of cr)) \<noteq> None \<Longrightarrow> v' (pvc_key (name_of cr)) \<noteq> None"
  shows "settled v' cr'"
proof -
  have ns: "om_namespace (di_meta cr') = om_namespace (di_meta cr)" using assms(3) by (simp add: name_of_def)
  have l: "spec_local cr' = spec_local cr" using assms(2) by simp
  have c: "credentials_of v' cr' = credentials_of v cr" unfolding credentials_of_def secret_ok_def l ns assms(5) ..
  have r: "cos_remove_on_delete cr' = cos_remove_on_delete cr"
    unfolding cos_remove_on_delete_def getBooleanStringForKeyInMap_def assms(4) ..
  show ?thesis
    using assms(1,8) unfolding settled_def cos_settled_def volume_there_def valid_host_def valid_h3_def Let_def c r l assms(3,5,6,7)
    by blast
qed

lemma settled_provisionable: "settled v cr \<Longrightarrow> sp_Local (di_Spec cr) \<noteq> None \<Longrightarrow> provisionable v cr"
  unfolding settled_def cos_settled_def provisionable_def Let_def by blast

text \<open>What is left of the plan after an action is still to come.\<close>

lemma plan_advances:
  assumes "j \<ge> k" and "subseq (drop k plan) (a # as)" and "k < 7 \<and> a = plan ! k \<longrightarrow> j > k"
  shows "subseq (drop j plan) as"
proof -
  have further: "subseq (drop j plan) (drop i plan)" if "i \<le> j" for i
    using that suffix_drop [of "j - i" "drop i plan"] by (simp add: suffix_imp_subseq)
  have due: "drop k plan = plan ! k # drop (Suc k) plan" if "k < 7"
    using that by (simp add: Cons_nth_drop_Suc length_plan)
  show ?thesis
  proof (cases "k < 7")
    case True
    show ?thesis
    proof (cases "a = plan ! k")
      case same: True
      then have "subseq (drop (Suc k) plan) as" using assms(2) due [OF True] by simp
      then show ?thesis using subseq_order.trans further [of "Suc k"] assms(3) True same by auto
    next
      case False
      then have "subseq (drop k plan) as" using assms(2) due [OF True] by simp
      then show ?thesis using subseq_order.trans further assms(1) by blast
    qed
  next
    case False
    then have "drop j plan = []" using assms(1) by (simp add: length_plan)
    then show ?thesis by simp
  qed
qed

section \<open>Runs of the Dataset controller\<close>

context api_server
begin

text \<open>Synchronising equal labels leaves an instance as it was, whatever requests fail.\<close>

lemma equal_labels_kept:
  assumes "view w (internal_key n) = Some (ODatasetInternal cr)"
    and labels: "map_of (om_labels (di_meta cr)) = map_of (om_labels (ds_meta d))"
    and "run_state (sync_labels api n d) w = (r, w')"
  obtains cr' where "view w' (internal_key n) = Some (ODatasetInternal cr')" "di_Spec cr' = di_Spec cr"
    "name_of cr' = name_of cr" "om_deletionTimestamp (di_meta cr') = om_deletionTimestamp (di_meta cr)"
    "om_finalizers (di_meta cr') = om_finalizers (di_meta cr)"
    "map_of (om_labels (di_meta cr')) = map_of (om_labels (di_meta cr))"
proof -
  obtain g w1 where g: "run_state (api_Get api KDatasetInternal n) w = (g, w1)" by fastforce
  have v1: "view w1 = view w" by (rule get_view [OF g])
  obtain ls b where l: "labels_loop (om_labels (ds_meta d)) [''remove-on-delete''] (om_labels (di_meta cr), False) = (ls, b)"
    by fastforce
  have ls: "map_of ls = map_of (om_labels (di_meta cr))"
    using labels_loop_one [where l = "''remove-on-delete''" and ds = "om_labels (ds_meta d)"
        and i = "om_labels (di_meta cr)" and b = False] unfolding l labels [symmetric] by auto
  let ?x = "ODatasetInternal (cr\<lparr>di_meta := (di_meta cr)\<lparr>om_labels := ls\<rparr>\<rparr>)"
  have k: "obj_key ?x = internal_key n" using view_key [OF assms(1)] by simp
  have changed: "view w' = view w \<or> updated ?x (view w) (view w')"
  proof (cases "g = Inr (ODatasetInternal cr) \<and> b")
    case True
    obtain e w2 where u: "run_state (api_Update api ?x) w1 = (e, w2)" by fastforce
    have "w2 = w'" using assms(3) g True l u
      by (cases e) (simp_all add: sync_labels_def checkIfEditableLabelsChangedAndUpdate_def run_andthen run_fail_with)
    then show ?thesis using update_ok [of ?x w1 w'] update_failed [of ?x w1 _ w'] u v1 by (cases e) auto
  next
    case False
    have "g = Inr x \<Longrightarrow> x = ODatasetInternal cr" for x using get_found [of KDatasetInternal n w x w1] g assms(1) by simp
    then have "w' = w1" using assms(3) g False l
      by (cases g) (auto simp: sync_labels_def checkIfEditableLabelsChangedAndUpdate_def run_andthen)
    then show ?thesis using v1 by simp
  qed
  then show ?thesis
  proof
    assume "view w' = view w"
    then show ?thesis using that [of cr] assms(1) by simp
  next
    assume u: "updated ?x (view w) (view w')"
    have "\<not> (om_deletionTimestamp (di_meta cr) \<noteq> None \<and> om_finalizers (di_meta cr) = [])"
      using view_stored [OF assms(1)] by (auto simp: stored_form_def)
    then obtain y where y: "view w' (internal_key n) = Some y" "obj_key y = internal_key n" "payload y = payload ?x"
      "finalizers_of y = om_finalizers (di_meta cr)" "deletion_of y = om_deletionTimestamp (di_meta cr)"
      using u assms(1) k by (auto simp: updated_def split: if_splits)
    obtain cr' where cr': "y = ODatasetInternal cr'" "di_Spec cr' = di_Spec cr" "om_labels (di_meta cr') = ls"
      using payload_internal [OF y(3)] by auto
    have "name_of cr' = name_of cr" using y(2) k cr'(1) by (simp add: obj_key_internal internal_key_def name_of_def)
    then show ?thesis using that [of cr'] y cr' ls by simp
  qed
qed

end

context calm_api_server
begin

lemma claim_cases:
  assumes "calm w"
  obtains (missing) e w0 where "run_state (api_Get api KPersistentVolumeClaim n) w = (Inl e, w0)" "IsNotFound e"
      "view w (pvc_key n) = None" "calm w0" "view w0 = view w"
  | (found) p w0 where "run_state (api_Get api KPersistentVolumeClaim n) w = (Inr (OPersistentVolumeClaim p), w0)"
      "view w (pvc_key n) = Some (OPersistentVolumeClaim p)" "calm w0" "view w0 = view w"
  using assms
proof (cases rule: calm_get_cases [where k = KPersistentVolumeClaim and n = n])
  case (2 x w0)
  then have "obj_key x = pvc_key n" using view_key by fastforce
  then have "kind_of x = KPersistentVolumeClaim" by (auto simp: obj_key_def key_of_def pvc_key_def split: if_splits)
  then obtain p where "x = OPersistentVolumeClaim p" by (cases x) auto
  then show ?thesis using 2 found by simp
qed (use missing in simp)

text \<open>The part of the handler that follows the claim: the status moves to \<open>Pending\<close> or \<open>OK\<close>.\<close>

definition moves :: "namespaced_name \<Rightarrow> Dataset \<Rightarrow> 'w \<Rightarrow> 'w \<Rightarrow> bool" where
  "moves n e w w' \<longleftrightarrow> calm w' \<and> (\<exists>e'. view w' = (view w)(dataset_key n \<mapsto> ODataset e') \<and> same_request e e' \<and>
     caching_status e' = caching_status e \<and> provision_status e' \<in> open_statuses \<and>
     (provision_status e = StatusOK \<or> claim_bound (view w) n \<longrightarrow> provision_status e' = StatusOK))"

lemma stays:
  assumes "calm w'" and "view w' = view w" and "view w (dataset_key n) = Some (ODataset e)"
    and "provision_status e \<in> open_statuses" and "claim_bound (view w) n \<Longrightarrow> provision_status e = StatusOK"
  shows "moves n e w w'"
  using assms unfolding moves_def by (intro conjI exI [of _ e]) (auto simp: fun_upd_idem)

lemma status_written:
  assumes "calm w1" and "view w1 = view w" and "view w (dataset_key n) = Some (ODataset e)"
    and "same_request e e1" and "caching_status e1 = caching_status e" and "provision_status e1 \<in> open_statuses"
    and "provision_status e = StatusOK \<or> claim_bound (view w) n \<longrightarrow> provision_status e1 = StatusOK"
    and "run_state (updateDatasetStatusAndReturn api e1) w1 = (r, w')"
  shows "moves n e w w'"
proof -
  have n: "ds_name e = n" using view_key [OF assms(3)] by simp
  obtain w2 e' where u: "run_state (updateDatasetStatusAndReturn api e1) w1 = ((Result, None), w2)" "calm w2"
    "view w2 = (view w1)(dataset_key (ds_name e) \<mapsto> ODataset e')" "ds_Status e' = ds_Status e1" "same_request e e'"
    by (rule status_write_calm [OF assms(1) _ assms(4)]) (use assms(2,3) n in simp)
  have "statuses_of e' = statuses_of e1" using u(4) unfolding statuses_of_def by simp
  then show ?thesis using u assms n by (auto simp: moves_def statuses_of_def)
qed

lemma check_provision_moves:
  assumes "calm w" and e: "view w (dataset_key n) = Some (ODataset e)" and p: "provision_status e \<in> open_statuses"
    and run: "run_state (check_provision api n e) w = (res, w')"
  shows "moves n e w w'"
proof (cases "provision_status e = StatusOK")
  case True
  then show ?thesis using stays [OF assms(1) refl e p] run by (simp add: check_provision_def)
next
  case False
  then have waiting: "provision_status e \<in> {StatusInitial, StatusPending}" using p by simp
  then have open_e: "provision_status e \<noteq> StatusFail \<and> provision_status e \<noteq> StatusOK" by auto
  from assms(1) show ?thesis
  proof (cases rule: claim_cases [where n = n])
    case (missing err w0)
    then have nb: "\<not> claim_bound (view w) n" by (simp add: claim_bound_def)
    show ?thesis
    proof (cases "provision_status e = StatusPending")
      case True
      then have "w' = w0" using run missing by (simp add: check_provision_def)
      then show ?thesis using stays [OF missing(4,5) e p] nb by simp
    next
      case False
      then have "\<exists>r. run_state (updateDatasetStatusAndReturn api (set_provision StatusPending e)) w0 = (r, w')"
        using run missing(1,2) open_e by (auto simp: check_provision_def split: prod.splits)
      then show ?thesis using nb open_e
        by (elim exE) (rule status_written [OF missing(4,5) e]; simp add: same_request_def)
    qed
  next
    case (found c w0)
    show ?thesis
    proof (cases "pvc_phase c")
      case ClaimPending
      then have nb: "\<not> claim_bound (view w) n" using found(2) by (simp add: claim_bound_def)
      obtain es w1 where ev: "run_state (api_ListEvents api (om_namespace (pvc_meta c)) (om_name (pvc_meta c))
          (om_resourceVersion (pvc_meta c)) ''ProvisioningFailed'') w0 = (es, w1)" by fastforce
      have w1: "calm w1" "view w1 = view w" using calm_list_events [OF found(3) ev] list_events_view [OF ev] found(4) by auto
      obtain msg where msg: "run_state (readEventsForPVC api c) w0 = (Inr msg, w1)"
        using calm_list_events [OF found(3) ev] ev by (auto simp: readEventsForPVC_def)
      define d1 where "d1 = (if provision_status e = StatusPending then e else set_provision StatusPending e)"
      define d2 where "d2 = (if provision_info d1 = msg then d1 else set_provision_info msg d1)"
      have d2: "same_request e d2" "caching_status d2 = caching_status e" "provision_status d2 = StatusPending"
        by (simp_all add: d1_def d2_def same_request_def)
      have "provision_status e = StatusPending \<and> w' = w1 \<or> (\<exists>r. run_state (updateDatasetStatusAndReturn api d2) w1 = (r, w'))"
        using run open_e found(1) ClaimPending msg
        by (auto simp: check_provision_def claim_pending_def Let_def d1_def d2_def split: prod.splits if_splits)
      then show ?thesis
      proof (elim disjE exE conjE)
        assume "w' = w1"
        then show ?thesis using stays [OF w1 e p] nb by simp
      next
        fix r assume "run_state (updateDatasetStatusAndReturn api d2) w1 = (r, w')"
        then show ?thesis using nb open_e d2 by (intro status_written [OF w1 e d2(1,2)]) simp_all
      qed
    next
      case ClaimBound
      then have "\<exists>r. run_state (updateDatasetStatusAndReturn api (set_provision_info '''' (set_provision StatusOK e))) w0 = (r, w')"
        using run open_e found(1) by (auto simp: check_provision_def split: prod.splits)
      then show ?thesis
        by (elim exE) (rule status_written [OF found(3,4) e]; simp add: same_request_def)
    qed (use run open_e found stays [OF found(3,4) e p] in \<open>auto simp: check_provision_def claim_bound_def\<close>)
  qed
qed

end

text \<open>The facts that a change of the dataset and its instance has to keep.\<close>

lemma late_stage_change:
  assumes "late_stage d k v" and v: "v (internal_key (ds_name d)) = Some (ODatasetInternal cr)"
    and other: "\<And>key. key \<notin> {dataset_key (ds_name d), internal_key (ds_name d), pvc_key (ds_name d)} \<Longrightarrow> v' key = v key"
    and pvc: "v (pvc_key (ds_name d)) \<noteq> None \<Longrightarrow> v' (pvc_key (ds_name d)) \<noteq> None"
    and bound: "j \<ge> 6 \<Longrightarrow> claim_bound v' (ds_name d)"
    and e: "v' (dataset_key (ds_name d)) = Some (ODataset e)" "same_request d e" "caching_status e = StatusDisabled"
    "provision_status e \<in> open_statuses" "j \<ge> 7 \<Longrightarrow> provision_status e = StatusOK"
    and cr: "v' (internal_key (ds_name d)) = Some (ODatasetInternal cr')" "di_Spec cr' = di_Spec cr"
    "name_of cr' = name_of cr" "om_deletionTimestamp (di_meta cr') = om_deletionTimestamp (di_meta cr)"
    "map_of (om_labels (di_meta cr')) = map_of (om_labels (di_meta cr))"
    and fin: "j \<ge> 4 \<Longrightarrow> \<not> needs_finalizer cr'" and set: "j \<ge> 5 \<Longrightarrow> k \<ge> 5"
  shows "late_stage d j v'"
proof -
  have c: "serves d cr" "provisionable v cr" "k \<ge> 5 \<Longrightarrow> settled v cr"
    using assms(1) v by (auto simp: late_stage_def)
  have n: "name_of cr = ds_name d" using c(1) by (simp add: serves_def)
  have sec: "v' (secret_key m) = v (secret_key m)" for m using other [of "secret_key m"] by simp
  have "serves d cr'" using c(1) cr by (simp add: serves_def)
  moreover have "provisionable v' cr'" using provisionable_cong [OF cr(3,2), of v' v] sec c(2) by simp
  moreover have "settled v' cr'" if "j \<ge> 5"
    by (rule settled_cong [OF c(3) [OF set [OF that]] cr(2,3,5) sec]) (use other pvc n in simp_all)
  ultimately show ?thesis unfolding late_stage_def using e cr(1) fin bound by blast
qed

lemma late_stage_same_objects:
  assumes "late_stage d k v"
    and other: "\<And>key. key \<noteq> pvc_key (ds_name d) \<Longrightarrow> v' key = v key"
    and pvc: "v (pvc_key (ds_name d)) \<noteq> None \<Longrightarrow> v' (pvc_key (ds_name d)) \<noteq> None"
    and bound: "j \<ge> 6 \<Longrightarrow> claim_bound v' (ds_name d)" and "j = k \<or> k = 5 \<and> j = 6"
  shows "late_stage d j v'"
proof -
  obtain e cr where e: "v (dataset_key (ds_name d)) = Some (ODataset e)" "same_request d e" "caching_status e = StatusDisabled"
    "provision_status e \<in> open_statuses" "k \<ge> 7 \<longrightarrow> provision_status e = StatusOK"
    and cr: "v (internal_key (ds_name d)) = Some (ODatasetInternal cr)" "k \<ge> 4 \<longrightarrow> \<not> needs_finalizer cr"
    using assms(1) unfolding late_stage_def by blast
  show ?thesis
    by (rule late_stage_change [OF assms(1) cr(1), of v' j e cr]) (use other pvc bound e cr assms(5) in auto)
qed

lemma late_stage_waits:
  assumes "late_stage d k v" and "v (pvc_key (ds_name d)) = Some (OPersistentVolumeClaim p)" and "pvc_phase p \<noteq> ClaimBound"
    and "v' = v(pvc_key (ds_name d) \<mapsto> OPersistentVolumeClaim (p\<lparr>pvc_phase := ClaimPending\<rparr>))"
  shows "late_stage d k v'"
  by (rule late_stage_same_objects [OF assms(1)]) (use assms in \<open>auto simp: late_stage_def claim_bound_def\<close>)

lemma late_stage_binds:
  assumes "late_stage d k v" and "v (pvc_key (ds_name d)) = Some (OPersistentVolumeClaim p)"
    and "v' = v(pvc_key (ds_name d) \<mapsto> OPersistentVolumeClaim (p\<lparr>pvc_phase := ClaimBound\<rparr>))"
  shows "late_stage d (if k = 5 then 6 else k) v'"
  by (rule late_stage_same_objects [OF assms(1)]) (use assms in \<open>auto simp: claim_bound_def split: if_splits\<close>)

lemma needs_finalizer_cong:
  "di_Spec cr' = di_Spec cr \<Longrightarrow> om_finalizers (di_meta cr') = om_finalizers (di_meta cr) \<Longrightarrow>
   needs_finalizer cr' = needs_finalizer cr"
  by (simp add: needs_finalizer_def)

context calm_api_server
begin

lemma dataset_run_late:
  assumes "calm w" and "late_stage d k (view w)" and "k \<ge> 3"
    and run: "run_state (ReconcileDataset api (ds_name d)) w = (r, w')"
  shows "calm w' \<and> late_stage d (if k = 6 then 7 else k) (view w')"
proof -
  let ?n = "ds_name d"
  obtain e cr where e: "view w (dataset_key ?n) = Some (ODataset e)" "same_request d e" "caching_status e = StatusDisabled"
    "provision_status e \<in> open_statuses" "k \<ge> 7 \<longrightarrow> provision_status e = StatusOK"
    and cr: "view w (internal_key ?n) = Some (ODatasetInternal cr)" "serves d cr" "k \<ge> 4 \<longrightarrow> \<not> needs_finalizer cr"
    and bound: "k \<ge> 6 \<longrightarrow> claim_bound (view w) ?n"
    using assms(2) unfolding late_stage_def by blast
  have "cache_settled (view w) ?n e" using e cr(1) by (auto simp: cache_settled_def)
  then obtain w0 where w0: "run_state (ReconcileDataset api ?n) w = run_state (reconcile_provision api ?n e) w0"
    "calm w0" "view w0 = view w" by (rule cache_settled_run [OF assms(1)])
  obtain res w1 where c: "run_state (check_provision api ?n e) w0 = (res, w1)" by fastforce
  have "moves ?n e w0 w1" by (rule check_provision_moves [OF w0(2) _ e(4) c]) (use e(1) w0(3) in simp)
  then obtain e' where w1: "calm w1" "view w1 = (view w)(dataset_key ?n \<mapsto> ODataset e')" "same_request e e'"
    "caching_status e' = caching_status e" "provision_status e' \<in> open_statuses"
    "provision_status e = StatusOK \<or> claim_bound (view w) ?n \<longrightarrow> provision_status e' = StatusOK"
    unfolding moves_def w0(3) by blast
  have in1: "view w1 (internal_key ?n) = Some (ODatasetInternal cr)" using w1(2) cr(1) by simp
  have labels: "map_of (om_labels (di_meta cr)) = map_of (om_labels (ds_meta e))"
    using cr(2) e(2) by (simp add: serves_def same_request_def)
  have n: "ds_name e = ?n" using e(2) by (simp add: same_request_def)
  have "\<exists>cr'. calm w' \<and> agree_off {internal_key ?n} (view w1) (view w') \<and> view w' (internal_key ?n) = Some (ODatasetInternal cr') \<and>
      di_Spec cr' = di_Spec cr \<and> name_of cr' = name_of cr \<and> om_deletionTimestamp (di_meta cr') = om_deletionTimestamp (di_meta cr) \<and>
      om_finalizers (di_meta cr') = om_finalizers (di_meta cr) \<and> map_of (om_labels (di_meta cr')) = map_of (om_labels (di_meta cr))"
  proof (cases res)
    case (Some x)
    then have "w' = w1" using run w0(1) c by (simp add: reconcile_provision_def)
    then show ?thesis using w1(1) in1 by auto
  next
    case None
    then have s: "run_state (sync_labels api ?n e) w1 = (r, w')" using run w0(1) c by (simp add: reconcile_provision_def)
    obtain w2 where "run_state (sync_labels api ?n e) w1 = ((Result, None), w2)" "calm w2" "label_synced e (view w1) (view w2)"
      by (rule sync_labels_calm [OF w1(1) n])
    then have "calm w'" "agree_off {internal_key ?n} (view w1) (view w')" using s n by (auto simp: label_synced_def)
    moreover obtain cr' where "view w' (internal_key ?n) = Some (ODatasetInternal cr')" "di_Spec cr' = di_Spec cr"
      "name_of cr' = name_of cr" "om_deletionTimestamp (di_meta cr') = om_deletionTimestamp (di_meta cr)"
      "om_finalizers (di_meta cr') = om_finalizers (di_meta cr)"
      "map_of (om_labels (di_meta cr')) = map_of (om_labels (di_meta cr))"
      by (rule equal_labels_kept [OF in1 labels s])
    ultimately show ?thesis by blast
  qed
  then obtain cr' where w': "calm w'" "agree_off {internal_key ?n} (view w1) (view w')"
    "view w' (internal_key ?n) = Some (ODatasetInternal cr')" "di_Spec cr' = di_Spec cr" "name_of cr' = name_of cr"
    "om_deletionTimestamp (di_meta cr') = om_deletionTimestamp (di_meta cr)"
    "om_finalizers (di_meta cr') = om_finalizers (di_meta cr)"
    "map_of (om_labels (di_meta cr')) = map_of (om_labels (di_meta cr))" by blast
  have same: "view w' key = view w key" if "key \<notin> {dataset_key ?n, internal_key ?n}" for key
    using agree_offD [OF w'(2), of key] w1(2) that by simp
  have e': "view w' (dataset_key ?n) = Some (ODataset e')" "same_request d e'"
    using agree_offD [OF w'(2), of "dataset_key ?n"] w1(2) same_request_trans [OF e(2) w1(3)] by simp_all
  have "claim_bound (view w') ?n = claim_bound (view w) ?n" using same [of "pvc_key ?n"] by (simp add: claim_bound_def)
  with bound w1(6) e(5) have "late_stage d (if k = 6 then 7 else k) (view w')"
    by (intro late_stage_change [OF assms(2) cr(1) _ _ _ e' _ w1(5) _ w'(3-6,8)])
      (use same e(3) w1(4) cr(3) needs_finalizer_cong [OF w'(4,7)] in \<open>auto split: if_splits\<close>)
  then show ?thesis using w'(1) by blast
qed

lemma dataset_run_early:
  assumes "calm w" and s: "early_stage d k (view w)" and "k < 3"
    and d: "valid_name (om_name (ds_meta d))" "parse_bool_or_false (mget (om_labels (ds_meta d)) ''cache.disable'')"
    "sp_Type (ds_Spec d) \<noteq> ''ARCHIVE''"
    and run: "run_state (ReconcileDataset api (ds_name d)) w = (r, w')"
  shows "calm w' \<and> stage d (Suc k) (view w')"
proof -
  let ?n = "ds_name d"
  obtain e where e: "view w (dataset_key ?n) = Some (ODataset e)" "same_request d e" "statuses_of e = early k"
    and none: "view w (internal_key ?n) = None" "view w (pvc_key ?n) = None"
    and prov: "provisionable (view w) (new_internal d (ds_Spec d))" using s unfolding early_stage_def by blast
  have same: "ds_Spec e = ds_Spec d" "om_labels (ds_meta e) = om_labels (ds_meta d)" "om_name (ds_meta e) = om_name (ds_meta d)"
    using e(2) by (simp_all add: same_request_def ds_name_def)
  have early: "stage d (Suc k) (view w')" if "view w' = (view w)(dataset_key ?n \<mapsto> ODataset e')" "same_request e e'"
    "statuses_of e' = early (Suc k)" "Suc k < 3" for e'
  proof -
    have "provisionable (view w') (new_internal d (ds_Spec d))"
      using provisionable_cong [OF refl refl, of "view w'" "view w" "new_internal d (ds_Spec d)"] prov that(1)
      by simp
    then show ?thesis using that none same_request_trans [OF e(2) that(2)]
      by (auto simp: stage_def early_stage_def)
  qed
  consider "k = 0" | "k = 1" | "k = 2" using assms(3) by linarith
  then show ?thesis
  proof cases
    case 1
    obtain r1 w1 e' where "run_state (ReconcileDataset api ?n) w = (r1, w1)" "calm w1"
      "view w1 = (view w)(dataset_key ?n \<mapsto> ODataset e')" "statuses_of e' = (StatusInitial, StatusInitial)" "same_request e e'"
      by (rule run_init [OF assms(1) e(1)]) (use e(3) 1 d(1) same in \<open>simp_all add: early_def\<close>)
    then show ?thesis using early [of e'] run 1 by (simp add: early_def)
  next
    case 2
    obtain r1 w1 e' where "run_state (ReconcileDataset api ?n) w = (r1, w1)" "calm w1"
      "view w1 = (view w)(dataset_key ?n \<mapsto> ODataset e')" "statuses_of e' = (StatusDisabled, StatusInitial)" "same_request e e'"
      by (rule run_cache_disabled [OF assms(1) e(1), of StatusInitial]) (use e(3) 2 d(2) same in \<open>simp_all add: early_def\<close>)
    then show ?thesis using early [of e'] run 2 by (simp add: early_def)
  next
    case 3
    obtain r1 w1 e' where w1: "run_state (ReconcileDataset api ?n) w = (r1, w1)" "calm w1"
      "agree_off {dataset_key ?n, internal_key ?n} (view w) (view w1)" "view w1 (dataset_key ?n) = Some (ODataset e')"
      "statuses_of e' = (StatusDisabled, StatusPending)" "same_request e e'" "carries e (ds_Spec e) (view w1)"
      by (rule run_create_internal [OF assms(1) e(1)]) (use e(3) 3 d(3) same none in \<open>simp_all add: early_def\<close>)
    obtain z where z: "view w1 (internal_key ?n) = Some (ODatasetInternal z)" "di_Spec z = ds_Spec d"
      "map_of (om_labels (di_meta z)) = map_of (om_labels (ds_meta d))" "om_deletionTimestamp (di_meta z) = None"
      using w1(7) same e(2) by (auto simp: carries_def same_request_def)
    have nz: "name_of z = ?n" using view_key [OF z(1)] by (simp add: obj_key_internal internal_key_def)
    have "view w1 (secret_key m) = view w (secret_key m)" for m
      using agree_offD [OF w1(3), of "secret_key m"] by simp
    then have "provisionable (view w1) z"
      using provisionable_cong [of z "new_internal d (ds_Spec d)" "view w1" "view w"] prov nz z(2)
      by (simp add: new_internal_def name_of_def ds_name_def ObjectMeta_def)
    then have "late_stage d 3 (view w1)"
      unfolding late_stage_def serves_def using w1(4,5) same_request_trans [OF e(2) w1(6)] z nz
      by (auto simp: statuses_of_def)
    then show ?thesis using w1(1,2) run 3 by (simp add: stage_def)
  qed
qed

end

section \<open>Runs of the DatasetInternal controller, and the cluster\<close>

context calm_catalog
begin

lemma internal_run_absent:
  assumes "calm w" and "view w (internal_key n) = None" and "run_state (ReconcileInternal api hms parse_url n) w = (r, w')"
  shows "calm w' \<and> view w' = view w"
  using assms(1)
proof (cases rule: get_internal_calm [where n = n])
  case (1 e w0)
  then show ?thesis using assms(3) by (simp add: ReconcileInternal_def)
qed (use assms(2) in simp)

lemma internal_run_late:
  assumes "calm w" and "late_stage d k (view w)" and "k \<ge> 3"
    and run: "run_state (ReconcileInternal api hms parse_url (ds_name d)) w = (r, w')"
  shows "calm w' \<and> late_stage d (if k \<in> {3, 4} then Suc k else k) (view w')"
proof -
  let ?n = "ds_name d"
  obtain e cr where e: "view w (dataset_key ?n) = Some (ODataset e)" "same_request d e" "caching_status e = StatusDisabled"
    "provision_status e \<in> open_statuses" "k \<ge> 7 \<longrightarrow> provision_status e = StatusOK"
    and cr: "view w (internal_key ?n) = Some (ODatasetInternal cr)" "serves d cr" "provisionable (view w) cr"
    "k \<ge> 4 \<longrightarrow> \<not> needs_finalizer cr" "k \<ge> 5 \<longrightarrow> settled (view w) cr"
    and bound: "k \<ge> 6 \<longrightarrow> claim_bound (view w) ?n"
    using assms(2) unfolding late_stage_def by blast
  have live: "om_deletionTimestamp (di_meta cr) = None" using cr(2) by (simp add: serves_def)
  show ?thesis
  proof (cases "needs_finalizer cr")
    case True
    then have k: "k = 3" using cr(4) assms(3) by linarith
    obtain w1 cr' where w1: "run_state (ReconcileInternal api hms parse_url ?n) w = ((Result, None), w1)" "calm w1"
      "view w1 = (view w)(internal_key ?n \<mapsto> ODatasetInternal cr')" "di_Spec cr' = di_Spec cr" "name_of cr' = name_of cr"
      "om_deletionTimestamp (di_meta cr') = None" "\<not> needs_finalizer cr'" "om_labels (di_meta cr') = om_labels (di_meta cr)"
      by (rule reconcile_adds_finalizer [OF assms(1) cr(1) live True])
    have "late_stage d 4 (view w1)"
      by (rule late_stage_change [OF assms(2) cr(1), of "view w1" 4 e cr']) (use w1 e live in simp_all)
    then show ?thesis using w1(1,2) run k by simp
  next
    case False
    show ?thesis
    proof (cases "k \<ge> 5")
      case True
      obtain w0 where w0: "run_state (api_Get api KDatasetInternal ?n) w = (Inr (ODatasetInternal cr), w0)" "calm w0"
        "view w0 = view w" by (rule instance_calm [OF assms(1) cr(1)])
      have "sp_Local (di_Spec cr) \<noteq> None" using cr(3) by (simp add: provisionable_def)
      with settled_noop [OF w0(2), of cr] cr(5) True w0(3)
      obtain w2 where w2: "run_state (process_dataset api hms parse_url cr) w0 = ((Result, None), w2)" "calm w2" "view w2 = view w0"
        by auto
      then have "w' = w2" using run w0(1) False live by (simp add: ReconcileInternal_def)
      then show ?thesis using w2 w0(3) assms(2) True by simp
    next
      case early: False
      obtain w1 where w1: "run_state (ReconcileInternal api hms parse_url ?n) w = ((Result, None), w1)" "calm w1"
        "settled (view w1) cr" "view w1 (internal_key ?n) = Some (ODatasetInternal cr)"
        by (rule reconcile_serves [OF assms(1) cr(1) live False cr(3)])
      have "view w1 (dataset_key ?n) = view w (dataset_key ?n)"
        by (rule frameD [OF frame_reconcile w1(1)]) (simp add: dataset_keys_def work_keys_def)
      moreover have "provisionable (view w1) cr"
        using settled_provisionable [OF w1(3)] cr(3) by (simp add: provisionable_def)
      ultimately have "late_stage d 5 (view w1)"
        unfolding late_stage_def using e cr(2) w1(3,4) False by auto
      then have "late_stage d (Suc k) (view w1)" using early by (auto intro: late_stage_mono)
      then show ?thesis using w1(1,2) run early assms(3) by (auto split: if_splits)
    qed
  qed
qed

text \<open>No action throws the dataset back, and the one that is due takes it further.\<close>

lemma stage_step:
  assumes "calm w" and "stage d k (view w)" and "k \<le> 7"
    and d: "valid_name (om_name (ds_meta d))" "parse_bool_or_false (mget (om_labels (ds_meta d)) ''cache.disable'')"
    "sp_Type (ds_Spec d) \<noteq> ''ARCHIVE''"
    and step: "operator_step api view calm hms parse_url (ds_name d) a w w'"
  shows "calm w' \<and> (\<exists>j \<ge> k. j \<le> 7 \<and> stage d j (view w') \<and> (k < 7 \<and> a = plan ! k \<longrightarrow> j > k))"
proof (cases "k < 3")
  case True
  then have s: "early_stage d k (view w)" using assms(2) by (simp add: stage_def)
  have due: "plan ! k = DatasetRun" using True by (auto simp: plan_def less_Suc_eq numeral_3_eq_3)
  show ?thesis
  proof (cases a)
    case DatasetRun
    with step obtain r where "run_state (ReconcileDataset api (ds_name d)) w = (r, w')" by (auto elim: dataset_stepE)
    from dataset_run_early [OF assms(1) s True d this] show ?thesis using True by (intro conjI exI [of _ "Suc k"]) auto
  next
    case InternalRun
    with step obtain r where "run_state (ReconcileInternal api hms parse_url (ds_name d)) w = (r, w')" by (auto elim: internal_stepE)
    from internal_run_absent [OF assms(1) _ this] s have "calm w'" "view w' = view w" by (auto simp: early_stage_def)
    then show ?thesis using assms(2,3) InternalRun due by auto
  next
    case ClaimBinder
    with step s show ?thesis by (auto elim!: binder_stepE simp: early_stage_def)
  next
    case ClaimWaits
    with step s show ?thesis by (auto elim!: waits_stepE simp: early_stage_def)
  qed
next
  case False
  then have k: "k \<ge> 3" and s: "late_stage d k (view w)" using assms(2) by (simp_all add: stage_def)
  have due: "k \<in> {3, 4} \<and> plan ! k = InternalRun \<or> k = 5 \<and> plan ! k = ClaimBinder \<or> k = 6 \<and> plan ! k = DatasetRun \<or> k = 7"
  proof -
    have "k \<in> {3, 4, 5, 6, 7}" using k assms(3) by auto
    then show ?thesis by (auto simp: plan_def)
  qed
  have goal: ?thesis if "calm w'" "late_stage d j (view w')" "k \<le> j" "j \<le> 7" "k < 7 \<and> a = plan ! k \<longrightarrow> k < j" for j
    using that k by (intro conjI exI [of _ j]) (auto simp: stage_def)
  show ?thesis
  proof (cases a)
    case DatasetRun
    with step obtain r where "run_state (ReconcileDataset api (ds_name d)) w = (r, w')" by (auto elim: dataset_stepE)
    from dataset_run_late [OF assms(1) s k this] show ?thesis
      using DatasetRun due assms(3) by (intro goal [of "if k = 6 then 7 else k"]) auto
  next
    case InternalRun
    with step obtain r where "run_state (ReconcileInternal api hms parse_url (ds_name d)) w = (r, w')" by (auto elim: internal_stepE)
    from internal_run_late [OF assms(1) s k this] show ?thesis
      using InternalRun due assms(3) by (intro goal [of "if k \<in> {3, 4} then Suc k else k"]) auto
  next
    case ClaimBinder
    with step obtain p where p: "calm w'" "view w (pvc_key (ds_name d)) = Some (OPersistentVolumeClaim p)"
      "view w' = (view w)(pvc_key (ds_name d) \<mapsto> OPersistentVolumeClaim (p\<lparr>pvc_phase := ClaimBound\<rparr>))"
      by (auto elim: binder_stepE)
    have "late_stage d (if k = 5 then 6 else k) (view w')" by (rule late_stage_binds [OF s p(2,3)])
    then show ?thesis using ClaimBinder due p(1) assms(3) by (intro goal [of "if k = 5 then 6 else k"]) auto
  next
    case ClaimWaits
    with step obtain p where p: "calm w'" "view w (pvc_key (ds_name d)) = Some (OPersistentVolumeClaim p)" "pvc_phase p \<noteq> ClaimBound"
      "view w' = (view w)(pvc_key (ds_name d) \<mapsto> OPersistentVolumeClaim (p\<lparr>pvc_phase := ClaimPending\<rparr>))"
      by (auto elim: waits_stepE)
    have "late_stage d k (view w')" by (rule late_stage_waits [OF s p(2-4)])
    then show ?thesis using ClaimWaits due p(1) assms(3) by (intro goal [of k]) auto
  qed
qed

lemma schedule_completes:
  assumes "operator_trace api view calm hms parse_url (ds_name d) as w w'"
    and "calm w" and "stage d k (view w)" and "k \<le> 7" and "subseq (drop k plan) as"
    and d: "valid_name (om_name (ds_meta d))" "parse_bool_or_false (mget (om_labels (ds_meta d)) ''cache.disable'')"
    "sp_Type (ds_Spec d) \<noteq> ''ARCHIVE''"
  shows "calm w' \<and> late_stage d 7 (view w')"
  using assms(1-5)
proof (induction arbitrary: k rule: operator_trace.induct)
  case (nothing w)
  have "drop k plan = []" using list_emb_Nil2 nothing.prems(4) by blast
  then have "k = 7" using nothing.prems(3) by (simp add: length_plan)
  then show ?case using nothing.prems by (simp add: stage_def)
next
  case (action a w w1 as w')
  obtain j where j: "calm w1" "j \<ge> k" "j \<le> 7" "stage d j (view w1)" "k < 7 \<and> a = plan ! k \<longrightarrow> j > k"
    using stage_step [OF action.prems(1-3) d action.hyps(1)] by blast
  have "subseq (drop j plan) as" by (rule plan_advances [OF j(2) action.prems(4) j(5)])
  then show ?case using action.IH [OF j(1,4,3)] by blast
qed

end

section \<open>The property\<close>

text \<open>
  Whatever the order: in a calm cluster let the two controllers and the binding of claims act on a new
  dataset that can be served, in any interleaving and as often as they like.  Once three runs of the Dataset controller,
  two of the DatasetInternal controller, the binding and one more run of the Dataset controller have happened in this
  order, with anything in between, the dataset is OK: its instance has its specification and all of its objects, and its
  claim is bound.
\<close>

theorem every_schedule_provisions:
  assumes "catalog api view hms" and "calm_api_server api view calm" and "calm w"
    and "fresh_uncached (view w) (ds_name d) d" and "provisionable (view w) (new_internal d (ds_Spec d))"
    and "operator_trace api view calm hms parse_url (ds_name d) as w w'" and "subseq plan as"
  shows "\<exists>e cr. view w' (dataset_key (ds_name d)) = Some (ODataset e) \<and> same_request d e \<and>
    statuses_of e = (StatusDisabled, StatusOK) \<and> view w' (internal_key (ds_name d)) = Some (ODatasetInternal cr) \<and>
    di_Spec cr = ds_Spec d \<and> settled (view w') cr \<and> claim_bound (view w') (ds_name d)"
proof -
  note f = assms(4) [unfolded fresh_uncached_def]
  have "stage d 0 (view w)" using f assms(5) by (simp add: stage_def early_stage_def early_def)
  then have "late_stage d 7 (view w')"
    using calm_catalog.schedule_completes [OF calm_catalog.intro [OF assms(1,2)] assms(6,3), of 0] f assms(7) by simp
  then show ?thesis unfolding late_stage_def serves_def statuses_of_def by force
qed

text \<open>The volume controller of the in-memory cluster.\<close>

definition mem_bind :: "namespaced_name \<Rightarrow> PersistentVolumeClaim \<Rightarrow> mem_world \<Rightarrow> mem_world" where
  "mem_bind n p w = w\<lparr>mw_store := (mw_store w)(pvc_key n \<mapsto> OPersistentVolumeClaim (p\<lparr>pvc_phase := ClaimBound\<rparr>))\<rparr>"

lemma mem_bind_step:
  assumes "mem_calm w" and "mem_view w (pvc_key n) = Some (OPersistentVolumeClaim p)"
  shows "operator_step mem_api mem_view mem_calm hms parse_url n ClaimBinder w (mem_bind n p w)"
proof (rule by_cluster [where view = mem_view, OF _ assms(2)])
  show "mem_calm (mem_bind n p w)" using assms(1) by (simp add: mem_bind_def mem_calm_def)
  have "obj_key (OPersistentVolumeClaim (p\<lparr>pvc_phase := ClaimBound\<rparr>)) = pvc_key n"
    using mem.view_key [OF assms(2)] by (simp add: obj_key_def key_of_def)
  moreover have "stored_form (OPersistentVolumeClaim (p\<lparr>pvc_phase := ClaimBound\<rparr>))"
    using mem.view_stored [OF assms(2)] by (simp add: stored_form_def)
  ultimately show "mem_view (mem_bind n p w) = (mem_view w)(pvc_key n \<mapsto> OPersistentVolumeClaim (p\<lparr>pvc_phase := ClaimBound\<rparr>))"
    by (simp add: mem_bind_def mem_view_def store_view_put)
qed

definition example_runs :: mem_world where
  "example_runs = snd (run_state (do { _ \<leftarrow> dataset_times 3 mem_api (''ns'', ''a'');
     reconcile_times 2 mem_api (table_metastore (\<lambda>_. None)) (\<lambda>_. None) (''ns'', ''a'') }) (world_of [ODataset example_uncached]))"

lemma example_claim_there:
  "case mem_view example_runs (pvc_key (''ns'', ''a'')) of Some (OPersistentVolumeClaim p) \<Rightarrow> True | _ \<Rightarrow> False"
  by code_simp

lemma example_calm: "mem_calm example_runs"
  by code_simp

lemma example_provisionable: "provisionable v (new_internal example_uncached (ds_Spec example_uncached))"
  by (simp add: provisionable_def new_internal_def example_uncached_def example_dataset_def empty_spec_def)

theorem every_schedule_provisions_witness:
  "\<exists>w' e. operator_trace mem_api mem_view mem_calm (table_metastore (\<lambda>_. None)) (\<lambda>_. None) (''ns'', ''a'') plan
       (world_of [ODataset example_uncached]) w' \<and>
     mem_view w' (dataset_key (''ns'', ''a'')) = Some (ODataset e) \<and> statuses_of e = (StatusDisabled, StatusOK)"
proof -
  let ?trace = "operator_trace mem_api mem_view mem_calm (table_metastore (\<lambda>_. None)) (\<lambda>_. None) (''ns'', ''a'')"
  let ?w = "world_of [ODataset example_uncached]"
  have n: "ds_name example_uncached = (''ns'', ''a'')"
    by (simp add: ds_name_def example_uncached_def example_dataset_def ObjectMeta_def)
  obtain p where p: "mem_view example_runs (pvc_key (''ns'', ''a'')) = Some (OPersistentVolumeClaim p)"
    using example_claim_there by (auto split: option.splits k8s_object.splits)
  have runs: "?trace (replicate 3 DatasetRun @ replicate 2 InternalRun) ?w example_runs"
    using operator_trace_append [OF dataset_times_trace reconcile_times_trace] by (simp add: example_runs_def case_prod_beta)
  obtain r w' where last: "run_state (ReconcileDataset mem_api (''ns'', ''a'')) (mem_bind (''ns'', ''a'') p example_runs) = (r, w')"
    by fastforce
  have t: "?trace plan ?w w'"
    using operator_trace_append [OF runs operator_trace.action [OF mem_bind_step [OF example_calm p]
        operator_trace.action [OF by_dataset [OF last] operator_trace.nothing]]]
    by (simp add: plan_def numeral_eq_Suc)
  from every_schedule_provisions [OF mem_catalog.catalog_axioms mem_calm.calm_api_server_axioms world_of_calm
      example_uncached_fresh [folded n] example_provisionable t [folded n] subseq_order.order_refl]
  show ?thesis using t n by auto
qed

end
