(* ===== verification/Fleet.thy ===== *)
theory Fleet
  imports Operator_Schedule
begin

text \<open>
  The operator with many datasets at once: the actions of both controllers and of the cluster on all of them interleave.
  Datasets that are independent do not see each other's actions, so that each comes as far as its own actions take it.
\<close>

section \<open>Independent datasets\<close>

text \<open>The secret that the specification of an object-storage dataset names, in its own namespace.\<close>

definition secret_ref_of :: "Dataset \<Rightarrow> namespaced_name" where
  "secret_ref_of d = (om_namespace (ds_meta d), mget (local_map (ds_Spec d)) ''secret-name'')"

text \<open>
  Different names (volumes have no namespace, so that two of one name would share one), and no dataset takes its
  credentials from the secret that is made for the other.
\<close>

definition independent :: "Dataset \<Rightarrow> Dataset \<Rightarrow> bool" where
  "independent d e \<longleftrightarrow> om_name (ds_meta d) \<noteq> om_name (ds_meta e) \<and> secret_ref_of d \<noteq> ds_name e"

text \<open>What the progress of a dataset depends on, and what an action on a name may change.\<close>

definition read_keys :: "Dataset \<Rightarrow> obj_key set" where
  "read_keys d = {dataset_key (ds_name d), secret_key (secret_ref_of d)} \<union> dataset_keys (ds_name d)"

definition write_keys :: "'w cluster_api \<Rightarrow> namespaced_name \<Rightarrow> obj_key set" where
  "write_keys api n = insert (dataset_key n) (dataset_keys n) \<union> job_keys api"

lemma independent_keys: "independent d e \<Longrightarrow> read_keys d \<inter> write_keys api (ds_name e) = {}"
  by (auto simp: independent_def read_keys_def write_keys_def dataset_keys_def work_keys_def job_keys_def key_defs
      dataset_key_def ds_name_def secret_ref_of_def simp del: dataset_key_simps)

lemma credentials_frame:
  assumes "v' (secret_key (om_namespace (di_meta cr), mget (spec_local cr) ''secret-name'')) =
    v (secret_key (om_namespace (di_meta cr), mget (spec_local cr) ''secret-name''))"
  shows "credentials_of v' cr = credentials_of v cr"
  unfolding credentials_of_def assms ..

lemma provisionable_frame: "credentials_of v' cr = credentials_of v cr \<Longrightarrow> provisionable v' cr = provisionable v cr"
  by (simp add: provisionable_def)

lemma settled_frame:
  assumes "credentials_of v' cr = credentials_of v cr" and "\<And>k. k \<in> dataset_keys (name_of cr) \<Longrightarrow> v' k = v k"
  shows "settled v' cr = settled v cr"
proof -
  have "v' (pvc_key (name_of cr)) = v (pvc_key (name_of cr))" "v' (secret_key (name_of cr)) = v (secret_key (name_of cr))"
    "v' (config_key (name_of cr)) = v (config_key (name_of cr))" "v' (pv_key (name_of cr)) = v (pv_key (name_of cr))"
    by (auto intro!: assms(2) simp: dataset_keys_def work_keys_def)
  then show ?thesis using assms(1) by (simp add: settled_def cos_settled_def volume_there_def)
qed

lemma stage_frame:
  assumes "stage d k v" and same: "\<And>key. key \<in> read_keys d \<Longrightarrow> v' key = v key"
  shows "stage d k v'"
proof -
  have keys: "v' (dataset_key (ds_name d)) = v (dataset_key (ds_name d))" "v' (internal_key (ds_name d)) = v (internal_key (ds_name d))"
    "v' (pvc_key (ds_name d)) = v (pvc_key (ds_name d))" "v' (secret_key (secret_ref_of d)) = v (secret_key (secret_ref_of d))"
    by (auto intro!: same simp: read_keys_def dataset_keys_def work_keys_def)
  have cred: "credentials_of v' cr = credentials_of v cr" if "di_Spec cr = ds_Spec d" "name_of cr = ds_name d" for cr
    using keys(4) that by (intro credentials_frame) (simp add: secret_ref_of_def name_of_def ds_name_def)
  have set: "settled v' cr = settled v cr" if "serves d cr" for cr
    using that by (intro settled_frame cred same) (auto simp: serves_def read_keys_def)
  have prov: "provisionable v' cr = provisionable v cr" if "serves d cr" for cr
    using that by (intro provisionable_frame cred) (simp_all add: serves_def)
  have new: "provisionable v' (new_internal d (ds_Spec d)) = provisionable v (new_internal d (ds_Spec d))"
    by (intro provisionable_frame cred) (simp_all add: new_internal_def name_of_def ds_name_def ObjectMeta_def)
  show ?thesis
    using assms(1) set prov unfolding stage_def early_stage_def late_stage_def claim_bound_def keys(1-3) new
    by (auto split: if_splits; blast)
qed

section \<open>Schedules of all datasets\<close>

inductive fleet_trace ::
  "'w cluster_api \<Rightarrow> ('w \<Rightarrow> cluster) \<Rightarrow> ('w \<Rightarrow> bool) \<Rightarrow> 'w metastore \<Rightarrow> (string \<Rightarrow> url option) \<Rightarrow>
   (namespaced_name \<times> actor) list \<Rightarrow> 'w \<Rightarrow> 'w \<Rightarrow> bool"
  for api view calm hms parse_url where
  nothing: "fleet_trace api view calm hms parse_url [] w w"
| action: "operator_step api view calm hms parse_url n a w w1 \<Longrightarrow> fleet_trace api view calm hms parse_url as w1 w' \<Longrightarrow>
    fleet_trace api view calm hms parse_url ((n, a) # as) w w'"

inductive_cases fleet_trace_ConsE: "fleet_trace api view calm hms parse_url ((n, a) # as) w w'"
inductive_simps fleet_trace_Nil [simp]: "fleet_trace api view calm hms parse_url [] w w'"

text \<open>A schedule of one dataset is one of the fleet, and schedules follow each other.\<close>

lemma operator_fleet:
  "operator_trace api view calm hms parse_url n as w w' \<Longrightarrow> fleet_trace api view calm hms parse_url (map (Pair n) as) w w'"
  by (induction rule: operator_trace.induct) (auto intro: fleet_trace.intros)

lemma fleet_trace_append:
  "fleet_trace api view calm hms parse_url as w w1 \<Longrightarrow> fleet_trace api view calm hms parse_url bs w1 w2 \<Longrightarrow>
   fleet_trace api view calm hms parse_url (as @ bs) w w2"
  by (induction rule: fleet_trace.induct) (auto intro: fleet_trace.action)

definition actions_on :: "namespaced_name \<Rightarrow> (namespaced_name \<times> actor) list \<Rightarrow> actor list" where
  "actions_on n as = map snd (filter (\<lambda>x. fst x = n) as)"

lemma actions_on_simps [simp]:
  "actions_on n [] = []" "actions_on n ((m, a) # as) = (if m = n then a # actions_on n as else actions_on n as)"
  by (simp_all add: actions_on_def)

text \<open>A dataset that is named well, not cached and no archive.\<close>

definition plain_dataset :: "Dataset \<Rightarrow> bool" where
  "plain_dataset d \<longleftrightarrow> valid_name (om_name (ds_meta d)) \<and>
     parse_bool_or_false (mget (om_labels (ds_meta d)) ''cache.disable'') \<and> sp_Type (ds_Spec d) \<noteq> ''ARCHIVE''"

definition independent_fleet :: "Dataset set \<Rightarrow> bool" where
  "independent_fleet F \<longleftrightarrow> (\<forall>d \<in> F. plain_dataset d \<and> (\<forall>e \<in> F. d \<noteq> e \<longrightarrow> independent d e))"

context catalog
begin

lemma step_confined:
  assumes "operator_step api view calm hms parse_url n a w w'" and "key \<notin> write_keys api n"
  shows "view w' key = view w key"
  using assms(1)
proof cases
  case (by_dataset r)
  then show ?thesis
    by (intro frameD [OF frame_reconcile_dataset [OF refl] by_dataset(2)]) (use assms(2) in \<open>auto simp: write_keys_def dataset_keys_def\<close>)
next
  case (by_internal r)
  show ?thesis by (intro frameD [OF frame_reconcile by_internal(2)]) (use assms(2) in \<open>simp add: write_keys_def\<close>)
next
  case (by_cluster p)
  then show ?thesis using assms(2) by (auto simp: write_keys_def dataset_keys_def work_keys_def)
next
  case (by_volumes p)
  then show ?thesis using assms(2) by (auto simp: write_keys_def dataset_keys_def work_keys_def)
qed

lemma other_stages_kept:
  assumes "independent_fleet F" and "d \<in> F" and "e \<in> F" and "e \<noteq> d" and "stage e k (view w)"
    and step: "operator_step api view calm hms parse_url (ds_name d) a w w'"
  shows "stage e k (view w')"
proof (rule stage_frame [OF assms(5)])
  fix key assume "key \<in> read_keys e"
  moreover have "independent e d" using assms(1-4) by (simp add: independent_fleet_def)
  ultimately have "key \<notin> write_keys api (ds_name d)" using independent_keys by blast
  then show "view w' key = view w key" by (rule step_confined [OF step])
qed

end

context calm_catalog
begin

lemma fleet_step:
  assumes "independent_fleet F" and "d \<in> F" and "\<forall>e \<in> F. stage e (\<kappa> e) (view w) \<and> \<kappa> e \<le> 7" and "calm w"
    and "operator_step api view calm hms parse_url (ds_name d) a w w'"
  shows "calm w' \<and> (\<exists>j. \<kappa> d \<le> j \<and> (\<kappa> d < 7 \<and> a = plan ! \<kappa> d \<longrightarrow> j > \<kappa> d) \<and>
    (\<forall>e \<in> F. stage e ((\<kappa>(d := j)) e) (view w') \<and> (\<kappa>(d := j)) e \<le> 7))"
proof -
  have d: "plain_dataset d" using assms(1,2) by (simp add: independent_fleet_def)
  obtain j where j: "calm w'" "\<kappa> d \<le> j" "j \<le> 7" "stage d j (view w')" "\<kappa> d < 7 \<and> a = plan ! \<kappa> d \<longrightarrow> j > \<kappa> d"
    using stage_step [OF assms(4) _ _ _ _ _ assms(5)] assms(2,3) d unfolding plain_dataset_def by blast
  have "stage e (\<kappa> e) (view w')" if "e \<in> F" "e \<noteq> d" for e
    by (rule other_stages_kept [OF assms(1,2) that _ assms(5)]) (use assms(3) that in blast)
  then show ?thesis using j assms(3) by (intro conjI exI [of _ j]) auto
qed

lemma fleet_completes:
  assumes "fleet_trace api view calm hms parse_url as w w'" and "independent_fleet F" and "fst ` set as \<subseteq> ds_name ` F"
    and "calm w" and "\<forall>d \<in> F. stage d (\<kappa> d) (view w) \<and> \<kappa> d \<le> 7"
    and "\<forall>d \<in> F. subseq (drop (\<kappa> d) plan) (actions_on (ds_name d) as)"
  shows "calm w' \<and> (\<forall>d \<in> F. late_stage d 7 (view w'))"
  using assms(1,3-6)
proof (induction arbitrary: \<kappa> rule: fleet_trace.induct)
  case (nothing w)
  have "\<kappa> d = 7" if "d \<in> F" for d
  proof -
    have "drop (\<kappa> d) plan = []" using nothing.prems(4) that list_emb_Nil2 by fastforce
    then show ?thesis using nothing.prems(3) that by (force simp: length_plan)
  qed
  then show ?case using nothing.prems by (auto simp: stage_def)
next
  case (action n a w w1 as w')
  obtain d where d: "d \<in> F" "n = ds_name d" using action.prems(1) by auto
  obtain j where j: "calm w1" "\<kappa> d \<le> j" "\<kappa> d < 7 \<and> a = plan ! \<kappa> d \<longrightarrow> j > \<kappa> d"
    "\<forall>e \<in> F. stage e ((\<kappa>(d := j)) e) (view w1) \<and> (\<kappa>(d := j)) e \<le> 7"
    using fleet_step [OF assms(2) d(1) action.prems(3,2)] action.hyps(1) d(2) by blast
  have "subseq (drop ((\<kappa>(d := j)) e) plan) (actions_on (ds_name e) as)" if "e \<in> F" for e
  proof (cases "e = d")
    case True
    then show ?thesis using plan_advances [OF j(2) _ j(3), of "actions_on (ds_name d) as"] action.prems(4) d by force
  next
    case False
    then have "ds_name e \<noteq> n" using assms(2) d that by (auto simp: independent_fleet_def independent_def ds_name_def)
    then show ?thesis using action.prems(4) that False by force
  qed
  then show ?case using action.IH [OF _ j(1,4)] action.prems(1) by auto
qed

end

end
