(* ===== verification/Recovery.thy ===== *)
theory Recovery
  imports Fleet
begin

text \<open>
  The operator while requests fail: any request of either controller may fail, and a write that is reported as failed
  may have been done all the same.  No run throws a dataset back: what its stage says of it stays true, whatever
  fails, so that the actions of a calm spell take it on from where the faults have left it.
\<close>

section \<open>What provisioning leaves alone\<close>

text \<open>
  Objects that are there stay, and of the secret of the dataset nothing but \<open>remove-on-delete\<close> changes, to the value
  of the label.
\<close>

definition edited :: "DatasetInternal \<Rightarrow> Secret \<Rightarrow> Secret \<Rightarrow> bool" where
  "edited cr s s' \<longleftrightarrow> (\<forall>k. k \<noteq> ''remove-on-delete'' \<longrightarrow> map_of (sec_Data s') k = map_of (sec_Data s) k) \<and>
     (mget (sec_Data s) ''remove-on-delete'' = cos_remove_on_delete cr \<longrightarrow>
      mget (sec_Data s') ''remove-on-delete'' = cos_remove_on_delete cr)"

definition kept :: "DatasetInternal \<Rightarrow> cluster \<Rightarrow> cluster \<Rightarrow> bool" where
  "kept cr v v' \<longleftrightarrow> (\<forall>k. k \<noteq> secret_key (name_of cr) \<longrightarrow> v k \<noteq> None \<longrightarrow> v' k = v k) \<and>
     (\<forall>s. v (secret_key (name_of cr)) = Some (OSecret s) \<longrightarrow>
        (\<exists>s'. v' (secret_key (name_of cr)) = Some (OSecret s') \<and> edited cr s s'))"

lemma edited_refl [simp]: "edited cr s s"
  by (simp add: edited_def)

lemma edited_trans: "edited cr s t \<Longrightarrow> edited cr t u \<Longrightarrow> edited cr s u"
  by (simp add: edited_def)

lemma kept_refl [simp]: "kept cr v v"
  by (simp add: kept_def)

lemma kept_object: "kept cr v v' \<Longrightarrow> v k = Some y \<Longrightarrow> k \<noteq> secret_key (name_of cr) \<Longrightarrow> v' k = Some y"
  unfolding kept_def by fastforce

lemma kept_own_secret:
  assumes "kept cr v v'" and "v (secret_key (name_of cr)) = Some (OSecret s)"
  obtains s' where "v' (secret_key (name_of cr)) = Some (OSecret s')" "edited cr s s'"
  using assms unfolding kept_def by blast

lemma keptI:
  assumes "\<And>k y. v k = Some y \<Longrightarrow> k \<noteq> secret_key (name_of cr) \<Longrightarrow> v' k = Some y"
    and "\<And>s. v (secret_key (name_of cr)) = Some (OSecret s) \<Longrightarrow>
      \<exists>s'. v' (secret_key (name_of cr)) = Some (OSecret s') \<and> edited cr s s'"
  shows "kept cr v v'"
proof -
  have "v' k = v k" if "k \<noteq> secret_key (name_of cr)" "v k \<noteq> None" for k using assms(1) [of k] that by (cases "v k") auto
  then show ?thesis using assms(2) unfolding kept_def by blast
qed

lemma kept_trans:
  assumes "kept cr u v" and "kept cr v w"
  shows "kept cr u w"
proof (rule keptI)
  fix s assume "u (secret_key (name_of cr)) = Some (OSecret s)"
  then obtain t where t: "v (secret_key (name_of cr)) = Some (OSecret t)" "edited cr s t" by (rule kept_own_secret [OF assms(1)])
  obtain s' where "w (secret_key (name_of cr)) = Some (OSecret s')" "edited cr t s'" by (rule kept_own_secret [OF assms(2) t(1)])
  then show "\<exists>s'. w (secret_key (name_of cr)) = Some (OSecret s') \<and> edited cr s s'" using edited_trans [OF t(2)] by blast
qed (use kept_object [OF assms(1)] kept_object [OF assms(2)] in blast)

lemma kept_present: "kept cr v v' \<Longrightarrow> k \<noteq> secret_key (name_of cr) \<Longrightarrow> v k \<noteq> None \<Longrightarrow> v' k \<noteq> None"
  unfolding kept_def by metis

lemma created_kept: "created x v v' \<Longrightarrow> kept cr v v'"
  by (rule keptI) (auto simp: created_def)

lemma kept_secret:
  assumes "kept cr v v'" and "v (secret_key n) = Some (OSecret s)"
  obtains s' where "v' (secret_key n) = Some (OSecret s')" "secret_keys (sec_Data s') = secret_keys (sec_Data s)"
proof (cases "n = name_of cr")
  case True
  obtain s' where s': "v' (secret_key n) = Some (OSecret s')" "edited cr s s'"
    by (rule kept_own_secret [OF assms(1) assms(2) [unfolded True]]) (simp add: True)
  then show ?thesis using that secret_keys_cong [of "sec_Data s'" "sec_Data s"] by (simp add: edited_def)
next
  case False
  then show ?thesis using that [of s] kept_object [OF assms] by simp
qed

lemma kept_credentials:
  assumes "kept cr v v'" and "credentials_of v cr' \<noteq> None"
  shows "credentials_of v' cr' = credentials_of v cr'"
proof (cases "secret_ok cr'")
  case True
  then obtain s where s: "v (secret_key (om_namespace (di_meta cr'), mget (spec_local cr') ''secret-name'')) = Some (OSecret s)"
    using assms(2) by (auto simp: credentials_of_def split: option.splits k8s_object.splits)
  show ?thesis by (rule kept_secret [OF assms(1) s]) (use s True in \<open>simp add: credentials_of_def\<close>)
qed (simp add: credentials_of_def)

lemma kept_provisionable: "kept cr v v' \<Longrightarrow> provisionable v cr' \<Longrightarrow> provisionable v' cr'"
  using kept_credentials [of cr v v' cr'] by (auto simp: provisionable_def Let_def)

lemma kept_settled:
  assumes "kept cr v v'" and "settled v cr"
  shows "settled v' cr"
proof -
  have there: "v' k \<noteq> None" if "v k \<noteq> None" "k \<in> {pvc_key (name_of cr), config_key (name_of cr), pv_key (name_of cr)}" for k
    using kept_present [OF assms(1) _ that(1)] that(2) by auto
  have vol: "volume_there v (name_of cr) \<Longrightarrow> volume_there v' (name_of cr)" using there by (simp add: volume_there_def)
  have cos: "cos_settled v' cr" if c: "cos_settled v cr"
  proof -
    obtain s where s: "v (secret_key (name_of cr)) = Some (OSecret s)"
      "mget (sec_Data s) ''remove-on-delete'' = cos_remove_on_delete cr" using c by (auto simp: cos_settled_def)
    obtain s' where "v' (secret_key (name_of cr)) = Some (OSecret s')" "edited cr s s'"
      by (rule kept_own_secret [OF assms(1) s(1)])
    then have "v' (secret_key (name_of cr)) = Some (OSecret s')"
      "mget (sec_Data s') ''remove-on-delete'' = cos_remove_on_delete cr" using s(2) by (simp_all add: edited_def)
    then show ?thesis using c there kept_credentials [OF assms(1)] by (simp add: cos_settled_def)
  qed
  show ?thesis using assms(2) vol cos there unfolding settled_def Let_def by blast
qed

context api_server
begin

definition keeping :: "DatasetInternal \<Rightarrow> 'w \<Rightarrow> 'w \<Rightarrow> bool" where
  "keeping cr w w' \<longleftrightarrow> kept cr (view w) (view w')"

lemma keeping_order [simp, intro]: "reflp (keeping cr)" "transp (keeping cr)"
  by (auto simp: keeping_def reflp_def transp_def intro: kept_trans)

lemma keeping_read: "(\<And>w r w'. run_state m w = (r, w') \<Longrightarrow> view w' = view w) \<Longrightarrow> state_io_rel (keeping cr) m"
  by (rule state_io_relI) (simp add: keeping_def)

lemma keeping_get [frame_intros]: "state_io_rel (keeping cr) (api_Get api k n)"
  by (rule keeping_read) (rule get_view)

lemma keeping_uuid [frame_intros]: "state_io_rel (keeping cr) (api_NewUUID api)"
  by (rule keeping_read) (rule new_uuid_view)

lemma keeping_create [frame_intros]: "state_io_rel (keeping cr) (api_Create api x)"
proof (rule state_io_relI)
  fix r w w' assume "run_state (api_Create api x) w = (r, w')"
  then show "keeping cr w w'"
    by (cases r) (auto simp: keeping_def dest!: create_ok create_failed intro: created_kept)
qed

lemma keeping_owned_by [frame_intros]:
  "(\<And>y. state_io_rel (keeping cr) (f y)) \<Longrightarrow> state_io_rel (keeping cr) (owned_by api inst x f)"
  unfolding owned_by_def by (intro frame_intros) auto

lemma keeping_create_if_absent [frame_intros]: "state_io_rel (keeping cr) (create_if_absent api strict x)"
  unfolding create_if_absent_def by (intro frame_intros) auto

lemma keeping_volume [frame_intros]: "state_io_rel (keeping cr) (provision_volume api inst pv pvc)"
  unfolding provision_volume_def by (intro frame_intros) auto

text \<open>The one update of the secret.\<close>

lemma keeping_edit:
  assumes "view w (secret_key (name_of cr)) = Some (OSecret old)"
    and "run_state (checkIfEditableValueChangeAndUpdate api old (cos_secret cr ks)) w = (r, w')"
  shows "kept cr (view w) (view w')"
proof (cases "mget (sec_Data old) ''remove-on-delete'' = cos_remove_on_delete cr")
  case True
  then have "w' = w" using assms(2) by (simp add: checkIfEditableValueChangeAndUpdate_def)
  then show ?thesis by simp
next
  case False
  define new where "new = old\<lparr>sec_StringData := [(''remove-on-delete'', cos_remove_on_delete cr)]\<rparr>"
  have plain: "sec_StringData old = []" "\<not> (deletion_of (OSecret old) \<noteq> None \<and> finalizers_of (OSecret new) = [])"
    using view_stored [OF assms(1)] by (auto simp: stored_form_def new_def)
  have "run_state (api_Update api (OSecret new)) w = (r, w')"
    using assms(2) False plain(1) by (simp add: checkIfEditableValueChangeAndUpdate_def new_def mset_key_def)
  then have "view w' = view w \<or> updated (OSecret new) (view w) (view w')"
    using update_ok [of "OSecret new" w w'] update_failed [of "OSecret new" w _ w'] by (cases r) auto
  then show ?thesis
  proof
    assume u: "updated (OSecret new) (view w) (view w')"
    have k: "obj_key (OSecret new) = secret_key (name_of cr)" using view_key [OF assms(1)] by (simp add: new_def obj_key_def)
    obtain y where y: "view w' = (view w)(secret_key (name_of cr) \<mapsto> y)" "payload y = payload (OSecret new)"
      using u k assms(1) plain(2) unfolding updated_def by (auto split: if_splits)
    then have "stored_form y" using view_stored [of w' "secret_key (name_of cr)" y] by simp
    then obtain s' where "y = OSecret s'"
      "map_of (sec_Data s') = (map_of (sec_Data old))(''remove-on-delete'' \<mapsto> cos_remove_on_delete cr)"
      using payload_secret [OF y(2)] by (auto simp: new_def)
    then show ?thesis using y(1) assms(1) by (intro keptI) (simp_all add: edited_def mget_def)
  qed simp
qed

lemma keeping_secret [frame_intros]: "state_io_rel (keeping cr) (reconcile_cos_secret api (cos_secret cr ks))"
proof (rule state_io_relI)
  fix r w w' assume run: "run_state (reconcile_cos_secret api (cos_secret cr ks)) w = (r, w')"
  obtain g w0 where g: "run_state (api_Get api KSecret (name_of cr)) w = (g, w0)" by fastforce
  have n: "(om_namespace (sec_meta (cos_secret cr ks)), om_name (sec_meta (cos_secret cr ks))) = name_of cr"
    by (simp add: cos_secret_def name_of_def)
  have v0: "view w0 = view w" by (rule get_view [OF g])
  have create: "kept cr (view w0) (view w')" if "run_state (api_Create api x) w0 = (r, w')" for x
    using state_io_relD [OF keeping_create that] by (simp add: keeping_def)
  show "keeping cr w w'"
  proof (cases g)
    case (Inl e)
    then have "w' = w0 \<or> run_state (api_Create api (OSecret (cos_secret cr ks))) w0 = (r, w')"
      using run g n by (auto simp: reconcile_cos_secret_def split: if_splits)
    then show ?thesis using create v0 by (auto simp: keeping_def)
  next
    case (Inr x)
    then have x: "view w0 (secret_key (name_of cr)) = Some x" using get_found [of KSecret "name_of cr" w x w0] g v0 by simp
    show ?thesis
    proof (cases x)
      case (OSecret old)
      then have "run_state (checkIfEditableValueChangeAndUpdate api old (cos_secret cr ks)) w0 = (r, w')"
        using run g n Inr by (simp add: reconcile_cos_secret_def)
      from keeping_edit [OF x [unfolded OSecret] this] show ?thesis using v0 by (simp add: keeping_def)
    qed (use run g n Inr v0 in \<open>auto simp: reconcile_cos_secret_def keeping_def\<close>)
  qed
qed

lemma keeping_COS [frame_intros]: "state_io_rel (keeping cr) (processLocalDatasetCOS api cr)"
  unfolding processLocalDatasetCOS_def checkAndExtractObjectStorageAccess_def Let_def createConfigMapforDataset_def
  by (intro frame_intros) auto

lemma keeping_NFS [frame_intros]: "state_io_rel (keeping cr) (processLocalDatasetNFS api cr)"
  unfolding processLocalDatasetNFS_def by (intro frame_intros) auto

lemma keeping_H3 [frame_intros]: "state_io_rel (keeping cr) (processLocalDatasetH3 api cr)"
  unfolding processLocalDatasetH3_def by (intro frame_intros) auto

lemma keeping_HOST [frame_intros]: "state_io_rel (keeping cr) (processLocalDatasetHOST api cr)"
  unfolding processLocalDatasetHOST_def by (intro frame_intros) auto

lemma local_process_keeps:
  assumes "sp_Local (di_Spec cr) \<noteq> None" and "run_state (process_dataset api hms parse_url cr) w = (r, w')"
  shows "kept cr (view w) (view w')"
proof -
  have "state_io_rel (keeping cr) (f cr)" if "map_of (datasetLocalProcessTable api) t = Some f" for t f
    using that by (auto simp: datasetLocalProcessTable_def split: if_splits intro: frame_intros)
  then have "state_io_rel (keeping cr) (process_dataset api hms parse_url cr)"
    using assms(1) unfolding process_dataset_def by (auto intro!: frame_intros)
  from state_io_relD [OF this assms(2)] show ?thesis by (simp add: keeping_def)
qed

end

section \<open>Runs of the DatasetInternal controller\<close>

lemma late_stage_kept:
  assumes "late_stage d k v" and "v (internal_key (ds_name d)) = Some (ODatasetInternal cr)" and "kept cr v v'"
  shows "late_stage d k v'"
proof -
  obtain e where e: "v (dataset_key (ds_name d)) = Some (ODataset e)" "same_request d e" "caching_status e = StatusDisabled"
    "provision_status e \<in> open_statuses" "k \<ge> 7 \<longrightarrow> provision_status e = StatusOK"
    and cr: "serves d cr" "provisionable v cr" "k \<ge> 4 \<longrightarrow> \<not> needs_finalizer cr" "k \<ge> 5 \<longrightarrow> settled v cr"
    and bound: "k \<ge> 6 \<longrightarrow> claim_bound v (ds_name d)"
    using assms(1,2) unfolding late_stage_def by auto
  have "v' (dataset_key (ds_name d)) = Some (ODataset e)" "v' (internal_key (ds_name d)) = Some (ODatasetInternal cr)"
    by (rule kept_object [OF assms(3)]; use e(1) assms(2) in simp)+
  moreover have "claim_bound v' (ds_name d)" if "claim_bound v (ds_name d)"
    using that kept_object [OF assms(3), of "pvc_key (ds_name d)"] by (auto simp: claim_bound_def)
  ultimately show ?thesis
    unfolding late_stage_def using e cr bound kept_provisionable [OF assms(3)] kept_settled [OF assms(3)] by blast
qed

context api_server
begin

lemma internal_run_faulty:
  assumes "late_stage d k (view w)" and "k \<ge> 3"
    and run: "run_state (ReconcileInternal api hms parse_url (ds_name d)) w = (r, w')"
  shows "late_stage d k (view w')"
proof -
  let ?n = "ds_name d"
  obtain e cr where e: "view w (dataset_key ?n) = Some (ODataset e)" "same_request d e" "caching_status e = StatusDisabled"
    "provision_status e \<in> open_statuses" "k \<ge> 7 \<longrightarrow> provision_status e = StatusOK"
    and cr: "view w (internal_key ?n) = Some (ODatasetInternal cr)" "serves d cr" "provisionable (view w) cr"
    "k \<ge> 4 \<longrightarrow> \<not> needs_finalizer cr"
    using assms(1) unfolding late_stage_def by blast
  have live: "om_deletionTimestamp (di_meta cr) = None" "name_of cr = ?n" using cr(2) by (simp_all add: serves_def)
  have local: "sp_Local (di_Spec cr) \<noteq> None" using cr(3) by (simp add: provisionable_def)
  obtain g w0 where g: "run_state (api_Get api KDatasetInternal ?n) w = (g, w0)" by fastforce
  note v0 = get_view [OF g]
  show ?thesis
  proof (cases g)
    case (Inl err)
    then have "w' = w0" using run g by (auto simp: ReconcileInternal_def split: if_splits)
    then show ?thesis using assms(1) v0 by simp
  next
    case (Inr x)
    then have x: "x = ODatasetInternal cr" using get_found [of KDatasetInternal ?n w x w0] g cr(1) by simp
    show ?thesis
    proof (cases "needs_finalizer cr")
      case True
      then have k: "k = 3" using cr(4) assms(2) by linarith
      define y where "y = ODatasetInternal (added_finalizer cr)"
      have "\<exists>err. run_state (api_Update api y) w0 = (err, w')"
        using run g Inr x True by (auto simp: ReconcileInternal_def addFinalizer_def y_def added_finalizer_def split: prod.splits)
      then obtain err where u: "run_state (api_Update api y) w0 = (err, w')" ..
      have "view w' = view w \<or> updated y (view w) (view w')"
        using update_ok [of y w0 w'] update_failed [of y w0 _ w'] u v0 by (cases err) auto
      then show ?thesis
      proof
        assume "updated y (view w) (view w')"
        then obtain cr' where w': "view w' = (view w)(internal_key ?n \<mapsto> ODatasetInternal cr')" "di_Spec cr' = di_Spec cr"
          "name_of cr' = name_of cr" "om_deletionTimestamp (di_meta cr') = None" "om_labels (di_meta cr') = om_labels (di_meta cr)"
          by (rule finalizer_updated [where v = "view w" and cr = cr and n = ?n, OF _ cr(1) live(2,1), folded y_def])
        show ?thesis
          by (rule late_stage_change [OF assms(1) cr(1), of "view w'" k e cr']) (use w' e live k in simp_all)
      qed (use assms(1) in simp)
    next
      case False
      then have "run_state (process_dataset api hms parse_url cr) w0 = (r, w')"
        using run g Inr x live(1) by (simp add: ReconcileInternal_def)
      from late_stage_kept [OF assms(1) cr(1)] local_process_keeps [OF local this] v0 show ?thesis by simp
    qed
  qed
qed

end

section \<open>Runs of the Dataset controller\<close>

text \<open>The stored dataset is as it was or has one of the given statuses.\<close>

definition restated :: "Dataset \<Rightarrow> statuses set \<Rightarrow> cluster \<Rightarrow> cluster \<Rightarrow> bool" where
  "restated e S v v' \<longleftrightarrow> v' = v \<or>
     (\<exists>e'. v' = v(dataset_key (ds_name e) \<mapsto> ODataset e') \<and> same_request e e' \<and> statuses_of e' \<in> S)"

lemma restated_same [simp]: "restated e S v v"
  by (simp add: restated_def)

lemma late_stage_restated:
  assumes "late_stage d k v" and "v (dataset_key (ds_name d)) = Some (ODataset e)" and "restated e S v v'"
    and "S \<subseteq> {StatusDisabled} \<times> {StatusPending, StatusOK}" and "k < 7"
  shows "late_stage d k v'"
proof -
  obtain cr where e: "same_request d e"
    and cr: "v (internal_key (ds_name d)) = Some (ODatasetInternal cr)" "k \<ge> 4 \<longrightarrow> \<not> needs_finalizer cr"
    and bound: "k \<ge> 6 \<longrightarrow> claim_bound v (ds_name d)"
    using assms(1,2) unfolding late_stage_def by auto
  have n: "ds_name e = ds_name d" using e by (simp add: same_request_def)
  show ?thesis
  proof (cases "v' = v")
    case False
    then obtain e' where e': "v' = v(dataset_key (ds_name d) \<mapsto> ODataset e')" "same_request e e'" "statuses_of e' \<in> S"
      using assms(3) n by (auto simp: restated_def)
    show ?thesis
      by (rule late_stage_change [OF assms(1) cr(1), of v' k e' cr])
        (use e' same_request_trans [OF e e'(2)] cr bound assms(4,5) in \<open>auto simp: statuses_of_def claim_bound_def\<close>)
  qed (use assms(1) in simp)
qed

lemma early_stage_restated:
  assumes "early_stage d k v" and "v (dataset_key (ds_name d)) = Some (ODataset e)" and "restated e {early j} v v'"
  shows "early_stage d k v' \<or> early_stage d j v'"
proof (cases "v' = v")
  case False
  have e: "same_request d e" "ds_name e = ds_name d" using assms(1,2) by (auto simp: early_stage_def same_request_def)
  obtain e' where e': "v' = v(dataset_key (ds_name d) \<mapsto> ODataset e')" "same_request e e'" "statuses_of e' = early j"
    using assms(3) e(2) False by (auto simp: restated_def)
  have "provisionable v' (new_internal d (ds_Spec d)) = provisionable v (new_internal d (ds_Spec d))"
    by (rule provisionable_cong) (simp_all add: e'(1))
  then show ?thesis using assms(1) e' same_request_trans [OF e(1) e'(2)] by (simp add: early_stage_def)
qed (use assms(1) in simp)

context api_server
begin

lemma triple_view:
  "triple (\<lambda>w. view w = v) (api_Get api k n) (\<lambda>_ w. view w = v)"
  "triple (\<lambda>w. view w = v) (api_ListEvents api ns nm rv why) (\<lambda>_ w. view w = v)"
  by (rule tripleI; use get_view list_events_view in blast)+

lemma triple_restate:
  assumes "v (dataset_key (ds_name e)) = Some (ODataset e)" and "same_request e e1" and "statuses_of e1 \<in> S"
  shows "triple (\<lambda>w. view w = v) (updateDatasetStatusAndReturn api e1) (\<lambda>_ w'. restated e S v (view w'))"
proof (rule tripleI)
  fix w r w' assume v: "view w = v" and run: "run_state (updateDatasetStatusAndReturn api e1) w = (r, w')"
  then obtain err where "run_state (api_StatusUpdate api (ODataset e1)) w = (err, w')"
    by (auto simp: updateDatasetStatusAndReturn_def split: prod.splits)
  then have "view w' = v \<or> status_updated (ODataset e1) v (view w')"
    using v status_update_ok [of "ODataset e1" w w'] status_update_failed [of "ODataset e1" w _ w'] by (cases err) auto
  then show "restated e S v (view w')"
  proof
    assume u: "status_updated (ODataset e1) v (view w')"
    have n: "ds_name e1 = ds_name e" using assms(2) by (simp add: same_request_def)
    obtain y where y: "view w' = v(dataset_key (ds_name e) \<mapsto> y)" "obj_key y = obj_key (ODataset e)"
      "payload y = payload (ODataset e)" "status_of y = StDataset (ds_Status e1)"
      using u n assms(1) by (auto simp: status_updated_def)
    obtain e' where e': "y = ODataset e'" "same_request e e'" by (rule payload_dataset [OF y(3,2)])
    have "statuses_of e' = statuses_of e1" using y(4) e'(1) by (simp add: statuses_of_def)
    then show ?thesis using y(1) e' assms(3) by (auto simp: restated_def)
  qed simp
qed

lemma triple_check_restates:
  assumes e: "v (dataset_key (ds_name e)) = Some (ODataset e)"
    and S: "S = {caching_status e} \<times> {StatusPending, StatusOK}"
  shows "triple (\<lambda>w. view w = v) (check_provision api n e)
    (\<lambda>res w'. restated e S v (view w') \<and> (res = None \<or> provision_status e \<in> {StatusFail, StatusOK} \<longrightarrow> view w' = v))"
    (is "triple ?P _ ?Q")
proof (cases "provision_status e \<in> {StatusFail, StatusOK}")
  case True
  then have "check_provision api n e = State_Monad.return None" by (auto simp: check_provision_def)
  then show ?thesis by (auto intro!: triple_return)
next
  case False
  define Q where "Q = ?Q"
  have ret: "triple ?P (State_Monad.return (x::reconcile_return option)) Q" for x by (rule triple_return) (simp add: Q_def)
  have some: "triple ?P (State_Monad.bind m (\<lambda>r. State_Monad.return (Some r))) Q"
    if "triple ?P m (\<lambda>_ w'. restated e S v (view w'))" for m :: "('w, reconcile_return) state"
    by (rule triple_bind [OF that]) (rule triple_return, use False in \<open>auto simp: Q_def\<close>)
  have upd: "triple ?P (updateDatasetStatusAndReturn api e1) (\<lambda>_ w'. restated e S v (view w'))"
    if "same_request e e1" "caching_status e1 = caching_status e" "provision_status e1 \<in> {StatusPending, StatusOK}" for e1
    by (rule triple_restate [where v = v and e = e, OF e that(1)]) (use that in \<open>simp add: S statuses_of_def\<close>)
  have events: "triple ?P (readEventsForPVC api pvc) (\<lambda>_. ?P)" for pvc
    unfolding readEventsForPVC_def by (rule triple_keep_bind [OF triple_view(2)]) (rule triple_return)
  have pend: "triple ?P (claim_pending api e pvc) (\<lambda>_ w'. restated e S v (view w'))" for pvc
    unfolding claim_pending_def
    by (intro triple_intros triple_keep_bind [OF events] upd triple_return)
      (auto simp: same_request_def split: if_splits sum.splits)
  have found: "triple ?P (case x of
      OPersistentVolumeClaim pvc \<Rightarrow>
        (case pvc_phase pvc of
           ClaimLost \<Rightarrow> State_Monad.return None
         | ClaimPending \<Rightarrow> do { r \<leftarrow> claim_pending api e pvc; State_Monad.return (Some r) }
         | ClaimBound \<Rightarrow>
             if provision_status e \<noteq> StatusOK then do {
               r \<leftarrow> updateDatasetStatusAndReturn api (set_provision_info '''' (set_provision StatusOK e));
               State_Monad.return (Some r)
             }
             else State_Monad.return None
         | ClaimUnset \<Rightarrow> State_Monad.return None)
    | _ \<Rightarrow> State_Monad.return (Some (Result, Some (OtherError ''unexpected object'')))) Q" for x
    by (cases x) (auto intro!: ret some pend upd simp: same_request_def split: claim_phase.splits)
  show ?thesis
    unfolding check_provision_def Q_def [symmetric]
    by (intro triple_if triple_keep_bind [OF triple_view(1)] triple_case_sum found ret some upd) (simp_all add: same_request_def)
qed

text \<open>The part of the handler that follows the creation of the instance.\<close>

lemma provision_run_faulty:
  assumes "late_stage d k (view w)" and "view w (dataset_key (ds_name d)) = Some (ODataset e)"
    and run: "run_state (reconcile_provision api (ds_name d) e) w = (r, w')"
  shows "late_stage d k (view w')"
proof -
  let ?n = "ds_name d"
  obtain cr where e: "same_request d e" "caching_status e = StatusDisabled" "provision_status e \<in> open_statuses"
      "k \<ge> 7 \<longrightarrow> provision_status e = StatusOK"
    and cr: "view w (internal_key ?n) = Some (ODatasetInternal cr)" "serves d cr" "k \<ge> 4 \<longrightarrow> \<not> needs_finalizer cr"
    and bound: "k \<ge> 6 \<longrightarrow> claim_bound (view w) ?n"
    using assms(1,2) unfolding late_stage_def by auto
  have n: "ds_name e = ?n" using e(1) by (simp add: same_request_def)
  obtain res w1 where c: "run_state (check_provision api ?n e) w = (res, w1)" by fastforce
  have re: "restated e ({StatusDisabled} \<times> {StatusPending, StatusOK}) (view w) (view w1)"
    and same: "res = None \<or> provision_status e \<in> {StatusFail, StatusOK} \<longrightarrow> view w1 = view w"
    using tripleD [OF triple_check_restates [where v = "view w" and e = e, OF _ refl] refl c] assms(2) n e(2) by simp_all
  have late: "late_stage d k (view w1)"
  proof (cases "k < 7")
    case True
    then show ?thesis by (intro late_stage_restated [OF assms(1,2) re]) simp_all
  qed (use same e(4) assms(1) in simp)
  show ?thesis
  proof (cases res)
    case (Some x)
    then show ?thesis using run c late by (simp add: reconcile_provision_def)
  next
    case None
    then have v1: "view w1 = view w" and s: "run_state (sync_labels api ?n e) w1 = (r, w')"
      using same run c by (simp_all add: reconcile_provision_def)
    have in1: "view w1 (internal_key ?n) = Some (ODatasetInternal cr)" using v1 cr(1) by simp
    have labels: "map_of (om_labels (di_meta cr)) = map_of (om_labels (ds_meta e))"
      using cr(2) e(1) by (simp add: serves_def same_request_def)
    obtain cr' where cr': "view w' (internal_key ?n) = Some (ODatasetInternal cr')" "di_Spec cr' = di_Spec cr"
      "name_of cr' = name_of cr" "om_deletionTimestamp (di_meta cr') = om_deletionTimestamp (di_meta cr)"
      "om_finalizers (di_meta cr') = om_finalizers (di_meta cr)"
      "map_of (om_labels (di_meta cr')) = map_of (om_labels (di_meta cr))"
      by (rule equal_labels_kept [OF in1 labels s])
    have other: "view w' key = view w key" if "key \<noteq> internal_key ?n" for key
      using frameD [OF frame_sync_labels [of ?n "{internal_key ?n}"] s, of key] that v1 by simp
    show ?thesis
      by (rule late_stage_change [OF assms(1) cr(1), of "view w'" k e cr'])
        (use other cr' e assms(2) bound cr(3) needs_finalizer_cong [OF cr'(2,5)] in \<open>auto simp: claim_bound_def\<close>)
  qed
qed

text \<open>A run on a dataset that has no instance yet.\<close>

lemma ensure_internal_faulty:
  assumes "early_stage d 2 (view w)" and e: "view w (dataset_key (ds_name d)) = Some (ODataset e)"
    and "sp_Type (ds_Spec d) \<noteq> ''ARCHIVE''"
    and run: "run_state (ensure_internal api (ds_name d) e) w = (r, w')"
  shows "r \<noteq> None \<and> early_stage d 2 (view w') \<or> late_stage d 3 (view w')" and "view w' (dataset_key (ds_name d)) = Some (ODataset e)"
proof -
  let ?n = "ds_name d"
  have s: "same_request d e" "statuses_of e = (StatusDisabled, StatusInitial)"
    and none: "view w (internal_key ?n) = None" "view w (pvc_key ?n) = None"
    and prov: "provisionable (view w) (new_internal d (ds_Spec d))"
    using assms(1) e by (auto simp: early_stage_def early_def)
  have n: "ds_name e = ?n" using s(1) by (simp add: same_request_def)
  have same: "view w' key = view w key" if "key \<notin> insert (internal_key ?n) (job_keys api)" for key
    by (rule frameD [OF frame_ensure_internal [where d = e and K = "insert (internal_key ?n) (job_keys api)"] run]) (use that n in auto)
  then show ds: "view w' (dataset_key ?n) = Some (ODataset e)" using e by (auto simp: job_keys_def)
  have sec: "view w' (secret_key m) = view w (secret_key m)" for m by (rule same) (auto simp: job_keys_def key_defs)
  have pvc: "view w' (pvc_key ?n) = None" using same [of "pvc_key ?n"] none(2) by (auto simp: job_keys_def key_defs)
  from ensure_internal_result [OF run n none(1)]
  show "r \<noteq> None \<and> early_stage d 2 (view w') \<or> late_stage d 3 (view w')"
  proof (elim disjE conjE exE)
    assume "r \<noteq> None" "view w' (internal_key ?n) = None"
    moreover have "provisionable (view w') (new_internal d (ds_Spec d))"
      using provisionable_cong [OF refl refl, of "view w'" "view w"] sec prov by blast
    ultimately show ?thesis using ds s pvc by (auto simp: early_stage_def early_def)
  next
    fix sp assume "intended_spec operator_namespace (view w) (view w') e sp" and c: "carries e sp (view w')"
    then have sp: "sp = ds_Spec d" using assms(3) s(1) by (simp add: intended_spec_def same_request_def)
    obtain z where z: "view w' (internal_key ?n) = Some (ODatasetInternal z)" "di_Spec z = ds_Spec d"
      "map_of (om_labels (di_meta z)) = map_of (om_labels (ds_meta d))" "om_deletionTimestamp (di_meta z) = None"
      using c sp n s(1) by (auto simp: carries_def same_request_def)
    have nz: "name_of z = ?n" using view_key [OF z(1)] by (simp add: obj_key_internal internal_key_def)
    have "provisionable (view w') z"
      using provisionable_cong [of z "new_internal d (ds_Spec d)" "view w'" "view w"] prov nz z(2) sec
      by (simp add: new_internal_def name_of_def ds_name_def ObjectMeta_def)
    then have "late_stage d 3 (view w')"
      unfolding late_stage_def serves_def using ds s z nz by (auto simp: statuses_of_def)
    then show ?thesis ..
  qed
qed

lemma dataset_run_faulty:
  assumes "stage d k (view w)" and "k \<le> 7" and d: "plain_dataset d"
    and run: "run_state (ReconcileDataset api (ds_name d)) w = (r, w')"
  shows "\<exists>j \<ge> k. j \<le> 7 \<and> stage d j (view w')"
proof -
  let ?n = "ds_name d"
  obtain e where e: "view w (dataset_key ?n) = Some (ODataset e)" "same_request d e"
    using assms(1) by (auto simp: stage_def early_stage_def late_stage_def split: if_splits)
  have n: "ds_name e = ?n" using e(2) by (simp add: same_request_def)
  have like: "om_name (ds_meta e) = om_name (ds_meta d)" "om_labels (ds_meta e) = om_labels (ds_meta d)"
    using e(2) by (simp_all add: same_request_def ds_name_def)
  obtain g w0 where g: "run_state (api_Get api KDataset ?n) w = (g, w0)" by fastforce
  note v0 = get_view [OF g]
  have found: "g = Inr x \<Longrightarrow> x = ODataset e" for x using get_found [of KDataset ?n w x w0] g e(1) by simp
  have e0: "view w0 (dataset_key ?n) = Some (ODataset e)" using e(1) v0 by simp
  have goal: ?thesis if "stage d j (view w')" "k \<le> j" "j \<le> 7" for j using that by blast
  show ?thesis
  proof (cases g)
    case (Inl err)
    then have "w' = w0" using run g by (auto simp: ReconcileDataset_def split: if_splits)
    then show ?thesis using goal [of k] assms(1,2) v0 by simp
  next
    case x: (Inr x)
    note read = run [unfolded ReconcileDataset_def] g x found [OF x]
    consider (early) "k < 2" | (create) "k = 2" | (late) "k \<ge> 3" by linarith
    then show ?thesis
    proof cases
      case early
      define j where "j = k"
      have early: "k = j" "j < 2" using early by (simp_all add: j_def)
      then have s: "early_stage d j (view w0)" using assms(1) v0 by (simp add: stage_def)
      then have st: "statuses_of e = early j" using e0 by (simp add: early_stage_def)
      have "\<exists>e1. same_request e e1 \<and> statuses_of e1 = early (Suc j) \<and> run_state (updateDatasetStatusAndReturn api e1) w0 = (r, w')"
      proof (cases j)
        case 0
        have "remove_matches (om_name (ds_meta e)) = []"
          using d like(1) by (simp add: plain_dataset_def remove_matches_empty_iff)
        then show ?thesis using read st 0
          by (intro exI [of _ "check_name (fst (initializeDatasetStatus e))"])
            (auto simp: statuses_of_def early_def initializeDatasetStatus_def check_name_def same_request_def)
      next
        case (Suc i)
        then show ?thesis using read st early(2) d like(2)
          by (intro exI [of _ "set_caching_info ''User explicitly disabled caching'' (set_caching StatusDisabled e)"])
            (auto simp: statuses_of_def early_def initializeDatasetStatus_def setup_caching_def plain_dataset_def same_request_def)
      qed
      then obtain e1 where e1: "same_request e e1" "statuses_of e1 = early (Suc j)"
        "run_state (updateDatasetStatusAndReturn api e1) w0 = (r, w')" by blast
      have re: "restated e {early (Suc j)} (view w0) (view w')"
        using tripleD [OF triple_restate [where v = "view w0" and e = e, OF _ e1(1)] refl e1(3)] e0 e1(2) n by simp
      from early_stage_restated [OF s e0 re] show ?thesis
      proof
        assume "early_stage d j (view w')"
        then show ?thesis using early by (intro goal [of j]) (simp_all add: stage_def)
      next
        assume "early_stage d (Suc j) (view w')"
        then show ?thesis using early by (intro goal [of "Suc j"]) (simp_all add: stage_def)
      qed
    next
      case create
      then have s: "early_stage d 2 (view w0)" using assms(1) v0 by (simp add: stage_def)
      then have "statuses_of e = (StatusDisabled, StatusInitial)" using e0 by (simp add: early_stage_def early_def)
      then have "run_state (andthen (ensure_internal api ?n e) (reconcile_provision api ?n e)) w0 = (r, w')"
        using read by (simp add: statuses_of_def initializeDatasetStatus_def)
      then obtain er w1 where er: "run_state (ensure_internal api ?n e) w0 = (er, w1)"
        and rest: "if er = None then run_state (reconcile_provision api ?n e) w1 = (r, w') else w' = w1"
        by (auto simp: run_andthen split: prod.splits option.splits)
      note i = ensure_internal_faulty [OF s e0 _ er]
      have no_archive: "sp_Type (ds_Spec d) \<noteq> ''ARCHIVE''" using d by (simp add: plain_dataset_def)
      from i(1) [OF no_archive] show ?thesis
      proof (elim disjE conjE)
        assume "er \<noteq> None" "early_stage d 2 (view w1)"
        then show ?thesis using rest create by (intro goal [of 2]) (simp_all add: stage_def)
      next
        assume l: "late_stage d 3 (view w1)"
        have "late_stage d 3 (view w')"
        proof (cases "er = None")
          case True
          then show ?thesis using rest provision_run_faulty [OF l i(2) [OF no_archive]] by simp
        qed (use rest l in simp)
        then show ?thesis using create by (intro goal [of 3]) (simp_all add: stage_def)
      qed
    next
      case late
      then have s: "late_stage d k (view w0)" using assms(1) v0 by (simp add: stage_def)
      then have st: "caching_status e = StatusDisabled" "provision_status e \<in> open_statuses" "view w0 (internal_key ?n) \<noteq> None"
        using e0 by (auto simp: late_stage_def)
      then have "run_state (andthen (ensure_internal api ?n e) (reconcile_provision api ?n e)) w0 = (r, w')"
        using read by (auto simp: initializeDatasetStatus_def)
      then obtain er w1 where er: "run_state (ensure_internal api ?n e) w0 = (er, w1)"
        and rest: "if er = None then run_state (reconcile_provision api ?n e) w1 = (r, w') else w' = w1"
        by (auto simp: run_andthen split: prod.splits option.splits)
      have "view w1 = view w0"
        using er st(3) get_view [of KDatasetInternal ?n w0] get_missing [of KDatasetInternal ?n w0]
        by (auto simp: ensure_internal_def split: prod.splits sum.splits if_splits)
      then show ?thesis
        using rest provision_run_faulty [of d k w1 e r w'] s e0 goal [of k] assms(2) late by (auto simp: stage_def split: if_splits)
    qed
  qed
qed


lemma stage_step_faulty:
  assumes "stage d k (view w)" and "k \<le> 7" and "plain_dataset d"
    and step: "operator_step api view (\<lambda>_. True) hms parse_url (ds_name d) a w w'"
  shows "\<exists>j \<ge> k. j \<le> 7 \<and> stage d j (view w')"
  using step
proof cases
  case (by_dataset r)
  from dataset_run_faulty [OF assms(1-3) this(2)] show ?thesis .
next
  case (by_internal r)
  show ?thesis
  proof (cases "k < 3")
    case True
    then have "view w (internal_key (ds_name d)) = None" using assms(1) by (simp add: stage_def early_stage_def)
    then have "view w' = view w"
      using by_internal(2) get_view [of KDatasetInternal "ds_name d" w] get_found [of KDatasetInternal "ds_name d" w]
      by (auto simp: ReconcileInternal_def split: prod.splits sum.splits if_splits)
    then show ?thesis using assms(1,2) by auto
  next
    case False
    then have "late_stage d k (view w)" "k \<ge> 3" using assms(1) by (simp_all add: stage_def)
    from internal_run_faulty [OF this by_internal(2)] show ?thesis using False assms(2) by (auto simp: stage_def)
  qed
next
  case (by_cluster p)
  show ?thesis
  proof (cases "k < 3")
    case False
    then have s: "late_stage d k (view w)" using assms(1) by (simp add: stage_def)
    from late_stage_binds [OF s by_cluster(3,4)] show ?thesis
      using False assms(2) by (intro exI [of _ "if k = 5 then 6 else k"]) (auto simp: stage_def)
  qed (use by_cluster assms(1) in \<open>simp add: stage_def early_stage_def\<close>)
next
  case (by_volumes p)
  show ?thesis
  proof (cases "k < 3")
    case False
    then have s: "late_stage d k (view w)" using assms(1) by (simp add: stage_def)
    from late_stage_waits [OF s by_volumes(3,4,5)] show ?thesis
      using False assms(2) by (intro exI [of _ k]) (auto simp: stage_def)
  qed (use by_volumes assms(1) in \<open>simp add: stage_def early_stage_def\<close>)
qed

end

section \<open>The fleet\<close>

context catalog
begin

lemma fleet_step_faulty:
  assumes "independent_fleet F" and "d \<in> F" and "\<forall>e \<in> F. stage e (\<kappa> e) (view w) \<and> \<kappa> e \<le> 7"
    and step: "operator_step api view (\<lambda>_. True) hms parse_url (ds_name d) a w w'"
  shows "\<exists>j \<ge> \<kappa> d. \<forall>e \<in> F. stage e ((\<kappa>(d := j)) e) (view w') \<and> (\<kappa>(d := j)) e \<le> 7"
proof -
  have d: "plain_dataset d" using assms(1,2) by (simp add: independent_fleet_def)
  obtain j where j: "\<kappa> d \<le> j" "j \<le> 7" "stage d j (view w')"
    using stage_step_faulty [OF _ _ d step] assms(2,3) by blast
  have "stage e (\<kappa> e) (view w')" if "e \<in> F" "e \<noteq> d" for e
    by (rule other_stages_kept [OF assms(1,2) that _ step]) (use assms(3) that in blast)
  then show ?thesis using j assms(3) by (intro exI [of _ j]) auto
qed

text \<open>Whatever fails, no dataset of the fleet falls behind.\<close>

lemma fleet_keeps:
  assumes "fleet_trace api view (\<lambda>_. True) hms parse_url as w w'" and "independent_fleet F" and "fst ` set as \<subseteq> ds_name ` F"
    and "\<forall>d \<in> F. stage d (\<kappa> d) (view w) \<and> \<kappa> d \<le> 7"
  shows "\<exists>j. \<forall>d \<in> F. stage d (j d) (view w') \<and> j d \<le> 7 \<and> \<kappa> d \<le> j d"
  using assms(1,3,4)
proof (induction arbitrary: \<kappa> rule: fleet_trace.induct)
  case (nothing w)
  then show ?case by (intro exI [of _ \<kappa>]) simp
next
  case (action n a w w1 as w')
  obtain d where d: "d \<in> F" "n = ds_name d" using action.prems(1) by auto
  obtain i where i: "\<kappa> d \<le> i" "\<forall>e \<in> F. stage e ((\<kappa>(d := i)) e) (view w1) \<and> (\<kappa>(d := i)) e \<le> 7"
    using fleet_step_faulty [OF assms(2) d(1) action.prems(2)] action.hyps(1) d(2) by blast
  obtain j where j: "\<forall>e \<in> F. stage e (j e) (view w') \<and> j e \<le> 7 \<and> (\<kappa>(d := i)) e \<le> j e"
    using action.IH [OF _ i(2)] action.prems(1) by auto
  then have "\<forall>e \<in> F. \<kappa> e \<le> j e" using i(1) by (metis fun_upd_apply order_trans)
  then show ?case using j by blast
qed

end

end
