(* ===== verification/Fleet_Properties.thy ===== *)
theory Fleet_Properties
  imports Recovery Pod_Webhook
begin

text \<open>
  Operator and webhook together: independent datasets become OK under every schedule, whatever has failed before, and
  a pod admitted then mounts claims that are bound.
\<close>

section \<open>The fleet\<close>

lemma late_stage_ready:
  assumes "late_stage d 7 v"
  shows "\<exists>e cr. v (dataset_key (ds_name d)) = Some (ODataset e) \<and> same_request d e \<and>
    statuses_of e = (StatusDisabled, StatusOK) \<and> v (internal_key (ds_name d)) = Some (ODatasetInternal cr) \<and>
    di_Spec cr = ds_Spec d \<and> settled v cr \<and> claim_bound v (ds_name d)"
  using assms unfolding late_stage_def serves_def statuses_of_def by force

context calm_catalog
begin

lemma fleet_ready:
  assumes "independent_fleet F"
    and fresh: "\<forall>d \<in> F. fresh_uncached (view w0) (ds_name d) d \<and> provisionable (view w0) (new_internal d (ds_Spec d))"
    and faulty: "fleet_trace api view (\<lambda>_. True) hms parse_url bs w0 w" and "calm w"
    and good: "fleet_trace api view calm hms parse_url as w w'" and names: "fst ` set (bs @ as) \<subseteq> ds_name ` F"
    and due: "\<forall>d \<in> F. subseq plan (actions_on (ds_name d) as)"
  shows "calm w' \<and> (\<forall>d \<in> F. late_stage d 7 (view w'))"
proof -
  have "\<forall>d \<in> F. stage d 0 (view w0) \<and> 0 \<le> (7::nat)"
    using fresh by (auto simp: fresh_uncached_def stage_def early_stage_def early_def)
  moreover have "fst ` set bs \<subseteq> ds_name ` F" using names by auto
  ultimately obtain j where j: "\<forall>d \<in> F. stage d (j d) (view w) \<and> j d \<le> 7 \<and> 0 \<le> j d"
    using fleet_keeps [OF faulty assms(1), of "\<lambda>_. 0"] by (auto 0 2)
  have "subseq (drop (j d) plan) (actions_on (ds_name d) as)" if "d \<in> F" for d
  proof -
    have "subseq (drop (j d) plan) plan" by (rule suffix_imp_subseq) (rule suffix_drop)
    then show ?thesis using due that subseq_order.trans by blast
  qed
  then show ?thesis
    by (intro fleet_completes [OF good assms(1) _ assms(4), of j]) (use names j in auto)
qed

end


text \<open>Without faults: the schedules of a calm cluster.\<close>

corollary every_fleet_schedule_provisions:
  assumes "catalog api view hms" and "calm_api_server api view calm" and "calm w" and "independent_fleet F"
    and "\<forall>d \<in> F. fresh_uncached (view w) (ds_name d) d \<and> provisionable (view w) (new_internal d (ds_Spec d))"
    and "fleet_trace api view calm hms parse_url as w w'" and "fst ` set as \<subseteq> ds_name ` F"
    and "\<forall>d \<in> F. subseq plan (actions_on (ds_name d) as)"
  shows "\<forall>d \<in> F. \<exists>e cr. view w' (dataset_key (ds_name d)) = Some (ODataset e) \<and> same_request d e \<and>
    statuses_of e = (StatusDisabled, StatusOK) \<and> view w' (internal_key (ds_name d)) = Some (ODatasetInternal cr) \<and>
    di_Spec cr = ds_Spec d \<and> settled (view w') cr \<and> claim_bound (view w') (ds_name d)"
  using calm_catalog.fleet_ready [OF calm_catalog.intro [OF assms(1,2)] assms(4,5) fleet_trace.nothing assms(3,6) _ assms(8)]
    assms(7) late_stage_ready by simp

text \<open>Two datasets, an NFS share and a bucket, and a schedule of the in-memory cluster.\<close>

definition example_bucket :: Dataset where
  "example_bucket = Dataset_Properties.example_dataset ''b'' [(''cache.disable'', ''true'')]
     (empty_spec\<lparr>sp_Local := Some [(''type'', ''COS''), (''accessKeyID'', ''k''), (''secretAccessKey'', ''s''),
        (''endpoint'', ''e''), (''bucket'', ''x'')]\<rparr>) (StatusEmpty, StatusEmpty)"

definition example_fleet :: "Dataset set" where "example_fleet = {example_uncached, example_bucket}"

definition fleet_start :: mem_world where
  "fleet_start = (world_of [ODataset example_uncached, ODataset example_bucket])\<lparr>mw_faults :=
     [False, False, False, False, False, False, False, True, False, True]\<rparr>"

text \<open>The world after a spell of faults: the instance of the bucket is there, but its status and the finalizer could not be written.\<close>

definition faulty_spell :: "(mem_world, unit) state" where
  "faulty_spell = do {
     _ \<leftarrow> dataset_times 3 mem_api (''ns'', ''b'');
     reconcile_times 1 mem_api (table_metastore (\<lambda>_. None)) (\<lambda>_. None) (''ns'', ''b'') }"

definition fleet_after :: mem_world where "fleet_after = snd (run_state faulty_spell fleet_start)"

text \<open>From there the controllers run on both, then the cluster binds the claim of the second dataset, then that of the first.\<close>

definition fleet_runs :: mem_world where
  "fleet_runs = snd (run_state (do {
     _ \<leftarrow> faulty_spell;
     _ \<leftarrow> dataset_times 3 mem_api (''ns'', ''a'');
     _ \<leftarrow> dataset_times 3 mem_api (''ns'', ''b'');
     _ \<leftarrow> reconcile_times 2 mem_api (table_metastore (\<lambda>_. None)) (\<lambda>_. None) (''ns'', ''b'');
     reconcile_times 2 mem_api (table_metastore (\<lambda>_. None)) (\<lambda>_. None) (''ns'', ''a'') }) fleet_start)"

definition mem_claim :: "namespaced_name \<Rightarrow> mem_world \<Rightarrow> PersistentVolumeClaim option" where
  "mem_claim n w = (case mem_view w (pvc_key n) of Some (OPersistentVolumeClaim p) \<Rightarrow> Some p | _ \<Rightarrow> None)"

definition fleet_bound :: mem_world where
  "fleet_bound = mem_bind (''ns'', ''a'') (the (mem_claim (''ns'', ''a'') fleet_runs))
     (mem_bind (''ns'', ''b'') (the (mem_claim (''ns'', ''b'') fleet_runs)) fleet_runs)"

definition fleet_end :: mem_world where
  "fleet_end = snd (run_state (do { _ \<leftarrow> dataset_times 1 mem_api (''ns'', ''b''); dataset_times 1 mem_api (''ns'', ''a'') })
     fleet_bound)"

definition fleet_plan :: "(namespaced_name \<times> actor) list" where
  "fleet_plan = map (Pair (''ns'', ''a'')) (replicate 3 DatasetRun) @ map (Pair (''ns'', ''b'')) (replicate 3 DatasetRun) @
     map (Pair (''ns'', ''b'')) (replicate 2 InternalRun) @ map (Pair (''ns'', ''a'')) (replicate 2 InternalRun) @
     [((''ns'', ''b''), ClaimBinder), ((''ns'', ''a''), ClaimBinder)] @
     map (Pair (''ns'', ''b'')) (replicate 1 DatasetRun) @ map (Pair (''ns'', ''a'')) (replicate 1 DatasetRun)"

lemma fleet_claims: "mem_calm fleet_runs" "mem_claim (''ns'', ''b'') fleet_runs \<noteq> None"
  "mem_claim (''ns'', ''a'') (mem_bind (''ns'', ''b'') (the (mem_claim (''ns'', ''b'') fleet_runs)) fleet_runs) =
     mem_claim (''ns'', ''a'') fleet_runs" "mem_claim (''ns'', ''a'') fleet_runs \<noteq> None"
  by code_simp+

lemma mem_claim_view: "mem_claim n w = Some p \<Longrightarrow> mem_view w (pvc_key n) = Some (OPersistentVolumeClaim p)"
  by (auto simp: mem_claim_def split: option.splits k8s_object.splits)

abbreviation mem_fleet :: "(namespaced_name \<times> actor) list \<Rightarrow> mem_world \<Rightarrow> mem_world \<Rightarrow> bool" where
  "mem_fleet \<equiv> fleet_trace mem_api mem_view mem_calm (table_metastore (\<lambda>_. None)) (\<lambda>_. None)"

lemma fleet_bound_trace: "mem_fleet [((''ns'', ''b''), ClaimBinder), ((''ns'', ''a''), ClaimBinder)] fleet_runs fleet_bound"
proof -
  obtain p q where pq: "mem_claim (''ns'', ''b'') fleet_runs = Some p" "mem_claim (''ns'', ''a'') fleet_runs = Some q"
    using fleet_claims(2,4) by blast
  let ?w = "mem_bind (''ns'', ''b'') p fleet_runs"
  have "mem_calm ?w" using fleet_claims(1) by (simp add: mem_bind_def mem_calm_def)
  moreover have "mem_claim (''ns'', ''a'') ?w = Some q" using fleet_claims(3) pq by simp
  ultimately show ?thesis
    using mem_bind_step [OF fleet_claims(1) mem_claim_view [OF pq(1)]] mem_bind_step [of ?w, OF _ mem_claim_view] pq
    by (auto simp: fleet_bound_def intro!: fleet_trace.intros)
qed

definition fleet_faults :: "(namespaced_name \<times> actor) list" where
  "fleet_faults = map (Pair (''ns'', ''b'')) (replicate 3 DatasetRun) @ map (Pair (''ns'', ''b'')) (replicate 1 InternalRun)"

lemma snd_run_then: "snd (run_state (m \<bind> (\<lambda>_. k)) w) = snd (run_state k (snd (run_state m w)))"
  by (simp add: case_prod_beta)

lemma fleet_faults_run:
  "fleet_trace mem_api mem_view (\<lambda>_. True) (table_metastore (\<lambda>_. None)) (\<lambda>_. None) fleet_faults fleet_start fleet_after"
  unfolding fleet_after_def faulty_spell_def snd_run_then fleet_faults_def
  by (rule fleet_trace_append [OF operator_fleet [OF dataset_times_trace] operator_fleet [OF reconcile_times_trace]])

lemma fleet_plan_runs: "mem_fleet fleet_plan fleet_after fleet_end"
proof -
  note d = operator_fleet [OF dataset_times_trace] and i = operator_fleet [OF reconcile_times_trace]
  have a: "mem_fleet (map (Pair (''ns'', ''a'')) (replicate 3 DatasetRun) @ map (Pair (''ns'', ''b'')) (replicate 3 DatasetRun) @
      map (Pair (''ns'', ''b'')) (replicate 2 InternalRun) @ map (Pair (''ns'', ''a'')) (replicate 2 InternalRun)) fleet_after fleet_runs"
    unfolding fleet_runs_def snd_run_then fleet_after_def [symmetric] by (rule fleet_trace_append [OF d fleet_trace_append [OF d fleet_trace_append [OF i i]]])
  have b: "mem_fleet (map (Pair (''ns'', ''b'')) (replicate 1 DatasetRun) @ map (Pair (''ns'', ''a'')) (replicate 1 DatasetRun))
      fleet_bound fleet_end"
    unfolding fleet_end_def snd_run_then by (rule fleet_trace_append [OF d d])
  show ?thesis
    using fleet_trace_append [OF a fleet_trace_append [OF fleet_bound_trace b]]
    by (simp only: fleet_plan_def append_assoc)
qed

lemma fleet_names: "ds_name example_uncached = (''ns'', ''a'')" "ds_name example_bucket = (''ns'', ''b'')"
  by (simp_all add: example_uncached_def example_bucket_def)

lemma fleet_independent: "independent_fleet example_fleet"
  by (simp add: independent_fleet_def example_fleet_def independent_def plain_dataset_def secret_ref_of_def
      example_uncached_def example_bucket_def empty_spec_def valid_name_def name_alnum_def name_char_def
      parse_bool_or_false_def ParseBool_def mget_def ds_name_def)

lemma fleet_after_calm: "mem_calm fleet_after" by code_simp

lemma fleet_provisionable:
  "provisionable v (new_internal example_bucket (ds_Spec example_bucket))"
  by (simp add: provisionable_def new_internal_def example_bucket_def empty_spec_def credentials_of_def secret_ok_def
      secret_keys_def mhas_def mget_def)

lemma fleet_stored: "stored_form (ODataset example_uncached)" "stored_form (ODataset example_bucket)"
  by (simp_all add: stored_form_def example_uncached_def example_bucket_def Dataset_Properties.example_dataset_def ObjectMeta_def)

lemma mem_view_faults: "mem_view (w\<lparr>mw_faults := fs\<rparr>) = mem_view w"
  by (simp add: mem_view_def)

lemma fleet_objects: "d \<in> example_fleet \<Longrightarrow> mem_view fleet_start (dataset_key (ds_name d)) = Some (ODataset d)"
    "mem_view fleet_start (internal_key n) = None" "mem_view fleet_start (pvc_key n) = None"
  by (auto simp: fleet_start_def mem_view_faults view_world_of fleet_stored example_fleet_def fleet_names obj_key_dataset)

lemma fleet_fresh: "\<forall>d \<in> example_fleet. fresh_uncached (mem_view fleet_start) (ds_name d) d \<and>
    provisionable (mem_view fleet_start) (new_internal d (ds_Spec d))"
proof
  fix d assume d: "d \<in> example_fleet"
  then have "plain_dataset d" using fleet_independent by (simp add: independent_fleet_def)
  moreover have "statuses_of d = (StatusEmpty, StatusEmpty)"
    using d by (auto simp: example_fleet_def example_uncached_def example_bucket_def)
  ultimately have "fresh_uncached (mem_view fleet_start) (ds_name d) d"
    using fleet_objects(1) [OF d] fleet_objects(2,3) by (simp add: fresh_uncached_def plain_dataset_def)
  moreover have "provisionable (mem_view fleet_start) (new_internal d (ds_Spec d))"
    using d example_provisionable fleet_provisionable unfolding example_fleet_def by blast
  ultimately show "fresh_uncached (mem_view fleet_start) (ds_name d) d \<and>
    provisionable (mem_view fleet_start) (new_internal d (ds_Spec d))" ..
qed

lemma fleet_plan_covers: "fst ` set (fleet_faults @ fleet_plan) \<subseteq> ds_name ` example_fleet"
    "\<forall>d \<in> example_fleet. subseq plan (actions_on (ds_name d) fleet_plan)"
  by (simp_all add: fleet_faults_def fleet_plan_def example_fleet_def fleet_names plan_def numeral_eq_Suc)

lemmas fleet_facts = mem_catalog.catalog_axioms mem_calm.calm_api_server_axioms
  fleet_independent fleet_fresh fleet_faults_run fleet_after_calm fleet_plan_runs fleet_plan_covers


section \<open>Pods of the fleet\<close>

lemma late_stage_served:
  assumes "late_stage d 7 v"
  shows "claim_bound v (ds_name d)" and "dataset_at v (om_namespace (ds_meta d)) (om_name (ds_meta d)) \<noteq> None"
    and "mget (local_map (ds_Spec d)) ''type'' = ''COS'' \<Longrightarrow>
      v (config_key (ds_name d)) \<noteq> None \<and> v (secret_key (ds_name d)) \<noteq> None"
proof -
  show "claim_bound v (ds_name d)" using assms by (simp add: late_stage_def)
  obtain e cr where e: "v (dataset_key (ds_name d)) = Some (ODataset e)" "settled v cr" "serves d cr"
    using assms by (auto simp: late_stage_def)
  then show "dataset_at v (om_namespace (ds_meta d)) (om_name (ds_meta d)) \<noteq> None"
    by (simp add: dataset_at_def ds_name_def)
  assume "mget (local_map (ds_Spec d)) ''type'' = ''COS''"
  with e(2,3) show "v (config_key (ds_name d)) \<noteq> None \<and> v (secret_key (ds_name d)) \<noteq> None"
    by (auto simp: settled_def cos_settled_def serves_def)
qed

lemma resolved_names: "in_name ` snd ` set (resolved v ns D) = in_name ` snd ` set D"
  by (force simp: resolved_def image_iff)

lemma to_mount_names: "names_inv (D, U) \<Longrightarrow> x \<in> set (to_mount pod D) \<Longrightarrow> in_name x \<in> in_name ` snd ` set D"
  by (auto simp: to_mount_filter in_order_def)

lemma to_inject_names: "n \<in> set (to_inject D) \<Longrightarrow> n \<in> in_name ` snd ` set D"
  by (auto simp: to_inject_def in_order_def configs_of_def)


text \<open>The witness: a pod that mounts the share and uses the bucket both ways.\<close>

definition fleet_pod :: Pod where
  "fleet_pod = example_pod\<lparr>pod_meta := (pod_meta example_pod)\<lparr>om_labels := [(''dataset.0.id'', ''a''),
     (''dataset.0.useas'', ''mount''), (''dataset.1.id'', ''b''), (''dataset.1.useas'', ''mount.configmap'')]\<rparr>\<rparr>"

definition fleet_inputs :: inputs where
  "fleet_inputs = [(0, \<lparr>in_name = ''a'', in_index = 0, in_useasLabels = [''mount''], in_resource = zero_dataset\<rparr>),
     (1, \<lparr>in_name = ''b'', in_index = 0, in_useasLabels = [''mount'', ''configmap''], in_resource = zero_dataset\<rparr>)]"

lemma fleet_read: "DatasetInputFromPod fleet_pod = Inr fleet_inputs"
  by (simp add: DatasetInputFromPod_def fleet_pod_def process_label_def HasPrefix_def
    prefixLabels_def labelSeparator_def Let_def Atoi_def atoi_unsigned_def digit_value_def SetName_def
    NewDatasetInput_def mset_key_def TrimSpace_plain plain_def RequestedUseContains_def AddToRequestedUse_def
    fleet_inputs_def del: input_of_simps)


end
