(* ===== verification/Csi_Api.thy ===== *)
theory Csi_Api
  imports Prelude
begin

text \<open>
  The requests and answers of the Container Storage Interface that the two CSI drivers receive and send, and the
  gRPC status errors they answer with.  Only the fields the drivers read or write are kept; a getter of a nil
  message returns the zero value, which the records of this theory hold directly.
\<close>

section \<open>Errors\<close>

text \<open>\<open>status.Error(code, msg)\<close>, and an error made by \<open>fmt.Errorf\<close>, \<open>errors.New\<close> or a library.\<close>

datatype grpc_code = InvalidArgument | PermissionDenied | NotFoundCode | Internal | Unavailable | Unimplemented

datatype grpc_error = Status grpc_code string | PlainError string

definition unimplemented :: "string \<Rightarrow> grpc_error + 'a" where
  "unimplemented msg = Inl (Status Unimplemented msg)"

section \<open>Capabilities\<close>

datatype AccessMode = UNKNOWN | SINGLE_NODE_WRITER | SINGLE_NODE_READER_ONLY | MULTI_NODE_READER_ONLY
  | MULTI_NODE_SINGLE_WRITER | MULTI_NODE_MULTI_WRITER

record VolumeCapability =
  vc_Mode :: AccessMode
  vc_MountFlags :: "string list"

datatype ControllerRPC = RPC_UNKNOWN | CREATE_DELETE_VOLUME

datatype NodeRPC = NODE_RPC_UNKNOWN | STAGE_UNSTAGE_VOLUME

section \<open>Controller requests\<close>

text \<open>A nil list of capabilities is \<open>None\<close>.\<close>

record CreateVolumeRequest =
  cv_Name :: string
  cv_VolumeCapabilities :: "VolumeCapability list option"
  cv_Parameters :: smap
  cv_Secrets :: smap

record Volume_msg =
  vol_Id :: string
  vol_CapacityBytes :: int
  vol_Context :: smap

record DeleteVolumeRequest =
  dv_VolumeId :: string
  dv_Secrets :: smap

record ValidateRequest =
  vr_VolumeId :: string
  vr_VolumeCapabilities :: "VolumeCapability list option"
  vr_Secrets :: smap

text \<open>The confirmed access modes, or the message of an unconfirmed answer.\<close>

datatype ValidateResponse = Confirmed "AccessMode list" | Message string

section \<open>Node requests\<close>

record NodePublishRequest =
  np_VolumeId :: string
  np_TargetPath :: string
  np_StagingTargetPath :: string
  np_VolumeCapability :: "VolumeCapability option"
  np_Readonly :: bool
  np_VolumeContext :: smap
  np_Secrets :: smap

record NodeUnpublishRequest =
  nu_VolumeId :: string
  nu_TargetPath :: string

record NodeStageRequest =
  ns_VolumeId :: string
  ns_StagingTargetPath :: string
  ns_VolumeCapability :: "VolumeCapability option"
  ns_Secrets :: smap

record NodeUnstageRequest =
  nus_VolumeId :: string
  nus_StagingTargetPath :: string

end
