(* ===== verification/S3_Store.thy ===== *)
theory S3_Store
  imports Go_Strings Csi_Api
begin

text \<open>
  The S3 client of the CSI driver (\<open>csi-s3/pkg/s3/s3-client.go\<close>, \<open>config.go\<close>).  The object store is reached
  through the \<open>minio-go\<close> package, a parameter: the record \<open>('w, 'c) minio_api\<close> of its operations over an opaque
  world, with \<open>'c\<close> its client object.  The locale \<open>object_store\<close> states what the package and the service promise
  in terms of the buckets a client sees, and the lemmas about the client are proved once inside it.  An in-memory
  store interprets it.
\<close>

section \<open>The minio package and \<open>net/url\<close>\<close>

text \<open>\<open>url.Parse\<close> as the driver uses it: \<open>Scheme\<close>, \<open>Hostname()\<close>, \<open>Port()\<close>.\<close>

record parsed_url =
  url_Scheme :: string
  url_Hostname :: string
  url_Port :: string

type_synonym url_parser = "string \<Rightarrow> string + parsed_url"

text \<open>
  Errors are given by their text.  \<open>minio_ListObjects\<close> is the sequence of messages on the channel of the package, an
  error or a key each.  \<open>minio_scheduled\<close> tells whether the goroutine of \<open>emptyBucket\<close> ran up to its first
  blocking operation before its creator looked at \<open>listErr\<close>.
\<close>

record ('w, 'c) minio_api =
  minio_NewWithRegion :: "string \<Rightarrow> string \<Rightarrow> string \<Rightarrow> bool \<Rightarrow> string \<Rightarrow> string + 'c"
  minio_BucketExists :: "'c \<Rightarrow> string \<Rightarrow> ('w, string + bool) state"
  minio_MakeBucket :: "'c \<Rightarrow> string \<Rightarrow> string \<Rightarrow> ('w, string option) state"
  minio_RemoveBucket :: "'c \<Rightarrow> string \<Rightarrow> ('w, string option) state"
  minio_ListObjects :: "'c \<Rightarrow> string \<Rightarrow> ('w, (string + string) list) state"
  minio_RemoveObjects :: "'c \<Rightarrow> string \<Rightarrow> string list \<Rightarrow> ('w, (string \<times> string) list) state"
  minio_GetObject :: "'c \<Rightarrow> string \<Rightarrow> string \<Rightarrow> ('w, string option) state"
  minio_scheduled :: "('w, bool) state"

section \<open>The client\<close>

record Config =
  AccessKeyID :: string
  SecretAccessKey :: string
  Region :: string
  Endpoint :: string
  Mounter :: string
  Bucket :: string
  Folder :: string
  RemoveOnDelete :: bool
  Readonly :: bool
  Provision :: bool

record 'c s3Client =
  sc_cfg :: Config
  sc_minio :: 'c

definition metadataName :: string where "metadataName = ''.metadata.json''"

definition newS3Client :: "('w, 'c) minio_api \<Rightarrow> url_parser \<Rightarrow> Config \<Rightarrow> string + 'c s3Client" where
  "newS3Client mc parse cfg =
     (case parse (Endpoint cfg) of
        Inl err \<Rightarrow> Inl err
      | Inr u \<Rightarrow>
          let ssl = url_Scheme u = ''https'';
              endpoint = if url_Port u \<noteq> '''' then url_Hostname u @ '':'' @ url_Port u else url_Hostname u in
          case minio_NewWithRegion mc endpoint (AccessKeyID cfg) (SecretAccessKey cfg) ssl (Region cfg) of
            Inl err \<Rightarrow> Inl err
          | Inr c \<Rightarrow> Inr \<lparr>sc_cfg = cfg, sc_minio = c\<rparr>)"

definition secrets_config :: "smap \<Rightarrow> Config" where
  "secrets_config secrets =
     \<lparr>AccessKeyID = mget secrets ''accessKeyID'', SecretAccessKey = mget secrets ''secretAccessKey'',
      Region = mget secrets ''region'', Endpoint = mget secrets ''endpoint'', Mounter = '''',
      Bucket = mget secrets ''bucket'', Folder = mget secrets ''folder'',
      RemoveOnDelete = parse_bool_or_false (mget secrets ''remove-on-delete''),
      Readonly = parse_bool_or_false (mget secrets ''readonly''),
      Provision = parse_bool_or_false (mget secrets ''provision'')\<rparr>"

definition newS3ClientFromSecrets :: "('w, 'c) minio_api \<Rightarrow> url_parser \<Rightarrow> smap \<Rightarrow> string + 'c s3Client" where
  "newS3ClientFromSecrets mc parse secrets = newS3Client mc parse (secrets_config secrets)"

definition bucketExists :: "('w, 'c) minio_api \<Rightarrow> 'c s3Client \<Rightarrow> string \<Rightarrow> ('w, string + bool) state" where
  "bucketExists mc client bucketName = minio_BucketExists mc (sc_minio client) bucketName"

definition createBucket :: "('w, 'c) minio_api \<Rightarrow> 'c s3Client \<Rightarrow> string \<Rightarrow> ('w, string option) state" where
  "createBucket mc client bucketName = minio_MakeBucket mc (sc_minio client) bucketName (Region (sc_cfg client))"

text \<open>
  The goroutine of \<open>emptyBucket\<close> sends the listed keys on an unbuffered channel until the first error, which it
  leaves in \<open>listErr\<close>.  Nothing receives from the channel before \<open>listErr\<close> is read, so the error is seen
  there only when it is the first message and the goroutine has run already; in every other case the keys before it are
  removed and the error is lost.  \<open>errorCh\<close> is closed and drained by the \<open>range\<close> loop, so that its length is 0
  afterwards.
\<close>

fun keys_until_error :: "(string + string) list \<Rightarrow> string list" where
  "keys_until_error [] = []"
| "keys_until_error (Inl err # ms) = []"
| "keys_until_error (Inr key # ms) = key # keys_until_error ms"

definition early_error :: "(string + string) list \<Rightarrow> bool \<Rightarrow> string option" where
  "early_error ms raced = (case ms of Inl err # _ \<Rightarrow> if raced then Some err else None | _ \<Rightarrow> None)"

definition emptyBucket :: "('w, 'c) minio_api \<Rightarrow> 'c s3Client \<Rightarrow> string \<Rightarrow> ('w, string option) state" where
  "emptyBucket mc client bucketName = do {
     ms \<leftarrow> minio_ListObjects mc (sc_minio client) bucketName;
     raced \<leftarrow> minio_scheduled mc;
     case early_error ms raced of
       Some listErr \<Rightarrow> State_Monad.return (Some listErr)
     | None \<Rightarrow> do {
         errorCh \<leftarrow> minio_RemoveObjects mc (sc_minio client) bucketName (keys_until_error ms);
         let remaining = drop (length errorCh) errorCh;
         if length remaining \<noteq> 0 then
           State_Monad.return (Some (''Failed to remove all objects of bucket '' @ bucketName))
         else State_Monad.return None
       }
   }"

definition removeBucket :: "('w, 'c) minio_api \<Rightarrow> 'c s3Client \<Rightarrow> string \<Rightarrow> ('w, string option) state" where
  "removeBucket mc client bucketName = do {
     e \<leftarrow> emptyBucket mc client bucketName;
     case e of
       Some err \<Rightarrow> State_Monad.return (Some err)
     | None \<Rightarrow> minio_RemoveBucket mc (sc_minio client) bucketName
   }"

definition metadataExist :: "('w, 'c) minio_api \<Rightarrow> 'c s3Client \<Rightarrow> string \<Rightarrow> ('w, bool) state" where
  "metadataExist mc client bucketName = do {
     e \<leftarrow> minio_GetObject mc (sc_minio client) bucketName metadataName;
     State_Monad.return (e = None)
   }"

section \<open>The contract of the object store\<close>

text \<open>
  \<open>buckets c w\<close> maps each bucket the client \<open>c\<close> can see to its keys.  A request that fails may still have been
  carried out, when only its answer is lost.
\<close>

locale object_store =
  fixes mc :: "('w, 'c) minio_api" and buckets :: "'c \<Rightarrow> 'w \<Rightarrow> (string \<rightharpoonup> string set)"
  assumes exists_law: "run_state (minio_BucketExists mc c b) w = (r, w') \<Longrightarrow>
      buckets c w' = buckets c w \<and> (\<forall>x. r = Inr x \<longrightarrow> x = (b \<in> dom (buckets c w)))"
    and make_law: "run_state (minio_MakeBucket mc c b reg) w = (r1, w') \<Longrightarrow>
      (buckets c w b = None \<and> buckets c w' = (buckets c w)(b \<mapsto> {})) \<or>
      (r1 \<noteq> None \<and> buckets c w' = buckets c w)"
    and remove_bucket_law: "run_state (minio_RemoveBucket mc c b) w = (r1, w') \<Longrightarrow>
      (buckets c w b = Some {} \<and> buckets c w' = (buckets c w)(b := None)) \<or>
      (r1 \<noteq> None \<and> buckets c w' = buckets c w)"
    and list_law: "run_state (minio_ListObjects mc c b) w = (ms, w') \<Longrightarrow>
      buckets c w' = buckets c w \<and> (\<forall>ks. ms = map Inr ks \<longrightarrow> buckets c w b = Some (set ks))"
    and remove_objects_law: "run_state (minio_RemoveObjects mc c b ks) w = (es, w') \<Longrightarrow>
      \<exists>gone \<subseteq> set ks. (es = [] \<longrightarrow> gone = set ks) \<and>
        buckets c w' = (buckets c w)(b := map_option (\<lambda>s. s - gone) (buckets c w b))"
    and scheduled_law: "run_state (minio_scheduled mc) w = (ran1, w') \<Longrightarrow> buckets c w' = buckets c w"
begin

lemma bucketExists_run:
  "run_state (bucketExists mc cl b) w = (r, w') \<Longrightarrow> buckets (sc_minio cl) w' = buckets (sc_minio cl) w \<and>
     (\<forall>x. r = Inr x \<longrightarrow> x = (b \<in> dom (buckets (sc_minio cl) w)))"
  unfolding bucketExists_def by (rule exists_law)

lemma createBucket_run:
  "run_state (createBucket mc cl b) w = (r, w') \<Longrightarrow>
     (buckets (sc_minio cl) w b = None \<and> buckets (sc_minio cl) w' = (buckets (sc_minio cl) w)(b \<mapsto> {})) \<or>
     (r \<noteq> None \<and> buckets (sc_minio cl) w' = buckets (sc_minio cl) w)"
  unfolding createBucket_def by (rule make_law)

text \<open>Emptying a bucket touches no other bucket and never adds a key, whatever it answers.\<close>

lemma emptyBucket_run:
  assumes "run_state (emptyBucket mc cl b) w = (r, w')"
  shows "\<exists>gone. buckets (sc_minio cl) w' =
    (buckets (sc_minio cl) w)(b := map_option (\<lambda>s. s - gone) (buckets (sc_minio cl) w b))"
proof -
  let ?B = "buckets (sc_minio cl)"
  obtain ms w1 where l: "run_state (minio_ListObjects mc (sc_minio cl) b) w = (ms, w1)" by fastforce
  obtain raced w2 where s: "run_state (minio_scheduled mc) w1 = (raced, w2)" by fastforce
  have same: "?B w2 = ?B w" using list_law [OF l] scheduled_law [OF s] by metis
  show ?thesis
  proof (cases "early_error ms raced")
    case None
    obtain es w3 where o: "run_state (minio_RemoveObjects mc (sc_minio cl) b (keys_until_error ms)) w2 = (es, w3)"
      by fastforce
    then have "w' = w3" using assms l s None by (simp add: emptyBucket_def)
    then show ?thesis using remove_objects_law [OF o] same by auto
  next
    case (Some e)
    then have "w' = w2" using assms l s by (simp add: emptyBucket_def)
    then show ?thesis using same by (intro exI [of _ "{}"]) (simp add: option.map_ident fun_upd_idem)
  qed
qed

lemma removeBucket_run:
  assumes "run_state (removeBucket mc cl b) w = (r, w')"
  shows "(\<exists>gone. buckets (sc_minio cl) w' =
      (buckets (sc_minio cl) w)(b := map_option (\<lambda>s. s - gone) (buckets (sc_minio cl) w b))) \<and> r \<noteq> None \<or>
    buckets (sc_minio cl) w' = (buckets (sc_minio cl) w)(b := None)"
proof -
  obtain e w1 where e: "run_state (emptyBucket mc cl b) w = (e, w1)" by fastforce
  obtain gone where gone: "buckets (sc_minio cl) w1 =
      (buckets (sc_minio cl) w)(b := map_option (\<lambda>s. s - gone) (buckets (sc_minio cl) w b))"
    using emptyBucket_run [OF e] by blast
  show ?thesis
  proof (cases e)
    case None
    then have "run_state (minio_RemoveBucket mc (sc_minio cl) b) w1 = (r, w')"
      using assms e by (simp add: removeBucket_def)
    from remove_bucket_law [OF this] gone show ?thesis by auto
  next
    case (Some x)
    then have "r = Some x" and "w' = w1" using assms e by (auto simp: removeBucket_def)
    then show ?thesis using gone by blast
  qed
qed

end

section \<open>An in-memory store\<close>

text \<open>Each request consumes one entry of the fault schedule; one store serves every client.\<close>

record mem_store =
  ms_buckets :: "(string, string list) gomap"
  ms_faults :: "string option list"

definition store_request :: "(mem_store \<Rightarrow> 'a \<times> mem_store) \<Rightarrow> (string \<Rightarrow> 'a) \<Rightarrow> (mem_store, 'a) state" where
  "store_request f failed = State (\<lambda>w.
     case ms_faults w of
       [] \<Rightarrow> f w
     | None # fs \<Rightarrow> f (w\<lparr>ms_faults := fs\<rparr>)
     | Some e # fs \<Rightarrow> (failed e, w\<lparr>ms_faults := fs\<rparr>))"

definition mem_minio :: "(mem_store, string) minio_api" where
  "mem_minio =
     \<lparr>minio_NewWithRegion = (\<lambda>endpoint ak sk ssl reg.
        if endpoint = '''' then Inl ''Endpoint:  does not follow ip address or domain name standards.'' else Inr endpoint),
      minio_BucketExists = (\<lambda>c b. store_request (\<lambda>w. (Inr (mhas (ms_buckets w) b), w)) Inl),
      minio_MakeBucket = (\<lambda>c b reg. store_request (\<lambda>w.
        if mhas (ms_buckets w) b then (Some ''BucketAlreadyOwnedByYou'', w)
        else (None, w\<lparr>ms_buckets := mset_key b [] (ms_buckets w)\<rparr>)) Some),
      minio_RemoveBucket = (\<lambda>c b. store_request (\<lambda>w.
        case map_of (ms_buckets w) b of
          None \<Rightarrow> (Some ''NoSuchBucket'', w)
        | Some ks \<Rightarrow> if ks = [] then (None, w\<lparr>ms_buckets := mdelete b (ms_buckets w)\<rparr>)
                     else (Some ''BucketNotEmpty'', w)) Some),
      minio_ListObjects = (\<lambda>c b. store_request (\<lambda>w.
        (case map_of (ms_buckets w) b of None \<Rightarrow> [Inl ''NoSuchBucket''] | Some ks \<Rightarrow> map Inr ks, w)) (\<lambda>e. [Inl e])),
      minio_RemoveObjects = (\<lambda>c b ks. store_request (\<lambda>w.
        case map_of (ms_buckets w) b of
          None \<Rightarrow> ([], w)
        | Some s \<Rightarrow> ([], w\<lparr>ms_buckets := mset_key b (filter (\<lambda>k. k \<notin> set ks) s) (ms_buckets w)\<rparr>))
        (\<lambda>e. [('''', e)])),
      minio_GetObject = (\<lambda>c b k. store_request (\<lambda>w. (None, w)) Some),
      minio_scheduled = State_Monad.return False\<rparr>"

definition mem_buckets :: "string \<Rightarrow> mem_store \<Rightarrow> (string \<rightharpoonup> string set)" where
  "mem_buckets c w = (\<lambda>b. map_option set (map_of (ms_buckets w) b))"

lemma run_store_request:
  "run_state (store_request f failed) w = (r, w') \<Longrightarrow>
   (\<exists>e fs. r = failed e \<and> w' = w\<lparr>ms_faults := fs\<rparr>) \<or> (\<exists>fs. f (w\<lparr>ms_faults := fs\<rparr>) = (r, w'))"
proof -
  assume r: "run_state (store_request f failed) w = (r, w')"
  show ?thesis
  proof (cases "ms_faults w")
    case Nil
    then have "f w = (r, w')" and "w\<lparr>ms_faults := []\<rparr> = w" using r by (simp_all add: store_request_def)
    then show ?thesis by metis
  next
    case (Cons x fs)
    then show ?thesis using r by (cases x) (auto simp: store_request_def)
  qed
qed

lemma map_Inr_not_Inl [simp]: "[Inl e] \<noteq> map Inr ks" "map Inr ks \<noteq> [Inl e]"
  by (cases ks; simp)+

lemma map_Inr_eq [simp]: "map Inr ks = (map Inr ks' :: ('a + 'b) list) \<longleftrightarrow> ks = ks'"
  by (rule inj_map_eq_map) simp

interpretation mem_store: object_store mem_minio mem_buckets
proof
  fix c b w ks es w'
  assume "run_state (minio_RemoveObjects mem_minio c b ks) w = (es, w')"
  then show "\<exists>gone \<subseteq> set ks. (es = [] \<longrightarrow> gone = set ks) \<and>
      mem_buckets c w' = (mem_buckets c w)(b := map_option (\<lambda>s. s - gone) (mem_buckets c w b))"
    by (cases "map_of (ms_buckets w) b")
      (auto simp: mem_minio_def mem_buckets_def option.map_ident fun_upd_idem fun_eq_iff intro!: exI [of _ "if es = [] then set ks else {}"]
        dest!: run_store_request)
qed (auto simp: mem_minio_def mem_buckets_def mhas_def fun_eq_iff split: option.splits if_splits dest!: run_store_request)

end
