(* ===== verification/Os_Api.thy ===== *)
theory Os_Api
  imports Go_Strings
begin

text \<open>
  The operating system under the CSI drivers: the calls of Go's \<open>os\<close>, \<open>os/exec\<close>, \<open>ioutil\<close> and
  \<open>time\<close> packages and of the Kubernetes mount library that the drivers make.
  The system is a parameter: the record \<open>'w os_api\<close> of operations over an opaque world.  What the proofs rely on
  is in the locales \<open>host_mounts\<close> (mount points), \<open>mount_table\<close> (what is mounted at them), \<open>host_clock\<close> (time spent sleeping),
  \<open>host_files\<close> (contents of files) and \<open>host_programs\<close> (programs run).  The theory ends with an in-memory host that interprets them.
\<close>

section \<open>Errors\<close>

datatype os_error = ErrNotExist string | ErrPermission string | ErrOther string

definition os_IsNotExist :: "os_error \<Rightarrow> bool" where
  "os_IsNotExist e = (case e of ErrNotExist _ \<Rightarrow> True | _ \<Rightarrow> False)"

definition os_IsPermission :: "os_error \<Rightarrow> bool" where
  "os_IsPermission e = (case e of ErrPermission _ \<Rightarrow> True | _ \<Rightarrow> False)"

text \<open>\<open>err.Error()\<close>.\<close>

fun error_text :: "os_error \<Rightarrow> string" where
  "error_text (ErrNotExist s) = s" | "error_text (ErrPermission s) = s" | "error_text (ErrOther s) = s"

section \<open>Operations\<close>

datatype open_flag = O_RDWR | O_WRONLY | O_CREATE | O_APPEND

type_synonym handle = nat

text \<open>\<open>os_Exec\<close> is \<open>exec.Command(c, args).CombinedOutput()\<close>; durations are in nanoseconds.\<close>

record 'w os_api =
  os_IsLikelyNotMountPoint :: "string \<Rightarrow> ('w, os_error + bool) state"
  os_IsNotMountPoint :: "string \<Rightarrow> ('w, os_error + bool) state"
  os_Mount :: "string \<Rightarrow> string \<Rightarrow> string \<Rightarrow> string list \<Rightarrow> ('w, os_error option) state"
  os_Unmount :: "string \<Rightarrow> ('w, os_error option) state"
  os_CleanupMountPoint :: "string \<Rightarrow> ('w, os_error option) state"
  os_GetDiskFormat :: "string \<Rightarrow> ('w, os_error + string) state"
  os_MkdirAll :: "string \<Rightarrow> ('w, os_error option) state"
  os_Mkdir :: "string \<Rightarrow> ('w, os_error option) state"
  os_TempDir :: "('w, os_error + string) state"
  os_Stat :: "string \<Rightarrow> ('w, os_error option) state"
  os_OpenFile :: "string \<Rightarrow> open_flag list \<Rightarrow> ('w, os_error + handle) state"
  os_WriteString :: "handle \<Rightarrow> string \<Rightarrow> ('w, os_error option) state"
  os_Exec :: "string \<Rightarrow> string list \<Rightarrow> ('w, string \<times> os_error option) state"
  os_Setenv :: "string \<Rightarrow> string \<Rightarrow> ('w, unit) state"
  os_Getenv :: "string \<Rightarrow> ('w, string) state"
  os_Sleep :: "int \<Rightarrow> ('w, unit) state"
  os_Processes :: "('w, os_error + nat list) state"
  os_FindProcess :: "nat \<Rightarrow> ('w, os_error option) state"
  os_ReadFile :: "string \<Rightarrow> ('w, os_error + string) state"
  os_Signal0 :: "nat \<Rightarrow> ('w, os_error option) state"

section \<open>The contract of the host\<close>

text \<open>A write at the start of a file replaces its beginning; the rest stays.\<close>

definition overwrite :: "string \<Rightarrow> string \<Rightarrow> string" where
  "overwrite old s = s @ drop (length s) old"

text \<open>A handle that was just opened: its path and whether it appends.\<close>

type_synonym handles = "handle \<rightharpoonup> string \<times> bool"

text \<open>Mount points.  Running a program may mount anything, so nothing is assumed of \<open>os_Exec\<close>.\<close>

locale host_mounts =
  fixes os :: "'w os_api" and mounts :: "'w \<Rightarrow> string set"
  assumes likely: "run_state (os_IsLikelyNotMountPoint os p) w = (r, w') \<Longrightarrow>
      mounts w' = mounts w \<and> (r = Inr False \<longrightarrow> p \<in> mounts w)"
    and is_not_mount: "run_state (os_IsNotMountPoint os p) w = (r, w') \<Longrightarrow>
      mounts w' = mounts w \<and> (\<forall>b. r = Inr b \<longrightarrow> b = (p \<notin> mounts w))"
    and mount_call: "run_state (os_Mount os d p t fs) w = (r1, w') \<Longrightarrow>
      mounts w' = (if r1 = None then insert p (mounts w) else mounts w)"
    and unmount_call: "run_state (os_Unmount os p) w = (r1, w') \<Longrightarrow>
      mounts w' = (if r1 = None then mounts w - {p} else mounts w)"
    and cleanup_ok: "run_state (os_CleanupMountPoint os p) w = (None, w') \<Longrightarrow> mounts w' = mounts w - {p}"
    and cleanup_failed: "run_state (os_CleanupMountPoint os p) w = (Some e, w') \<Longrightarrow>
      mounts w' = mounts w \<or> mounts w' = mounts w - {p}"
    and mkdirall: "run_state (os_MkdirAll os p) w = (r1, w') \<Longrightarrow> mounts w' = mounts w"
    and tempdir: "run_state (os_TempDir os) w = (r2, w') \<Longrightarrow>
      mounts w' = mounts w \<and> (\<forall>d. r2 = Inr d \<longrightarrow> d \<notin> mounts w)"
    and sleep: "run_state (os_Sleep os n) w = (u, w') \<Longrightarrow> mounts w' = mounts w"
    and processes: "run_state (os_Processes os) w = (r3, w') \<Longrightarrow> mounts w' = mounts w"
    and find_process: "run_state (os_FindProcess os k) w = (r1, w') \<Longrightarrow> mounts w' = mounts w"
    and read_file: "run_state (os_ReadFile os p) w = (r2, w') \<Longrightarrow> mounts w' = mounts w"
    and signal0: "run_state (os_Signal0 os k) w = (r1, w') \<Longrightarrow> mounts w' = mounts w"

text \<open>
  What is mounted where.  A host that says this says in particular where the mount points are; running a program
  may still mount anything.
\<close>

record mount =
  mnt_source :: string
  mnt_fstype :: string
  mnt_options :: "string list"

locale mount_table =
  fixes os :: "'w os_api" and table :: "'w \<Rightarrow> (string \<rightharpoonup> mount)"
  assumes likely_table: "run_state (os_IsLikelyNotMountPoint os p) w = (r, w') \<Longrightarrow>
      table w' = table w \<and> (r = Inr False \<longrightarrow> table w p \<noteq> None)"
    and is_not_mount_table: "run_state (os_IsNotMountPoint os p) w = (r, w') \<Longrightarrow>
      table w' = table w \<and> (\<forall>b. r = Inr b \<longrightarrow> b = (table w p = None))"
    and mount_table_call: "run_state (os_Mount os d p t fs) w = (r1, w') \<Longrightarrow>
      table w' = (if r1 = None then (table w)(p \<mapsto> \<lparr>mnt_source = d, mnt_fstype = t, mnt_options = fs\<rparr>) else table w)"
    and unmount_table_call: "run_state (os_Unmount os p) w = (r1, w') \<Longrightarrow>
      table w' = (if r1 = None then (table w)(p := None) else table w)"
    and cleanup_table_ok: "run_state (os_CleanupMountPoint os p) w = (None, w') \<Longrightarrow> table w' = (table w)(p := None)"
    and cleanup_table_failed: "run_state (os_CleanupMountPoint os p) w = (Some e, w') \<Longrightarrow>
      table w' = table w \<or> table w' = (table w)(p := None)"
    and mkdirall_table: "run_state (os_MkdirAll os p) w = (r1, w') \<Longrightarrow> table w' = table w"
    and tempdir_table: "run_state (os_TempDir os) w = (r2, w') \<Longrightarrow>
      table w' = table w \<and> (\<forall>d. r2 = Inr d \<longrightarrow> table w d = None)"
    and sleep_table: "run_state (os_Sleep os n) w = (u, w') \<Longrightarrow> table w' = table w"
    and processes_table: "run_state (os_Processes os) w = (r3, w') \<Longrightarrow> table w' = table w"
    and find_process_table: "run_state (os_FindProcess os k) w = (r1, w') \<Longrightarrow> table w' = table w"
    and read_file_table: "run_state (os_ReadFile os p) w = (r2, w') \<Longrightarrow> table w' = table w"
    and signal0_table: "run_state (os_Signal0 os k) w = (r1, w') \<Longrightarrow> table w' = table w"

sublocale mount_table \<subseteq> host_mounts os "\<lambda>w. dom (table w)"
proof unfold_locales
  fix p r w w' assume "run_state (os_IsLikelyNotMountPoint os p) w = (r, w')"
  from likely_table [OF this] show "dom (table w') = dom (table w) \<and> (r = Inr False \<longrightarrow> p \<in> dom (table w))" by auto
next
  fix p r w w' assume "run_state (os_IsNotMountPoint os p) w = (r, w')"
  from is_not_mount_table [OF this] show "dom (table w') = dom (table w) \<and> (\<forall>b. r = Inr b \<longrightarrow> b = (p \<notin> dom (table w)))"
    by (simp add: domIff)
next
  fix p w e w' assume "run_state (os_CleanupMountPoint os p) w = (Some e, w')"
  from cleanup_table_failed [OF this] show "dom (table w') = dom (table w) \<or> dom (table w') = dom (table w) - {p}"
    by (elim disjE) simp_all
next
  fix w r w' assume "run_state (os_TempDir os) w = (r, w')"
  from tempdir_table [OF this] show "dom (table w') = dom (table w) \<and> (\<forall>d. r = Inr d \<longrightarrow> d \<notin> dom (table w))"
    by (simp add: domIff)
qed (simp_all add: mount_table_call unmount_table_call cleanup_table_ok mkdirall_table
    sleep_table processes_table find_process_table read_file_table signal0_table)

text \<open>The time a driver has slept, in nanoseconds; the calls it polls with do not sleep on its behalf.\<close>

locale host_clock =
  fixes os :: "'w os_api" and slept :: "'w \<Rightarrow> int"
  assumes slept_sleep: "run_state (os_Sleep os n) w = (u, w') \<Longrightarrow> slept w' = slept w + max 0 n"
    and slept_is_not_mount: "run_state (os_IsNotMountPoint os p) w = (r, w') \<Longrightarrow> slept w' = slept w"
    and slept_unmount: "run_state (os_Unmount os p) w = (r1, w') \<Longrightarrow> slept w' = slept w"
    and slept_processes: "run_state (os_Processes os) w = (r3, w') \<Longrightarrow> slept w' = slept w"
    and slept_find: "run_state (os_FindProcess os k) w = (r1, w') \<Longrightarrow> slept w' = slept w"
    and slept_read_file: "run_state (os_ReadFile os p) w = (r2, w') \<Longrightarrow> slept w' = slept w"
    and slept_signal: "run_state (os_Signal0 os k) w = (r1, w') \<Longrightarrow> slept w' = slept w"

text \<open>Files.  \<open>home\<close> is the value of the variable \<open>HOME\<close>.\<close>

locale host_files =
  fixes os :: "'w os_api" and home :: "'w \<Rightarrow> string" and files :: "'w \<Rightarrow> (string \<rightharpoonup> string)"
    and opened :: "'w \<Rightarrow> handles"
  assumes getenv_home: "run_state (os_Getenv os ''HOME'') w = (s, w') \<Longrightarrow>
      s = home w \<and> home w' = home w \<and> files w' = files w"
    and stat_files: "run_state (os_Stat os p) w = (r1, w') \<Longrightarrow> files w' = files w \<and> home w' = home w"
    and mkdir_files: "run_state (os_Mkdir os p) w = (r1, w') \<Longrightarrow> files w' = files w \<and> home w' = home w"
    and open_ok: "run_state (os_OpenFile os p fl) w = (Inr h, w') \<Longrightarrow>
      opened w' h = Some (p, O_APPEND \<in> set fl) \<and>
      (case files w p of Some c \<Rightarrow> files w' = files w
       | None \<Rightarrow> O_CREATE \<in> set fl \<and> files w' = (files w)(p \<mapsto> ''''))"
    and write_ok: "run_state (os_WriteString os h s) w = (None, w') \<Longrightarrow> opened w h = Some (p, a) \<Longrightarrow>
      files w p = Some c \<Longrightarrow> files w' = (files w)(p \<mapsto> (if a then c @ s else overwrite c s))"

text \<open>The programs that were run, with their arguments, in their order; the other calls of a mounter run none.\<close>

locale host_programs =
  fixes os :: "'w os_api" and programs :: "'w \<Rightarrow> (string \<times> string list) list"
  assumes programs_exec: "run_state (os_Exec os c args) w = (r4, w') \<Longrightarrow> programs w' = programs w @ [(c, args)]"
    and programs_likely: "run_state (os_IsLikelyNotMountPoint os p) w = (r, w') \<Longrightarrow> programs w' = programs w"
    and programs_is_not_mount: "run_state (os_IsNotMountPoint os p) w = (r, w') \<Longrightarrow> programs w' = programs w"
    and programs_mkdirall: "run_state (os_MkdirAll os p) w = (r1, w') \<Longrightarrow> programs w' = programs w"
    and programs_mkdir: "run_state (os_Mkdir os p) w = (r1, w') \<Longrightarrow> programs w' = programs w"
    and programs_getenv: "run_state (os_Getenv os v) w = (s, w') \<Longrightarrow> programs w' = programs w"
    and programs_setenv: "run_state (os_Setenv os v s) w = (u, w') \<Longrightarrow> programs w' = programs w"
    and programs_stat: "run_state (os_Stat os p) w = (r1, w') \<Longrightarrow> programs w' = programs w"
    and programs_open: "run_state (os_OpenFile os p fl) w = (r5, w') \<Longrightarrow> programs w' = programs w"
    and programs_write: "run_state (os_WriteString os h s) w = (r1, w') \<Longrightarrow> programs w' = programs w"
    and programs_sleep: "run_state (os_Sleep os n) w = (u, w') \<Longrightarrow> programs w' = programs w"

section \<open>An in-memory host\<close>

text \<open>
  A host whose programs are a function: \<open>program c args\<close> is the mount point that running \<open>c\<close> creates,
  or \<open>None\<close> when the program fails.  Each fallible request consumes one entry of the fault schedule.
\<close>

record mem_host =
  mh_table :: "string \<rightharpoonup> mount"
  mh_files :: "string \<rightharpoonup> string"
  mh_opened :: handles
  mh_env :: "string \<Rightarrow> string"
  mh_log :: "(string \<times> string list) list"
  mh_slept :: int
  mh_procs :: "nat list"
  mh_cmdlines :: smap
  mh_faults :: "os_error option list"

abbreviation mh_mounts :: "mem_host \<Rightarrow> string set" where
  "mh_mounts w \<equiv> dom (mh_table w)"

definition host_request :: "(mem_host \<Rightarrow> 'a \<times> mem_host) \<Rightarrow> (mem_host, os_error + 'a) state" where
  "host_request f = State (\<lambda>w.
     case mh_faults w of
       [] \<Rightarrow> (Inr (fst (f w)), snd (f w))
     | None # fs \<Rightarrow> (Inr (fst (f (w\<lparr>mh_faults := fs\<rparr>))), snd (f (w\<lparr>mh_faults := fs\<rparr>)))
     | Some e # fs \<Rightarrow> (Inl e, w\<lparr>mh_faults := fs\<rparr>))"

definition host_effect :: "(mem_host \<Rightarrow> mem_host) \<Rightarrow> (mem_host, os_error option) state" where
  "host_effect f = do {
     r \<leftarrow> host_request (\<lambda>w. ((), f w));
     State_Monad.return (case r of Inl e \<Rightarrow> Some e | Inr _ \<Rightarrow> None)
   }"

definition mem_os :: "(string \<Rightarrow> string list \<Rightarrow> string option) \<Rightarrow> mem_host os_api" where
  "mem_os program =
     \<lparr>os_IsLikelyNotMountPoint = (\<lambda>p. host_request (\<lambda>w. (mh_table w p = None, w))),
      os_IsNotMountPoint = (\<lambda>p. host_request (\<lambda>w. (mh_table w p = None, w))),
      os_Mount = (\<lambda>d p t fs. host_effect (\<lambda>w.
        w\<lparr>mh_table := (mh_table w)(p \<mapsto> \<lparr>mnt_source = d, mnt_fstype = t, mnt_options = fs\<rparr>)\<rparr>)),
      os_Unmount = (\<lambda>p. host_effect (\<lambda>w. w\<lparr>mh_table := (mh_table w)(p := None)\<rparr>)),
      os_CleanupMountPoint = (\<lambda>p. host_effect (\<lambda>w. w\<lparr>mh_table := (mh_table w)(p := None)\<rparr>)),
      os_GetDiskFormat = (\<lambda>d. host_request (\<lambda>w. ('''', w))),
      os_MkdirAll = (\<lambda>p. host_effect id), os_Mkdir = (\<lambda>p. host_effect id),
      os_TempDir = State (\<lambda>w. (if mh_table w ''/tmp/0'' = None then Inr ''/tmp/0'' else Inl (ErrOther ''file exists''), w)),
      os_Stat = (\<lambda>p. State (\<lambda>w. (if p \<in> dom (mh_files w) then None else Some (ErrNotExist p), w))),
      os_OpenFile = (\<lambda>p fl. State (\<lambda>w.
        case mh_files w p of
          Some _ \<Rightarrow> (Inr 0, w\<lparr>mh_opened := [0 \<mapsto> (p, O_APPEND \<in> set fl)]\<rparr>)
        | None \<Rightarrow>
            if O_CREATE \<in> set fl then
              (Inr 0, w\<lparr>mh_opened := [0 \<mapsto> (p, O_APPEND \<in> set fl)], mh_files := (mh_files w)(p \<mapsto> '''')\<rparr>)
            else (Inl (ErrNotExist p), w))),
      os_WriteString = (\<lambda>h s. State (\<lambda>w.
        case mh_opened w h of
          Some (p, a) \<Rightarrow> (None, w\<lparr>mh_opened := (mh_opened w)(h := None),
            mh_files := (mh_files w)(p \<mapsto>
              (case mh_files w p of None \<Rightarrow> s | Some c \<Rightarrow> if a then c @ s else overwrite c s))\<rparr>)
        | None \<Rightarrow> (Some (ErrOther ''closed''), w))),
      os_Exec = (\<lambda>c args. State (\<lambda>w.
        case program c args of
          Some p \<Rightarrow> (('''', None), w\<lparr>mh_table := (mh_table w)(p \<mapsto>
              \<lparr>mnt_source = c, mnt_fstype = ''fuse'', mnt_options = args\<rparr>), mh_log := mh_log w @ [(c, args)]\<rparr>)
        | None \<Rightarrow> ((''failed'', Some (ErrOther ''exit status 1'')), w\<lparr>mh_log := mh_log w @ [(c, args)]\<rparr>))),
      os_Setenv = (\<lambda>v s. State (\<lambda>w. ((), w\<lparr>mh_env := (mh_env w)(v := s)\<rparr>))),
      os_Getenv = (\<lambda>v. State (\<lambda>w. (mh_env w v, w))),
      os_Sleep = (\<lambda>n. State (\<lambda>w. ((), w\<lparr>mh_slept := mh_slept w + max 0 n\<rparr>))),
      os_Processes = host_request (\<lambda>w. (mh_procs w, w)),
      os_FindProcess = (\<lambda>n. host_effect id), os_ReadFile = (\<lambda>p. host_request (\<lambda>w. (mget (mh_cmdlines w) p, w))),
      os_Signal0 = (\<lambda>n. host_effect id)\<rparr>"

definition idle_host :: mem_host where
  "idle_host = \<lparr>mh_table = Map.empty, mh_files = Map.empty, mh_opened = Map.empty, mh_env = (\<lambda>_. ''''),
     mh_log = [], mh_slept = 0, mh_procs = [], mh_cmdlines = [], mh_faults = []\<rparr>"

lemma run_host_request:
  "run_state (host_request f) w = (r, w') \<Longrightarrow>
   (\<exists>e fs. mh_faults w = Some e # fs \<and> r = Inl e \<and> w' = w\<lparr>mh_faults := fs\<rparr>) \<or>
   (\<exists>fs. r = Inr (fst (f (w\<lparr>mh_faults := fs\<rparr>))) \<and> w' = snd (f (w\<lparr>mh_faults := fs\<rparr>)))"
proof -
  assume r: "run_state (host_request f) w = (r, w')"
  show ?thesis
  proof (cases "mh_faults w")
    case Nil
    then have w: "w\<lparr>mh_faults := []\<rparr> = w" by simp
    show ?thesis using r Nil by (intro disjI2 exI [of _ "[]"]) (simp add: host_request_def w)
  next
    case (Cons x fs)
    then show ?thesis using r by (cases x) (auto simp: host_request_def)
  qed
qed

lemma run_host_effect:
  "run_state (host_effect f) w = (r, w') \<Longrightarrow>
   (\<exists>e fs. r = Some e \<and> w' = w\<lparr>mh_faults := fs\<rparr>) \<or> (\<exists>fs. r = None \<and> w' = f (w\<lparr>mh_faults := fs\<rparr>))"
  by (auto simp: host_effect_def split: prod.splits dest!: run_host_request)

interpretation mem_mounts: mount_table "mem_os program" mh_table
  by unfold_locales
    (auto simp: mem_os_def dest!: run_host_request run_host_effect split: option.splits if_splits)

interpretation mem_clock: host_clock "mem_os program" mh_slept
  by unfold_locales
    (auto simp: mem_os_def dest!: run_host_request run_host_effect split: option.splits if_splits)

interpretation mem_files: host_files "mem_os program" "\<lambda>w. mh_env w ''HOME''" mh_files mh_opened
  by unfold_locales
    (auto simp: mem_os_def dest!: run_host_request run_host_effect split: option.splits if_splits)

interpretation mem_programs: host_programs "mem_os program" mh_log
  by unfold_locales
    (auto simp: mem_os_def dest!: run_host_request run_host_effect split: option.splits if_splits)

end
