(* ===== verification/S3_Mounter.thy ===== *)
theory S3_Mounter
  imports S3_Store Os_Api "HOL-Library.Word"
begin

text \<open>
  The mounters of the S3 driver (\<open>csi-s3/pkg/s3/mounter.go\<close>, \<open>mounter_s3fs.go\<close>, \<open>mounter_goofys.go\<close>,
  \<open>mounter_s3backer.go\<close>, \<open>mounter_rclone.go\<close>, \<open>util.go\<close>).  The Go interface \<open>Mounter\<close> with its four
  implementations is the datatype \<open>mounter\<close>.  Errors are given by their text.  Durations are in
  nanoseconds; the \<open>int\<close> of the backoff and the product that is slept keep their 64 bits.
\<close>

section \<open>Waiting and processes (\<open>util.go\<close>)\<close>

definition getCmdLine :: "'w os_api \<Rightarrow> nat \<Rightarrow> ('w, os_error + string) state" where
  "getCmdLine os pid = os_ReadFile os (''/proc/'' @ Itoa (int pid) @ ''/cmdline'')"

definition millisecond :: int where "millisecond = 1000000"

lemma unat_distance_less:
  fixes a b :: "'a::len word"
  assumes "a \<noteq> b"
  shows "unat (b - (a + 1)) < unat (b - a)"
proof -
  have "b - a \<noteq> 0" using assms by simp
  then have "unat (b - a - 1) < unat (b - a)" by (simp add: unat_minus_one unat_gt_0)
  then show ?thesis by (simp add: diff_diff_eq)
qed

function waitForProcess :: "'w os_api \<Rightarrow> nat \<Rightarrow> 64 word \<Rightarrow> ('w, string option) state" where
  "waitForProcess os pid backoff =
     (if backoff = 20 then
        State_Monad.return (Some (''Timeout waiting for PID '' @ Itoa (int pid) @ '' to end''))
      else do {
        r \<leftarrow> getCmdLine os pid;
        case r of
          Inl err \<Rightarrow> State_Monad.return None
        | Inr cmdLine \<Rightarrow>
            if cmdLine = '''' then State_Monad.return None
            else do {
              e \<leftarrow> os_Signal0 os pid;
              case e of
                Some err \<Rightarrow> State_Monad.return None
              | None \<Rightarrow> do {
                  _ \<leftarrow> os_Sleep os (sint (backoff * 100 * 1000000));
                  waitForProcess os pid (backoff + 1)
                }
            }
      })"
  by pat_completeness auto

termination
  by (relation "measure (\<lambda>(os, pid, backoff). unat (20 - backoff))") (auto dest!: unat_distance_less)

declare waitForProcess.simps [simp del]

function waitForMount_loop :: "'w os_api \<Rightarrow> string \<Rightarrow> int \<Rightarrow> int \<Rightarrow> ('w, string option) state" where
  "waitForMount_loop os path timeout elapsed = do {
     r \<leftarrow> os_IsNotMountPoint os path;
     case r of
       Inl err \<Rightarrow> State_Monad.return (Some (error_text err))
     | Inr notMount \<Rightarrow>
         if \<not> notMount then State_Monad.return None
         else do {
           _ \<leftarrow> os_Sleep os (10 * millisecond);
           if elapsed + 10 * millisecond \<ge> timeout then State_Monad.return (Some ''Timeout waiting for mount'')
           else waitForMount_loop os path timeout (elapsed + 10 * millisecond)
         }
   }"
  by pat_completeness auto

termination
  by (relation "measure (\<lambda>(os, path, timeout, elapsed). nat (timeout - elapsed))") (auto simp: millisecond_def)

declare waitForMount_loop.simps [simp del]

definition waitForMount :: "'w os_api \<Rightarrow> string \<Rightarrow> int \<Rightarrow> ('w, string option) state" where
  "waitForMount os path timeout = waitForMount_loop os path timeout 0"

fun find_process_loop :: "'w os_api \<Rightarrow> string \<Rightarrow> nat list \<Rightarrow> ('w, os_error + nat option) state" where
  "find_process_loop os path [] = State_Monad.return (Inr None)"
| "find_process_loop os path (p # ps) = do {
     r \<leftarrow> getCmdLine os p;
     case r of
       Inl err \<Rightarrow> find_process_loop os path ps
     | Inr cmdLine \<Rightarrow>
         if Contains cmdLine path then do {
           e \<leftarrow> os_FindProcess os p;
           State_Monad.return (case e of Some err \<Rightarrow> Inl err | None \<Rightarrow> Inr (Some p))
         }
         else find_process_loop os path ps
   }"

definition findFuseMountProcess :: "'w os_api \<Rightarrow> string \<Rightarrow> ('w, os_error + nat option) state" where
  "findFuseMountProcess os path = do {
     r \<leftarrow> os_Processes os;
     case r of Inl err \<Rightarrow> State_Monad.return (Inl err) | Inr processes \<Rightarrow> find_process_loop os path processes
   }"

definition createLoopDevice :: "'w os_api \<Rightarrow> string \<Rightarrow> ('w, string option) state" where
  "createLoopDevice os device = do {
     e \<leftarrow> os_Stat os device;
     if \<not> (case e of None \<Rightarrow> False | Some err \<Rightarrow> os_IsNotExist err) then State_Monad.return None
     else do {
       r \<leftarrow> os_Exec os ''mknod'' [device, ''b'', ''7'', ''0''];
       State_Monad.return (case snd r of
         None \<Rightarrow> None | Some err \<Rightarrow> Some (''Error configuring loop device: '' @ fst r))
     }
   }"

section \<open>Fuse mounts (\<open>mounter.go\<close>)\<close>

text \<open>\<open>%s\<close> of a slice of strings.\<close>

definition show_args :: "string list \<Rightarrow> string" where
  "show_args args = ''['' @ join_with (CHR '' '') args @ '']''"

definition newline :: string where "newline = [char_of (10 :: nat)]"

definition fuseMount :: "'w os_api \<Rightarrow> string \<Rightarrow> string \<Rightarrow> string list \<Rightarrow> ('w, string option) state" where
  "fuseMount os path command args = do {
     r \<leftarrow> os_Exec os command args;
     case snd r of
       Some err \<Rightarrow> State_Monad.return (Some (''Error fuseMount command: '' @ command @ newline @
         ''args: '' @ show_args args @ newline @ ''output: '' @ fst r))
     | None \<Rightarrow> waitForMount os path (10 * 1000 * millisecond)
   }"

definition fuseUnmount :: "'w os_api \<Rightarrow> string \<Rightarrow> ('w, string option) state" where
  "fuseUnmount os path = do {
     e \<leftarrow> os_Unmount os path;
     case e of
       Some err \<Rightarrow> State_Monad.return (Some (error_text err))
     | None \<Rightarrow> do {
         r \<leftarrow> findFuseMountProcess os path;
         case r of
           Inl err \<Rightarrow> State_Monad.return None
         | Inr None \<Rightarrow> State_Monad.return None
         | Inr (Some process) \<Rightarrow> waitForProcess os process 1
       }
   }"

section \<open>The four mounters\<close>

record bucket =
  bk_Name :: string
  bk_Folder :: string
  bk_Mounter :: string

record s3fsMounter =
  s3fs_bucket :: bucket
  s3fs_readonly :: bool
  s3fs_url :: string
  s3fs_region :: string
  s3fs_pwFileContent :: string

record goofysMounter =
  goofys_bucket :: bucket
  goofys_endpoint :: string
  goofys_region :: string
  goofys_accessKeyID :: string
  goofys_secretAccessKey :: string
  goofys_volumeID :: string
  goofys_readonly :: bool

record s3backerMounter =
  s3backer_bucket :: bucket
  s3backer_url :: string
  s3backer_region :: string
  s3backer_accessKeyID :: string
  s3backer_secretAccessKey :: string
  s3backer_ssl :: bool

record rcloneMounter =
  rclone_bucket :: bucket
  rclone_url :: string
  rclone_region :: string
  rclone_accessKeyID :: string
  rclone_secretAccessKey :: string

datatype mounter = S3fs s3fsMounter | Goofys goofysMounter | S3backer s3backerMounter | Rclone rcloneMounter

subsection \<open>s3fs\<close>

definition newS3fsMounter :: "bucket \<Rightarrow> Config \<Rightarrow> s3fsMounter" where
  "newS3fsMounter b cfg =
     \<lparr>s3fs_bucket = b, s3fs_readonly = Readonly cfg, s3fs_url = Endpoint cfg, s3fs_region = Region cfg,
      s3fs_pwFileContent = AccessKeyID cfg @ '':'' @ SecretAccessKey cfg\<rparr>"

definition writes3fsPass :: "'w os_api \<Rightarrow> string \<Rightarrow> ('w, string option) state" where
  "writes3fsPass os pwFileContent = do {
     home \<leftarrow> os_Getenv os ''HOME'';
     r \<leftarrow> os_OpenFile os (home @ ''/.passwd-s3fs'') [O_RDWR, O_CREATE];
     case r of
       Inl err \<Rightarrow> State_Monad.return (Some (error_text err))
     | Inr pwFile \<Rightarrow> do {
         e \<leftarrow> os_WriteString os pwFile pwFileContent;
         State_Monad.return (map_option error_text e)
       }
   }"

definition s3fs_args :: "s3fsMounter \<Rightarrow> string \<Rightarrow> string list" where
  "s3fs_args s3fs target =
     [bk_Name (s3fs_bucket s3fs), target, ''-o'', ''use_path_request_style'', ''-o'', ''url='' @ s3fs_url s3fs,
      ''-o'', ''endpoint='' @ s3fs_region s3fs, ''-o'', ''allow_other'', ''-o'', ''umask=0000''] @
     (if s3fs_readonly s3fs then [''-o'', ''ro''] else [])"

definition s3fs_Mount :: "'w os_api \<Rightarrow> s3fsMounter \<Rightarrow> string \<Rightarrow> string \<Rightarrow> ('w, string option) state" where
  "s3fs_Mount os s3fs source target = do {
     e \<leftarrow> writes3fsPass os (s3fs_pwFileContent s3fs);
     case e of
       Some err \<Rightarrow> State_Monad.return (Some err)
     | None \<Rightarrow> fuseMount os target ''s3fs'' (s3fs_args s3fs target)
   }"

subsection \<open>goofys\<close>

definition newGoofysMounter :: "bucket \<Rightarrow> Config \<Rightarrow> string \<Rightarrow> goofysMounter" where
  "newGoofysMounter b cfg volume =
     \<lparr>goofys_bucket = b, goofys_endpoint = Endpoint cfg, goofys_region = Region cfg,
      goofys_accessKeyID = AccessKeyID cfg, goofys_secretAccessKey = SecretAccessKey cfg,
      goofys_volumeID = volume, goofys_readonly = Readonly cfg\<rparr>"

definition goofys_profile :: "goofysMounter \<Rightarrow> string" where
  "goofys_profile goofys =
     ''['' @ goofys_volumeID goofys @ '']'' @ newline @ ''aws_access_key_id = '' @ goofys_accessKeyID goofys @ newline @
     ''aws_secret_access_key ='' @ goofys_secretAccessKey goofys @ newline"

text \<open>Errors of opening and writing the file are logged only; writing to the nil file of a failed open fails.\<close>

definition append_profile :: "'w os_api \<Rightarrow> goofysMounter \<Rightarrow> ('w, string option) state" where
  "append_profile os goofys = do {
     home \<leftarrow> os_Getenv os ''HOME'';
     r \<leftarrow> os_OpenFile os (home @ ''/.aws/credentials'') [O_APPEND, O_CREATE, O_WRONLY];
     case r of
       Inl err \<Rightarrow> State_Monad.return None
     | Inr f \<Rightarrow> do {
         _ \<leftarrow> os_WriteString os f (goofys_profile goofys);
         State_Monad.return None
       }
   }"

definition writes3fsPassGoofy :: "'w os_api \<Rightarrow> goofysMounter \<Rightarrow> ('w, string option) state" where
  "writes3fsPassGoofy os goofys = do {
     home \<leftarrow> os_Getenv os ''HOME'';
     e \<leftarrow> os_Stat os (home @ ''/.aws'');
     if (case e of None \<Rightarrow> False | Some err \<Rightarrow> os_IsNotExist err) then do {
       mkdir_err \<leftarrow> os_Mkdir os (home @ ''/.aws'');
       case mkdir_err of
         Some err \<Rightarrow> State_Monad.return (Some (error_text err))
       | None \<Rightarrow> append_profile os goofys
     }
     else append_profile os goofys
   }"

definition goofys_args :: "goofysMounter \<Rightarrow> string \<Rightarrow> string list" where
  "goofys_args goofys target =
     [''--endpoint='' @ goofys_endpoint goofys, ''--type-cache-ttl'', ''1s'', ''--stat-cache-ttl'', ''1s'',
      ''--dir-mode'', ''0777'', ''--file-mode'', ''0777'', ''--http-timeout'', ''5m'', ''-o'', ''allow_other''] @
     (if goofys_accessKeyID goofys \<noteq> '''' \<and> goofys_secretAccessKey goofys \<noteq> '''' then
        [''--profile='' @ goofys_volumeID goofys] else []) @
     (if goofys_region goofys \<noteq> '''' then [''--region'', goofys_region goofys] else []) @
     (if goofys_readonly goofys then [''-o'', ''ro''] else []) @
     (if bk_Folder (goofys_bucket goofys) = '''' then [bk_Name (goofys_bucket goofys), target]
      else [bk_Name (goofys_bucket goofys) @ '':'' @ bk_Folder (goofys_bucket goofys), target])"

definition goofys_Mount :: "'w os_api \<Rightarrow> goofysMounter \<Rightarrow> string \<Rightarrow> string \<Rightarrow> ('w, string option) state" where
  "goofys_Mount os goofys source target = do {
     e \<leftarrow> writes3fsPassGoofy os goofys;
     case e of
       Some err \<Rightarrow> State_Monad.return (Some err)
     | None \<Rightarrow> fuseMount os target ''goofys'' (goofys_args goofys target)
   }"

subsection \<open>s3backer\<close>

definition S3backerLoopDevice :: string where "S3backerLoopDevice = ''/dev/loop0''"

definition s3backer_writePasswd :: "'w os_api \<Rightarrow> s3backerMounter \<Rightarrow> ('w, string option) state" where
  "s3backer_writePasswd os s3backer = do {
     home \<leftarrow> os_Getenv os ''HOME'';
     r \<leftarrow> os_OpenFile os (home @ ''/.s3backer_passwd'') [O_RDWR, O_CREATE];
     case r of
       Inl err \<Rightarrow> State_Monad.return (Some (error_text err))
     | Inr pwFile \<Rightarrow> do {
         e \<leftarrow> os_WriteString os pwFile (s3backer_accessKeyID s3backer @ '':'' @ s3backer_secretAccessKey s3backer);
         State_Monad.return (map_option error_text e)
       }
   }"

text \<open>The path that is joined to the parsed URL is not read again: the mounter keeps the endpoint of the configuration.\<close>

definition newS3backerMounter ::
  "'w os_api \<Rightarrow> url_parser \<Rightarrow> bucket \<Rightarrow> Config \<Rightarrow> ('w, string + s3backerMounter) state" where
  "newS3backerMounter os parse b cfg =
     (case parse (Endpoint cfg) of
        Inl err \<Rightarrow> State_Monad.return (Inl err)
      | Inr url \<Rightarrow> do {
          let s3backer = \<lparr>s3backer_bucket = b, s3backer_url = Endpoint cfg, s3backer_region = Region cfg,
            s3backer_accessKeyID = AccessKeyID cfg, s3backer_secretAccessKey = SecretAccessKey cfg,
            s3backer_ssl = (url_Scheme url = ''https'')\<rparr>;
          e \<leftarrow> s3backer_writePasswd os s3backer;
          State_Monad.return (case e of Some err \<Rightarrow> Inl err | None \<Rightarrow> Inr s3backer)
        })"

definition s3backer_String :: "s3backerMounter \<Rightarrow> string" where
  "s3backer_String s3backer = bk_Name (s3backer_bucket s3backer)"

definition s3backer_args :: "s3backerMounter \<Rightarrow> string \<Rightarrow> string list" where
  "s3backer_args s3backer path =
     [''--blockSize=128k'', ''--listBlocks'', bk_Name (s3backer_bucket s3backer), path] @
     (if s3backer_region s3backer \<noteq> '''' then [''--region='' @ s3backer_region s3backer]
      else [''--baseURL='' @ s3backer_url s3backer @ ''/'']) @
     (if s3backer_ssl s3backer then [''--ssl''] else [])"

definition mountInit :: "'w os_api \<Rightarrow> s3backerMounter \<Rightarrow> string \<Rightarrow> ('w, string option) state" where
  "mountInit os s3backer path = fuseMount os path ''s3backer'' (s3backer_args s3backer path)"

definition formatFs :: "'w os_api \<Rightarrow> string \<Rightarrow> string \<Rightarrow> ('w, string option) state" where
  "formatFs os fsType device = do {
     r \<leftarrow> os_GetDiskFormat os device;
     case r of
       Inl err \<Rightarrow> State_Monad.return (Some (error_text err))
     | Inr format \<Rightarrow>
         if format \<noteq> '''' then State_Monad.return None
         else do {
           out \<leftarrow> os_Exec os (''mkfs.'' @ fsType) [device];
           State_Monad.return (case snd out of
             Some err \<Rightarrow> Some (''Error formatting disk: '' @ fst out) | None \<Rightarrow> None)
         }
   }"

definition s3backer_Stage :: "'w os_api \<Rightarrow> s3backerMounter \<Rightarrow> string \<Rightarrow> ('w, string option) state" where
  "s3backer_Stage os s3backer stageTarget = do {
     e \<leftarrow> createLoopDevice os S3backerLoopDevice;
     case e of
       Some err \<Rightarrow> State_Monad.return (Some err)
     | None \<Rightarrow> do {
         e2 \<leftarrow> mountInit os s3backer stageTarget;
         case e2 of
           Some err \<Rightarrow> State_Monad.return (Some err)
         | None \<Rightarrow> do {
             err \<leftarrow> formatFs os ''xfs'' (path_Join [stageTarget, ''file'']);
             case err of
               None \<Rightarrow> State_Monad.return None
             | Some _ \<Rightarrow> do { _ \<leftarrow> fuseUnmount os stageTarget; State_Monad.return err }
           }
       }
   }"

definition s3backer_Mount :: "'w os_api \<Rightarrow> s3backerMounter \<Rightarrow> string \<Rightarrow> string \<Rightarrow> ('w, string option) state" where
  "s3backer_Mount os s3backer source target = do {
     e \<leftarrow> os_Mount os (path_Join [source, ''file'']) target ''xfs'' [];
     case e of
       None \<Rightarrow> State_Monad.return None
     | Some err \<Rightarrow> do { _ \<leftarrow> fuseUnmount os target; State_Monad.return (Some (error_text err)) }
   }"

subsection \<open>rclone\<close>

definition newRcloneMounter :: "bucket \<Rightarrow> Config \<Rightarrow> rcloneMounter" where
  "newRcloneMounter b cfg =
     \<lparr>rclone_bucket = b, rclone_url = Endpoint cfg, rclone_region = Region cfg,
      rclone_accessKeyID = AccessKeyID cfg, rclone_secretAccessKey = SecretAccessKey cfg\<rparr>"

definition rclone_args :: "rcloneMounter \<Rightarrow> string \<Rightarrow> string list" where
  "rclone_args rclone target =
     [''mount'', '':s3:'' @ bk_Name (rclone_bucket rclone) @ ''/'' @ ''/'', target, ''--daemon'', ''--s3-provider=AWS'',
      ''--s3-env-auth=true'', ''--s3-region='' @ rclone_region rclone, ''--s3-endpoint='' @ rclone_url rclone,
      ''--allow-other'', ''--vfs-cache-mode=writes'']"

definition rclone_Mount :: "'w os_api \<Rightarrow> rcloneMounter \<Rightarrow> string \<Rightarrow> string \<Rightarrow> ('w, string option) state" where
  "rclone_Mount os rclone source target = do {
     _ \<leftarrow> os_Setenv os ''AWS_ACCESS_KEY_ID'' (rclone_accessKeyID rclone);
     _ \<leftarrow> os_Setenv os ''AWS_SECRET_ACCESS_KEY'' (rclone_secretAccessKey rclone);
     fuseMount os target ''rclone'' (rclone_args rclone target)
   }"

section \<open>The interface\<close>

definition mounter_Stage :: "'w os_api \<Rightarrow> mounter \<Rightarrow> string \<Rightarrow> ('w, string option) state" where
  "mounter_Stage os m stagePath = (case m of
     S3fs _ \<Rightarrow> State_Monad.return None | Goofys _ \<Rightarrow> State_Monad.return None
   | S3backer s3backer \<Rightarrow> s3backer_Stage os s3backer stagePath | Rclone _ \<Rightarrow> State_Monad.return None)"

definition mounter_Unstage :: "'w os_api \<Rightarrow> mounter \<Rightarrow> string \<Rightarrow> ('w, string option) state" where
  "mounter_Unstage os m stagePath = (case m of
     S3fs _ \<Rightarrow> State_Monad.return None | Goofys _ \<Rightarrow> State_Monad.return None
   | S3backer _ \<Rightarrow> fuseUnmount os stagePath | Rclone _ \<Rightarrow> State_Monad.return None)"

definition mounter_Mount :: "'w os_api \<Rightarrow> mounter \<Rightarrow> string \<Rightarrow> string \<Rightarrow> ('w, string option) state" where
  "mounter_Mount os m source target = (case m of
     S3fs s3fs \<Rightarrow> s3fs_Mount os s3fs source target | Goofys goofys \<Rightarrow> goofys_Mount os goofys source target
   | S3backer s3backer \<Rightarrow> s3backer_Mount os s3backer source target
   | Rclone rclone \<Rightarrow> rclone_Mount os rclone source target)"

definition newMounter :: "'w os_api \<Rightarrow> url_parser \<Rightarrow> bucket \<Rightarrow> Config \<Rightarrow> string \<Rightarrow> ('w, string + mounter) state" where
  "newMounter os parse b cfg volumeId =
     (let mounter = if length (bk_Mounter b) = 0 then Mounter cfg else bk_Mounter b in
      if mounter = ''s3fs'' then State_Monad.return (Inr (S3fs (newS3fsMounter b cfg)))
      else if mounter = ''goofys'' then State_Monad.return (Inr (Goofys (newGoofysMounter b cfg volumeId)))
      else if mounter = ''s3backer'' then do {
        r \<leftarrow> newS3backerMounter os parse b cfg;
        State_Monad.return (map_sum id S3backer r)
      }
      else if mounter = ''rclone'' then State_Monad.return (Inr (Rclone (newRcloneMounter b cfg)))
      else State_Monad.return (Inr (S3fs (newS3fsMounter b cfg))))"

section \<open>What mounting and unmounting achieve\<close>

text \<open>One turn of the loop of \<open>waitForMount\<close>, and of the recursion of \<open>waitForProcess\<close>.\<close>

lemma run_waitForMount_loop:
  assumes "run_state (waitForMount_loop os p timeout elapsed) w = (e, w')"
  obtains (failed) err where "run_state (os_IsNotMountPoint os p) w = (Inl err, w')" and "e = Some (error_text err)"
  | (mounted) "run_state (os_IsNotMountPoint os p) w = (Inr False, w')" and "e = None"
  | (timeout) w1 where "run_state (os_IsNotMountPoint os p) w = (Inr True, w1)"
      and "w' = snd (run_state (os_Sleep os (10 * millisecond)) w1)" and "e \<noteq> None"
      and "timeout \<le> elapsed + 10 * millisecond"
  | (again) w1 where "run_state (os_IsNotMountPoint os p) w = (Inr True, w1)"
      and "elapsed + 10 * millisecond < timeout"
      and "run_state (waitForMount_loop os p timeout (elapsed + 10 * millisecond))
        (snd (run_state (os_Sleep os (10 * millisecond)) w1)) = (e, w')"
proof -
  obtain r w1 where r: "run_state (os_IsNotMountPoint os p) w = (r, w1)" by fastforce
  show thesis
    using assms r by (subst (asm) waitForMount_loop.simps)
      (cases r; auto simp: case_prod_beta split: if_splits intro: failed mounted timeout again)
qed

lemma run_waitForProcess:
  assumes "run_state (waitForProcess os pid backoff) w = (e, w')"
  obtains (timeout) "backoff = 20" and "w' = w" and "e \<noteq> None"
  | (gone) r where "run_state (getCmdLine os pid) w = (r, w')" and "e = None"
  | (silent) r w1 e1 where "run_state (getCmdLine os pid) w = (r, w1)"
      and "run_state (os_Signal0 os pid) w1 = (e1, w')" and "e = None"
  | (again) r w1 e1 w2 where "run_state (getCmdLine os pid) w = (r, w1)"
      and "run_state (os_Signal0 os pid) w1 = (e1, w2)" and "backoff \<noteq> 20"
      and "run_state (waitForProcess os pid (backoff + 1))
        (snd (run_state (os_Sleep os (sint (backoff * 100 * 1000000))) w2)) = (e, w')"
proof (cases "backoff = 20")
  case True
  then show thesis using assms by (intro timeout) (auto simp: waitForProcess.simps)
next
  case False
  obtain r w1 where r: "run_state (getCmdLine os pid) w = (r, w1)" by fastforce
  obtain e1 w2 where e1: "run_state (os_Signal0 os pid) w1 = (e1, w2)" by fastforce
  note step = assms [unfolded waitForProcess.simps [of os pid backoff]]
  consider "case r of Inl _ \<Rightarrow> True | Inr c \<Rightarrow> c = ''''"
    | c err where "r = Inr c" "c \<noteq> ''''" "e1 = Some err" | c where "r = Inr c" "c \<noteq> ''''" "e1 = None"
    by (cases r; cases e1) auto
  then show thesis
  proof cases
    case 1
    then have "w' = w1 \<and> e = None" using step r False by (auto split: sum.splits)
    then show thesis using gone [of r] r by simp
  next
    case 2
    then have "w' = w2 \<and> e = None" using step r e1 False by simp
    then show thesis using silent [OF r, of e1] e1 by simp
  next
    case 3
    then show thesis using again [OF r e1 False] step r e1 False by (simp add: case_prod_beta)
  qed
qed

context host_mounts
begin

lemma sleep_snd: "mounts (snd (run_state (os_Sleep os n) w)) = mounts w"
  by (rule sleep) (rule prod.collapse [symmetric])

lemma waitForMount_loop_ok:
  "run_state (waitForMount_loop os p timeout elapsed) w = (None, w') \<Longrightarrow> p \<in> mounts w'"
proof (induction "nat (timeout - elapsed)" arbitrary: elapsed w rule: less_induct)
  case less
  from less.prems show ?case
  proof (cases rule: run_waitForMount_loop)
    case mounted
    then show ?thesis using is_not_mount by blast
  next
    case (again w1)
    then show ?thesis by (intro less.hyps [OF _ again(3)]) (auto simp: millisecond_def)
  qed auto
qed

lemma fuseMount_ok: "run_state (fuseMount os p c args) w = (None, w') \<Longrightarrow> p \<in> mounts w'"
  by (auto simp: fuseMount_def waitForMount_def split: prod.splits option.splits dest: waitForMount_loop_ok)

lemma getCmdLine_mounts: "run_state (getCmdLine os pid) w = (r, w') \<Longrightarrow> mounts w' = mounts w"
  unfolding getCmdLine_def by (rule read_file)

lemma waitForProcess_mounts:
  "run_state (waitForProcess os pid backoff) w = (e, w') \<Longrightarrow> mounts w' = mounts w"
proof (induction "unat (20 - backoff)" arbitrary: backoff w rule: less_induct)
  case less
  from less.prems show ?case
  proof (cases rule: run_waitForProcess)
    case (again r w1 e1 w2)
    have "mounts w' = mounts w2" using less.hyps [OF unat_distance_less [OF again(3)] again(4)] by (simp add: sleep_snd)
    then show ?thesis using getCmdLine_mounts [OF again(1)] signal0 [OF again(2)] by simp
  qed (auto dest: getCmdLine_mounts signal0)
qed

lemma find_process_loop_mounts:
  "run_state (find_process_loop os p ps) w = (r, w') \<Longrightarrow> mounts w' = mounts w"
  by (induction ps arbitrary: w)
    (auto split: prod.splits sum.splits if_splits dest!: getCmdLine_mounts find_process)

lemma findFuseMountProcess_mounts:
  "run_state (findFuseMountProcess os p) w = (r, w') \<Longrightarrow> mounts w' = mounts w"
  by (auto simp: findFuseMountProcess_def split: prod.splits sum.splits
      dest!: find_process_loop_mounts processes)

text \<open>After an unmount that reports no error the path is no mount point, and no other mount is lost.\<close>

lemma fuseUnmount_ok: "run_state (fuseUnmount os p) w = (None, w') \<Longrightarrow> mounts w' = mounts w - {p}"
  by (auto simp: fuseUnmount_def split: prod.splits option.splits sum.splits
      dest!: unmount_call findFuseMountProcess_mounts waitForProcess_mounts)

end

text \<open>
  The contract of the Go interface \<open>Mounter\<close>: where \<open>Mount\<close> reports no error, the target is mounted.  The node
  service relies on nothing else; it wraps the error of the mounter.
\<close>

locale mounter_interface =
  fixes mounts :: "'w \<Rightarrow> string set"
    and mount_on :: "string \<Rightarrow> string \<Rightarrow> ('w, string option) state"
  assumes mount_ok: "run_state (mount_on source target) w = (None, w') \<Longrightarrow> target \<in> mounts w'"
begin

lemma wrapped_ok:
  "run_state (do { e \<leftarrow> mount_on source target; State_Monad.return (map_option wrap e) }) w = (None, w') \<Longrightarrow>
   target \<in> mounts w'"
  by (auto split: prod.splits dest: mount_ok)

end

text \<open>The four implementations provide it.\<close>

sublocale host_mounts \<subseteq> s3fs: mounter_interface mounts "s3fs_Mount os m" for m
  by unfold_locales (auto simp: s3fs_Mount_def split: prod.splits option.splits dest: fuseMount_ok)

sublocale host_mounts \<subseteq> goofys: mounter_interface mounts "goofys_Mount os m" for m
  by unfold_locales (auto simp: goofys_Mount_def split: prod.splits option.splits dest: fuseMount_ok)

sublocale host_mounts \<subseteq> s3backer: mounter_interface mounts "s3backer_Mount os m" for m
proof unfold_locales
  fix source target w w'
  assume run: "run_state (s3backer_Mount os m source target) w = (None, w')"
  obtain e w1 where m: "run_state (os_Mount os (path_Join [source, ''file'']) target ''xfs'' []) w = (e, w1)"
    by fastforce
  with run have "e = None" and "w' = w1" by (cases e; simp add: s3backer_Mount_def split: prod.splits)+
  then show "target \<in> mounts w'" using mount_call [OF m] by simp
qed

sublocale host_mounts \<subseteq> rclone: mounter_interface mounts "rclone_Mount os m" for m
  by unfold_locales (auto simp: rclone_Mount_def case_prod_beta dest: fuseMount_ok)

text \<open>And so does whichever of them \<open>newMounter\<close> has chosen.\<close>

sublocale host_mounts \<subseteq> chosen: mounter_interface mounts "mounter_Mount os m" for m
  by unfold_locales
    (auto simp: mounter_Mount_def split: mounter.splits
      dest: s3fs.mount_ok goofys.mount_ok s3backer.mount_ok rclone.mount_ok)

interpretation mem_chosen: mounter_interface mh_mounts "mounter_Mount (mem_os program) m" for program m
  by (rule mem_mounts.chosen.mounter_interface_axioms)

end
