(* ===== verification/S3_Waiting.thy ===== *)
theory S3_Waiting
  imports S3_Mounter
begin

text \<open>
  Facts about the mounters that the driver relies on besides the mounts themselves: how long the polling loops can
  sleep, in the locale \<open>host_clock\<close>, and what the password file of s3fs holds afterwards, in \<open>host_files\<close>.
\<close>

text \<open>How long the loops sleep.\<close>

lemma sleep_product:
  "b \<le> 19 \<Longrightarrow> sint (of_nat b * 100 * 1000000 :: 64 word) = 100 * int b * millisecond"
proof -
  assume b: "b \<le> 19"
  have "of_nat b * 100 * 1000000 = (word_of_int (int b * 100000000) :: 64 word)" by simp
  then show ?thesis using b
    by (simp only: sint_sbintrunc') (simp add: signed_take_bit_int_eq_self millisecond_def)
qed

context host_clock
begin

lemma slept_sleep_snd: "slept (snd (run_state (os_Sleep os n) w)) = slept w + max 0 n"
  by (rule slept_sleep) (rule prod.collapse [symmetric])

lemma slept_getCmdLine: "run_state (getCmdLine os pid) w = (r, w') \<Longrightarrow> slept w' = slept w"
  unfolding getCmdLine_def by (rule slept_read_file)

lemma waitForMount_loop_slept:
  assumes "run_state (waitForMount_loop os p timeout elapsed) w = (e, w')"
    and "10 * millisecond dvd timeout - elapsed" and "elapsed < timeout"
  shows "slept w' \<le> slept w + (timeout - elapsed)"
  using assms
proof (induction "nat (timeout - elapsed)" arbitrary: elapsed w rule: less_induct)
  case less
  have ge: "10 * millisecond \<le> timeout - elapsed"
    using zdvd_imp_le [OF less.prems(2)] less.prems(3) by simp
  from less.prems(1) show ?case
  proof (cases rule: run_waitForMount_loop)
    case (timeout w1)
    then show ?thesis using ge slept_is_not_mount [OF timeout(1)]
      by (simp add: slept_sleep_snd millisecond_def)
  next
    case (again w1)
    have "slept w' \<le> slept (snd (run_state (os_Sleep os (10 * millisecond)) w1)) + (timeout - (elapsed + 10 * millisecond))"
      by (rule less.hyps [OF _ again(3)])
        (use again(2) less.prems(2) in \<open>auto simp: millisecond_def diff_diff_eq [symmetric] dvd_diff\<close>)
    then show ?thesis using slept_is_not_mount [OF again(1)] by (simp add: slept_sleep_snd millisecond_def)
  qed (use less.prems(3) in \<open>auto dest: slept_is_not_mount\<close>)
qed

text \<open>The backoff grows by 100 ms each time, so the sleeps add up to at most 19 s when it starts at 1.\<close>

lemma waitForProcess_slept:
  assumes "run_state (waitForProcess os pid (of_nat b)) w = (e, w')" and "b \<le> 20"
  shows "slept w' \<le> slept w + 50 * (380 + int b - int b * int b) * millisecond"
  using assms
proof (induction "20 - b" arbitrary: b w)
  case 0
  then have "b = 20" by simp
  with 0(2) show ?case by (simp add: waitForProcess.simps)
next
  case (Suc n)
  then have b: "b \<le> 19" "n = 20 - Suc b" by auto
  have "int b * int b \<le> 19 * int b" using b by (intro mult_right_mono) auto
  then have pos: "slept w \<le> slept w + 50 * (380 + int b - int b * int b) * millisecond"
    using b by (simp add: millisecond_def)
  from Suc.prems(1) show ?case
  proof (cases rule: run_waitForProcess)
    case (again r w1 e1 w2)
    have "run_state (waitForProcess os pid (of_nat (Suc b)))
        (snd (run_state (os_Sleep os (sint (of_nat b * 100 * 1000000 :: 64 word))) w2)) = (e, w')"
      using again(4) by (simp only: of_nat_Suc add.commute)
    then have "slept w' \<le> slept (snd (run_state (os_Sleep os (sint (of_nat b * 100 * 1000000 :: 64 word))) w2)) +
        50 * (380 + int (Suc b) - int (Suc b) * int (Suc b)) * millisecond"
      by (rule Suc.hyps(1) [OF b(2)]) (use b(1) in simp)
    then show ?thesis
      using slept_getCmdLine [OF again(1)] slept_signal [OF again(2)] b
      unfolding sleep_product [OF b(1)] slept_sleep_snd
      by (simp add: millisecond_def of_nat_diff algebra_simps)
  next
    case timeout
    then show ?thesis using pos by auto
  next
    case gone
    then show ?thesis using pos slept_getCmdLine by auto
  next
    case silent
    then show ?thesis using pos slept_getCmdLine slept_signal by force
  qed
qed

lemma find_process_loop_slept:
  "run_state (find_process_loop os p ps) w = (r, w') \<Longrightarrow> slept w' = slept w"
  by (induction ps arbitrary: w)
    (auto split: prod.splits sum.splits if_splits dest!: slept_getCmdLine slept_find)

lemma fuseUnmount_slept:
  assumes "run_state (fuseUnmount os p) w = (e, w')"
  shows "slept w' \<le> slept w + 19000 * millisecond"
proof -
  obtain e1 w1 where u: "run_state (os_Unmount os p) w = (e1, w1)" by fastforce
  obtain r w2 where f: "run_state (findFuseMountProcess os p) w1 = (r, w2)" by fastforce
  have w2: "slept w2 = slept w" and w1: "slept w1 = slept w"
    using f slept_unmount [OF u]
    by (auto simp: findFuseMountProcess_def split: prod.splits sum.splits
        dest!: find_process_loop_slept slept_processes)
  show ?thesis
  proof (cases "\<exists>pid. e1 = None \<and> r = Inr (Some pid)")
    case True
    then obtain pid where "run_state (waitForProcess os pid (of_nat 1)) w2 = (e, w')"
      using assms u f by (auto simp: fuseUnmount_def)
    from waitForProcess_slept [OF this] w2 show ?thesis by simp
  next
    case False
    then have "w' = w1 \<or> w' = w2"
      using assms u f by (auto simp: fuseUnmount_def split: option.splits sum.splits)
    then show ?thesis using w1 w2 by (auto simp: millisecond_def)
  qed
qed

end

text \<open>What is in the password files.\<close>

context host_files
begin

lemma write_fresh_handle:
  assumes "run_state (os_OpenFile os p fl) w = (Inr h, w1)" and "run_state (os_WriteString os h s) w1 = (None, w')"
  shows "files w' p = Some (case files w p of
      None \<Rightarrow> s | Some c \<Rightarrow> if O_APPEND \<in> set fl then c @ s else overwrite c s)"
    and "\<forall>q. q \<noteq> p \<longrightarrow> files w' q = files w q"
  using open_ok [OF assms(1)] write_ok [OF assms(2), of p "O_APPEND \<in> set fl"]
  by (auto simp: overwrite_def split: option.splits)

lemma writes3fsPass_ok:
  assumes "run_state (writes3fsPass os pw) w = (None, w')"
  shows "files w' (home w @ ''/.passwd-s3fs'') =
    Some (case files w (home w @ ''/.passwd-s3fs'') of None \<Rightarrow> pw | Some c \<Rightarrow> overwrite c pw)"
proof -
  obtain s w1 where g: "run_state (os_Getenv os ''HOME'') w = (s, w1)" by fastforce
  obtain r w2 where o: "run_state (os_OpenFile os (home w @ ''/.passwd-s3fs'') [O_RDWR, O_CREATE]) w1 = (r, w2)"
    by fastforce
  obtain h where h: "r = Inr h" and wr: "run_state (os_WriteString os h pw) w2 = (None, w')"
    using assms g o getenv_home [OF g] by (auto simp: writes3fsPass_def split: prod.splits sum.splits)
  show ?thesis using write_fresh_handle(1) [OF o [unfolded h] wr] getenv_home [OF g] by (simp cong: option.case_cong)
qed

end

end
