(* ===== verification/Sha1.thy ===== *)
theory Sha1
  imports Go_Strings "HOL-Library.Word"
begin

text \<open>
  \<open>crypto/sha1\<close> and \<open>encoding/hex\<close> of the Go library, which the S3 driver uses to shorten volume ids, and
  \<open>strings.ToLower\<close> (on ASCII text, which volume names are; other bytes are kept).
\<close>

unbundle bit_operations_syntax

type_synonym word32 = "32 word"

section \<open>SHA-1\<close>

definition rotl32 :: "nat \<Rightarrow> word32 \<Rightarrow> word32" where
  "rotl32 n x = push_bit n x OR drop_bit (32 - n) x"

definition bytes_be :: "nat \<Rightarrow> nat \<Rightarrow> string" where
  "bytes_be k n = map (\<lambda>i. char_of (n div 256 ^ (k - 1 - i) mod 256)) [0..<k]"

definition be_word :: "string \<Rightarrow> word32" where
  "be_word bs = of_nat (foldl (\<lambda>n c. n * 256 + of_char c) 0 bs)"

text \<open>The message is filled up with a one bit, zeros and its length in bits, to a multiple of 64 bytes.\<close>

definition sha1_pad :: "string \<Rightarrow> string" where
  "sha1_pad s = s @ [char_of (128 :: nat)] @
     replicate ((119 - length s mod 64) mod 64) (char_of (0 :: nat)) @ bytes_be 8 (length s * 8 mod 2 ^ 64)"

fun chunks :: "nat \<Rightarrow> nat \<Rightarrow> 'a list \<Rightarrow> 'a list list" where
  "chunks 0 k xs = []"
| "chunks (Suc n) k xs = take k xs # chunks n k (drop k xs)"

text \<open>The schedule keeps the last sixteen words, newest first.\<close>

fun schedule :: "nat \<Rightarrow> word32 list \<Rightarrow> word32 list" where
  "schedule 0 ws = []"
| "schedule (Suc n) ws =
     (let w = rotl32 1 (ws ! 2 XOR ws ! 7 XOR ws ! 13 XOR ws ! 15) in w # schedule n (w # butlast ws))"

type_synonym sha1_state = "word32 \<times> word32 \<times> word32 \<times> word32 \<times> word32"

definition round_f :: "nat \<Rightarrow> word32 \<Rightarrow> word32 \<Rightarrow> word32 \<Rightarrow> word32" where
  "round_f t b c d =
     (if t < 20 then (b AND c) OR (NOT b AND d)
      else if t < 40 then b XOR c XOR d
      else if t < 60 then (b AND c) OR (b AND d) OR (c AND d)
      else b XOR c XOR d)"

definition round_k :: "nat \<Rightarrow> word32" where
  "round_k t = (if t < 20 then 0x5A827999 else if t < 40 then 0x6ED9EBA1 else if t < 60 then 0x8F1BBCDC else 0xCA62C1D6)"

fun sha1_rounds :: "nat \<Rightarrow> word32 list \<Rightarrow> sha1_state \<Rightarrow> sha1_state" where
  "sha1_rounds t [] st = st"
| "sha1_rounds t (w # ws) (a, b, c, d, e) =
     sha1_rounds (Suc t) ws (rotl32 5 a + round_f t b c d + e + w + round_k t, a, rotl32 30 b, c, d)"

definition sha1_block :: "string \<Rightarrow> sha1_state \<Rightarrow> sha1_state" where
  "sha1_block block st =
     (let m = map be_word (chunks 16 4 block) in
      case (st, sha1_rounds 0 (m @ schedule 64 (rev m)) st) of
        ((a, b, c, d, e), (a', b', c', d', e')) \<Rightarrow> (a + a', b + b', c + c', d + d', e + e'))"

definition sha1_sum :: "string \<Rightarrow> string" where
  "sha1_sum s =
     (let p = sha1_pad s in
      case fold sha1_block (chunks (length p div 64) 64 p) (0x67452301, 0xEFCDAB89, 0x98BADCFE, 0x10325476, 0xC3D2E1F0) of
        (a, b, c, d, e) \<Rightarrow> concat (map (\<lambda>w. bytes_be 4 (unat w)) [a, b, c, d, e]))"

section \<open>Hexadecimal and lower case\<close>

definition hex_digit :: "nat \<Rightarrow> char" where
  "hex_digit n = char_of (if n < 10 then n + 48 else n + 87)"

definition hex_encode :: "string \<Rightarrow> string" where
  "hex_encode s = concat (map (\<lambda>c. let n = of_char c in [hex_digit (n div 16), hex_digit (n mod 16)]) s)"

definition lower_char :: "char \<Rightarrow> char" where
  "lower_char c = (let n = of_char c :: nat in if 65 \<le> n \<and> n \<le> 90 then char_of (n + 32) else c)"

definition ToLower :: "string \<Rightarrow> string" where
  "ToLower s = map lower_char s"

section \<open>Lemmas\<close>

lemma length_bytes_be [simp]: "length (bytes_be k n) = k"
  by (simp add: bytes_be_def)

lemma length_sha1_sum [simp]: "length (sha1_sum s) = 20"
  by (auto simp: sha1_sum_def Let_def split: prod.splits)

lemma length_hex_encode [simp]: "length (hex_encode s) = 2 * length s"
  by (induction s) (auto simp: hex_encode_def Let_def)

lemma lower_char_idem [simp]: "lower_char (lower_char c) = lower_char c"
  by (auto simp: lower_char_def Let_def of_char_of take_bit_eq_mod split: if_splits)

lemma ToLower_idem [simp]: "ToLower (ToLower s) = ToLower s"
  by (simp add: ToLower_def comp_def)

lemma length_ToLower [simp]: "length (ToLower s) = length s"
  by (simp add: ToLower_def)

lemma of_char_div_16: "(of_char c :: nat) div 16 < 16"
proof -
  have "(of_char c :: nat) < 16 * 16" by simp
  then show ?thesis by (rule less_mult_imp_div_less)
qed

lemma lower_hex_digit: "n < 16 \<Longrightarrow> lower_char (hex_digit n) = hex_digit n"
  by (auto simp: lower_char_def hex_digit_def Let_def of_char_of take_bit_eq_mod split: if_splits)

lemma ToLower_hex [simp]: "ToLower (hex_encode s) = hex_encode s"
  by (induction s) (auto simp: hex_encode_def ToLower_def Let_def lower_hex_digit of_char_div_16)

end
