(* ===== verification/S3_Driver.thy ===== *)
theory S3_Driver
  imports S3_Waiting Sha1
begin

text \<open>
  The gRPC services of the S3 driver: the controller service (\<open>csi-s3/pkg/s3/controllerserver.go\<close>), the node service
  (\<open>nodeserver.go\<close>) and the names of the driver (\<open>s3-driver.go\<close>).  The object store and the operating system
  share one world.  The check of the driver's own capabilities in the package \<open>csi-common\<close>
  (\<open>ValidateControllerServiceRequest\<close>) is the parameter \<open>validate\<close>, its error if any.
\<close>

section \<open>Names\<close>

record s3Volume =
  VolName :: string
  VolID :: string
  VolSize :: int
  VolPath :: string
  Vol_Bucket :: string

definition driverName :: string where "driverName = ''ch.ctrox.csi.s3-driver''"

definition vendorVersion :: string where "vendorVersion = ''v1.1.1''"

definition controller_capabilities :: "ControllerRPC list" where
  "controller_capabilities = [CREATE_DELETE_VOLUME]"

definition access_modes :: "AccessMode list" where "access_modes = [SINGLE_NODE_WRITER]"

definition sanitizeVolumeID :: "string \<Rightarrow> string" where
  "sanitizeVolumeID volumeID =
     (let volumeID = ToLower volumeID in
      if length volumeID > 63 then hex_encode (sha1_sum volumeID) else volumeID)"

section \<open>The controller service\<close>

definition ControllerPublishVolume :: "grpc_error + unit" where
  "ControllerPublishVolume = unimplemented ''''"

definition ControllerUnpublishVolume :: "grpc_error + unit" where
  "ControllerUnpublishVolume = unimplemented ''''"

definition ControllerGetVolume :: "grpc_error + unit" where
  "ControllerGetVolume = unimplemented ''''"

definition ControllerExpandVolume :: "grpc_error + unit" where
  "ControllerExpandVolume = unimplemented ''ControllerExpandVolume is not implemented''"

text \<open>The bucket of a volume: the configured one, or the volume itself.\<close>

definition volume_bucket :: "Config \<Rightarrow> string \<Rightarrow> string" where
  "volume_bucket cfg volumeID = (if length (Bucket cfg) \<noteq> 0 then Bucket cfg else volumeID)"

definition ensure_bucket ::
  "('w, 'c) minio_api \<Rightarrow> 'c s3Client \<Rightarrow> string \<Rightarrow> string \<Rightarrow> ('w, grpc_error option) state" where
  "ensure_bucket mc s3 bucketName volumeID = do {
     exists \<leftarrow> bucketExists mc s3 bucketName;
     case exists of
       Inl err \<Rightarrow> State_Monad.return
         (Some (PlainError (''failed to check if bucket '' @ bucketName @ '' exists: '' @ err)))
     | Inr True \<Rightarrow> State_Monad.return None
     | Inr False \<Rightarrow>
         if Provision (sc_cfg s3) then do {
           e \<leftarrow> createBucket mc s3 bucketName;
           State_Monad.return (case e of
             Some err \<Rightarrow> Some (PlainError (''failed to create volume '' @ volumeID @ '': '' @ err)) | None \<Rightarrow> None)
         }
         else State_Monad.return (Some (PlainError (''s3 bucket: '' @ bucketName @ '' does not exist'')))
   }"

definition CreateVolume ::
  "('w, 'c) minio_api \<Rightarrow> url_parser \<Rightarrow> grpc_error option \<Rightarrow> CreateVolumeRequest \<Rightarrow>
    ('w, grpc_error + Volume_msg) state" where
  "CreateVolume mc parse validate req =
     (let volumeID = sanitizeVolumeID (cv_Name req) in
      case validate of
        Some err \<Rightarrow> State_Monad.return (Inl err)
      | None \<Rightarrow>
          if length volumeID = 0 then State_Monad.return (Inl (Status InvalidArgument ''Name missing in request''))
          else if cv_VolumeCapabilities req = None then
            State_Monad.return (Inl (Status InvalidArgument ''Volume Capabilities missing in request''))
          else case newS3ClientFromSecrets mc parse (cv_Secrets req) of
            Inl err \<Rightarrow> State_Monad.return (Inl (PlainError (''failed to initialize S3 client: '' @ err)))
          | Inr s3 \<Rightarrow> do {
              e \<leftarrow> ensure_bucket mc s3 (volume_bucket (sc_cfg s3) volumeID) volumeID;
              State_Monad.return (case e of
                Some err \<Rightarrow> Inl err
              | None \<Rightarrow> Inr \<lparr>vol_Id = volumeID, vol_CapacityBytes = 10000000000000, vol_Context = cv_Parameters req\<rparr>)
            })"

definition DeleteVolume ::
  "('w, 'c) minio_api \<Rightarrow> url_parser \<Rightarrow> grpc_error option \<Rightarrow> DeleteVolumeRequest \<Rightarrow> ('w, grpc_error option) state" where
  "DeleteVolume mc parse validate req =
     (let volumeID = dv_VolumeId req in
      if length volumeID = 0 then
        State_Monad.return (Some (Status InvalidArgument ''Volume ID missing in request''))
      else case validate of
        Some err \<Rightarrow> State_Monad.return (Some err)
      | None \<Rightarrow>
          (case newS3ClientFromSecrets mc parse (dv_Secrets req) of
             Inl err \<Rightarrow> State_Monad.return (Some (PlainError (''failed to initialize S3 client: '' @ err)))
           | Inr s3 \<Rightarrow> do {
               let bucketName = volume_bucket (sc_cfg s3) volumeID;
               exists \<leftarrow> bucketExists mc s3 bucketName;
               case exists of
                 Inl err \<Rightarrow> State_Monad.return (Some (PlainError err))
               | Inr exists \<Rightarrow>
                   if exists \<and> RemoveOnDelete (sc_cfg s3) then do {
                     e \<leftarrow> removeBucket mc s3 bucketName;
                     State_Monad.return (map_option PlainError e)
                   }
                   else State_Monad.return None
             }))"

text \<open>The first capability that is no single node writer ends the loop.\<close>

fun check_modes :: "VolumeCapability list \<Rightarrow> ValidateResponse" where
  "check_modes [] = Confirmed [SINGLE_NODE_WRITER]"
| "check_modes (cap # caps) =
     (if vc_Mode cap \<noteq> SINGLE_NODE_WRITER then Message ''Only single node writer is supported''
      else check_modes caps)"

definition ValidateVolumeCapabilities ::
  "('w, 'c) minio_api \<Rightarrow> url_parser \<Rightarrow> ValidateRequest \<Rightarrow> ('w, grpc_error + ValidateResponse) state" where
  "ValidateVolumeCapabilities mc parse req =
     (if length (vr_VolumeId req) = 0 then
        State_Monad.return (Inl (Status InvalidArgument ''Volume ID missing in request''))
      else case vr_VolumeCapabilities req of
        None \<Rightarrow> State_Monad.return (Inl (Status InvalidArgument ''Volume capabilities missing in request''))
      | Some caps \<Rightarrow>
          (case newS3ClientFromSecrets mc parse (vr_Secrets req) of
             Inl err \<Rightarrow> State_Monad.return (Inl (PlainError (''failed to initialize S3 client: '' @ err)))
           | Inr s3 \<Rightarrow> do {
               exists \<leftarrow> bucketExists mc s3 (vr_VolumeId req);
               State_Monad.return (case exists of
                 Inl err \<Rightarrow> Inl (PlainError err)
               | Inr False \<Rightarrow> Inl (Status NotFoundCode (''Volume with id '' @ vr_VolumeId req @ '' does not exist''))
               | Inr True \<Rightarrow> Inr (check_modes caps))
             }))"

text \<open>
  \<open>createVolume\<close> writes the bucket it chose into the map of its caller; the updated map is part of the result.
  Nothing calls it at this commit, because ephemeral volumes are switched off.
\<close>

definition createVolume ::
  "('w, 'c) minio_api \<Rightarrow> url_parser \<Rightarrow> string \<Rightarrow> smap \<Rightarrow> ('w, (grpc_error + s3Volume) \<times> smap) state" where
  "createVolume mc parse volumeID s3args =
     (let volID = sanitizeVolumeID volumeID;
          provision = parse_bool_or_false (mget s3args ''provision'') in
      if length (mget s3args ''bucket'') = 0 \<and> \<not> provision then
        State_Monad.return
          (Inl (PlainError ''Neither existing bucket provided nor provisioning requested''), s3args)
      else
        let s3args = if length (mget s3args ''bucket'') = 0 then mset_key ''bucket'' volID s3args else s3args in
        case newS3ClientFromSecrets mc parse s3args of
          Inl err \<Rightarrow> State_Monad.return (Inl (PlainError (''failed to initialize S3 client: '' @ err)), s3args)
        | Inr s3 \<Rightarrow> do {
            e \<leftarrow> ensure_bucket mc s3 (mget s3args ''bucket'') volumeID;
            State_Monad.return (case e of
              Some err \<Rightarrow> Inl err
            | None \<Rightarrow> Inr \<lparr>VolName = volumeID, VolID = volumeID, VolSize = 0, VolPath = '''',
                Vol_Bucket = mget s3args ''bucket''\<rparr>, s3args)
          })"

section \<open>The node service\<close>

text \<open>\<open>status.Error(codes.Internal, err.Error())\<close>, and \<open>return nil, err\<close> of a plain error.\<close>

definition internal_error :: "string \<Rightarrow> grpc_error" where "internal_error = Status Internal"

definition checkMount :: "'w os_api \<Rightarrow> string \<Rightarrow> ('w, os_error + bool) state" where
  "checkMount os targetPath = do {
     r \<leftarrow> os_IsLikelyNotMountPoint os targetPath;
     case r of
       Inr notMnt \<Rightarrow> State_Monad.return (Inr notMnt)
     | Inl err \<Rightarrow>
         if os_IsNotExist err then do {
           e \<leftarrow> os_MkdirAll os targetPath;
           State_Monad.return (case e of Some err \<Rightarrow> Inl err | None \<Rightarrow> Inr True)
         }
         else State_Monad.return (Inl err)
   }"

definition mount_volume ::
  "'w os_api \<Rightarrow> url_parser \<Rightarrow> bucket \<Rightarrow> Config \<Rightarrow> string \<Rightarrow> string \<Rightarrow> string \<Rightarrow> ('w, grpc_error option) state" where
  "mount_volume os parse b cfg volumeID stagingTargetPath targetPath = do {
     r \<leftarrow> newMounter os parse b cfg volumeID;
     case r of
       Inl err \<Rightarrow> State_Monad.return (Some (PlainError err))
     | Inr mounter \<Rightarrow> do {
         e \<leftarrow> mounter_Mount os mounter stagingTargetPath targetPath;
         State_Monad.return (map_option PlainError e)
       }
   }"

text \<open>
  \<open>NodePublishVolume\<close>.  The constant \<open>ephemeralVolume := false\<close> of the code leaves only the branch of persistent
  volumes; the device, the mount flags and the read-only flag of the request are logged only.
\<close>

definition NodePublishVolume ::
  "('w, 'c) minio_api \<Rightarrow> 'w os_api \<Rightarrow> url_parser \<Rightarrow> NodePublishRequest \<Rightarrow> ('w, grpc_error option) state" where
  "NodePublishVolume mc os parse req =
     (if np_VolumeCapability req = None then
        State_Monad.return (Some (Status InvalidArgument ''Volume capability missing in request''))
      else if length (np_VolumeId req) = 0 then
        State_Monad.return (Some (Status InvalidArgument ''Volume ID missing in request''))
      else if length (np_TargetPath req) = 0 then
        State_Monad.return (Some (Status InvalidArgument ''Target path missing in request''))
      else do {
        r \<leftarrow> checkMount os (np_TargetPath req);
        case r of
          Inl err \<Rightarrow> State_Monad.return (Some (internal_error (error_text err)))
        | Inr False \<Rightarrow> State_Monad.return None
        | Inr True \<Rightarrow>
            if length (np_StagingTargetPath req) = 0 then
              State_Monad.return (Some (Status InvalidArgument ''Staging Target path missing in request''))
            else case newS3ClientFromSecrets mc parse (np_Secrets req) of
              Inl err \<Rightarrow> State_Monad.return (Some (PlainError (''failed to initialize S3 client: '' @ err)))
            | Inr s3 \<Rightarrow>
                if length (Bucket (sc_cfg s3)) \<noteq> 0 then
                  mount_volume os parse
                    \<lparr>bk_Name = Bucket (sc_cfg s3), bk_Folder = Folder (sc_cfg s3),
                     bk_Mounter = mget (np_VolumeContext req) ''mounter''\<rparr>
                    (sc_cfg s3) (np_VolumeId req) (np_StagingTargetPath req) (np_TargetPath req)
                else State_Monad.return (Some (Status InvalidArgument ''Bucket name not provided for mounting''))
      })"

definition NodeUnpublishVolume :: "'w os_api \<Rightarrow> NodeUnpublishRequest \<Rightarrow> ('w, grpc_error option) state" where
  "NodeUnpublishVolume os req =
     (if length (nu_VolumeId req) = 0 then
        State_Monad.return (Some (Status InvalidArgument ''Volume ID missing in request''))
      else if length (nu_TargetPath req) = 0 then
        State_Monad.return (Some (Status InvalidArgument ''Target path missing in request''))
      else do {
        e \<leftarrow> fuseUnmount os (nu_TargetPath req);
        State_Monad.return (map_option internal_error e)
      })"

definition NodeStageVolume ::
  "('w, 'c) minio_api \<Rightarrow> 'w os_api \<Rightarrow> url_parser \<Rightarrow> NodeStageRequest \<Rightarrow> ('w, grpc_error option) state" where
  "NodeStageVolume mc os parse req =
     (if length (ns_VolumeId req) = 0 then
        State_Monad.return (Some (Status InvalidArgument ''Volume ID missing in request''))
      else if length (ns_StagingTargetPath req) = 0 then
        State_Monad.return (Some (Status InvalidArgument ''Target path missing in request''))
      else if ns_VolumeCapability req = None then
        State_Monad.return (Some (Status InvalidArgument ''NodeStageVolume Volume Capability must be provided''))
      else do {
        r \<leftarrow> checkMount os (ns_StagingTargetPath req);
        case r of
          Inl err \<Rightarrow> State_Monad.return (Some (internal_error (error_text err)))
        | Inr False \<Rightarrow> State_Monad.return None
        | Inr True \<Rightarrow>
            (case newS3ClientFromSecrets mc parse (ns_Secrets req) of
               Inl err \<Rightarrow> State_Monad.return (Some (PlainError (''failed to initialize S3 client: '' @ err)))
             | Inr s3 \<Rightarrow> do {
                 m \<leftarrow> newMounter os parse
                   \<lparr>bk_Name = volume_bucket (sc_cfg s3) (ns_VolumeId req), bk_Folder = '''', bk_Mounter = ''''\<rparr>
                   (sc_cfg s3) (ns_VolumeId req);
                 case m of
                   Inl err \<Rightarrow> State_Monad.return (Some (PlainError err))
                 | Inr mounter \<Rightarrow> do {
                     e \<leftarrow> mounter_Stage os mounter (ns_StagingTargetPath req);
                     State_Monad.return (map_option PlainError e)
                   }
               })
      })"

definition NodeUnstageVolume :: "NodeUnstageRequest \<Rightarrow> grpc_error option" where
  "NodeUnstageVolume req =
     (if length (nus_VolumeId req) = 0 then Some (Status InvalidArgument ''Volume ID missing in request'')
      else if length (nus_StagingTargetPath req) = 0 then
        Some (Status InvalidArgument ''Target path missing in request'')
      else None)"

definition NodeGetCapabilities :: "NodeRPC list" where "NodeGetCapabilities = [STAGE_UNSTAGE_VOLUME]"

definition NodeExpandVolume :: "grpc_error + unit" where
  "NodeExpandVolume = unimplemented ''NodeExpandVolume is not implemented''"

section \<open>The controller service and the store\<close>

context object_store
begin

lemma ensure_bucket_run:
  assumes "run_state (ensure_bucket mc s3 b v) w = (e, w')"
  shows "let B = buckets (sc_minio s3) in
    (e = None \<longrightarrow> b \<in> dom (B w')) \<and>
    (B w' = B w \<or> (Provision (sc_cfg s3) \<and> B w b = None \<and> B w' = (B w)(b \<mapsto> {})))"
proof -
  let ?B = "buckets (sc_minio s3)"
  obtain x w1 where x: "run_state (bucketExists mc s3 b) w = (x, w1)" by fastforce
  note ex = bucketExists_run [OF x]
  show ?thesis
  proof (cases "x = Inr False \<and> Provision (sc_cfg s3)")
    case True
    obtain c w2 where c: "run_state (createBucket mc s3 b) w1 = (c, w2)" by fastforce
    have "w' = w2" and "e = None \<longleftrightarrow> c = None"
      using assms x True c by (auto simp: ensure_bucket_def split: option.splits)
    then show ?thesis using createBucket_run [OF c] ex True by (auto simp: Let_def)
  next
    case False
    then have "w' = w1" and "e = None \<longrightarrow> x = Inr True"
      using assms x by (auto simp: ensure_bucket_def split: sum.splits bool.splits if_splits)
    then show ?thesis using ex by (auto simp: Let_def)
  qed
qed

lemma create_run:
  assumes "newS3ClientFromSecrets mc parse (cv_Secrets req) = Inr s3"
    and "run_state (CreateVolume mc parse validate req) w = (r, w')"
  shows "(\<forall>vol. r = Inr vol \<longrightarrow>
      vol = \<lparr>vol_Id = sanitizeVolumeID (cv_Name req), vol_CapacityBytes = 10000000000000,
             vol_Context = cv_Parameters req\<rparr> \<and>
      volume_bucket (sc_cfg s3) (vol_Id vol) \<in> dom (buckets (sc_minio s3) w')) \<and>
    (buckets (sc_minio s3) w' = buckets (sc_minio s3) w \<or>
     (let b = volume_bucket (sc_cfg s3) (sanitizeVolumeID (cv_Name req)) in
      Provision (sc_cfg s3) \<and> buckets (sc_minio s3) w b = None \<and>
      buckets (sc_minio s3) w' = (buckets (sc_minio s3) w)(b \<mapsto> {})))"
proof -
  let ?id = "sanitizeVolumeID (cv_Name req)"
  obtain e w1 where e: "run_state (ensure_bucket mc s3 (volume_bucket (sc_cfg s3) ?id) ?id) w = (e, w1)" by fastforce
  note ok = ensure_bucket_run [OF e]
  show ?thesis
  proof (cases "validate = None \<and> ?id \<noteq> '''' \<and> cv_VolumeCapabilities req \<noteq> None")
    case True
    then have "w' = w1" and "r = (case e of Some err \<Rightarrow> Inl err
        | None \<Rightarrow> Inr \<lparr>vol_Id = ?id, vol_CapacityBytes = 10000000000000, vol_Context = cv_Parameters req\<rparr>)"
      using assms e by (auto simp: CreateVolume_def Let_def)
    then show ?thesis using ok by (cases e) (auto simp: Let_def)
  next
    case False
    then have "w' = w" and "\<exists>err. r = Inl err"
      using assms(2) by (auto simp: CreateVolume_def Let_def split: if_splits option.splits)
    then show ?thesis by auto
  qed
qed

lemma delete_run:
  assumes "run_state (DeleteVolume mc parse validate req) w = (e, w')"
    and "newS3ClientFromSecrets mc parse (dv_Secrets req) = Inr s3"
  defines "b \<equiv> volume_bucket (sc_cfg s3) (dv_VolumeId req)" and "B \<equiv> buckets (sc_minio s3)"
  shows "(\<forall>b'. b' \<noteq> b \<longrightarrow> B w' b' = B w b') \<and>
    (B w' b = None \<or> (\<exists>gone. B w' b = map_option (\<lambda>s. s - gone) (B w b))) \<and>
    (\<not> RemoveOnDelete (sc_cfg s3) \<longrightarrow> B w' = B w) \<and>
    (e = None \<and> RemoveOnDelete (sc_cfg s3) \<longrightarrow> B w' b = None)"
proof -
  obtain x w1 where x: "run_state (bucketExists mc s3 b) w = (x, w1)" by fastforce
  have ex: "B w1 = B w \<and> (\<forall>y. x = Inr y \<longrightarrow> y = (b \<in> dom (B w)))"
    using bucketExists_run [OF x] by (simp add: B_def)
  have keep: "\<exists>gone. B w b = map_option (\<lambda>s. s - gone) (B w b)"
    by (rule exI [of _ "{}"]) (simp add: option.map_ident)
  have early: ?thesis if "w' = w" "e \<noteq> None" using that keep by auto
  show ?thesis
  proof (cases "length (dv_VolumeId req) = 0 \<or> validate \<noteq> None")
    case True
    then have "w' = w" "e \<noteq> None" using assms(1) by (auto simp: DeleteVolume_def Let_def split: if_splits)
    then show ?thesis by (rule early)
  next
    case False
    show ?thesis
    proof (cases "x = Inr True \<and> RemoveOnDelete (sc_cfg s3)")
      case True
      obtain r w2 where r: "run_state (removeBucket mc s3 b) w1 = (r, w2)" by fastforce
      have "w' = w2" and "e = map_option PlainError r"
        using assms(1,2) x r True False by (auto simp: DeleteVolume_def Let_def b_def)
      then show ?thesis using removeBucket_run [OF r] ex True by (auto simp: B_def)
    next
      case no: False
      then have "w' = w1 \<and> (e = None \<longrightarrow> (\<exists>y. x = Inr y))"
        using assms(1,2) x False by (auto simp: DeleteVolume_def Let_def b_def split: sum.splits if_splits)
      moreover from this have "e = None \<and> RemoveOnDelete (sc_cfg s3) \<longrightarrow> B w b = None"
        using no ex by (cases x) (auto simp: domIff)
      ultimately show ?thesis using ex keep by auto
    qed
  qed
qed

end

section \<open>Mounts of the node service\<close>

context host_mounts
begin

lemma checkMount_run:
  "run_state (checkMount os p) w = (r, w') \<Longrightarrow> mounts w' = mounts w \<and> (r = Inr False \<longrightarrow> p \<in> mounts w)"
  by (auto simp: checkMount_def split: prod.splits sum.splits if_splits option.splits dest!: likely mkdirall)

lemma mount_volume_ok:
  "run_state (mount_volume os parse b cfg v stage target) w = (None, w') \<Longrightarrow> target \<in> mounts w'"
  by (auto simp: mount_volume_def split: prod.splits sum.splits option.splits dest: chosen.mount_ok)

text \<open>A publication that reports no error found the target mounted, or mounted it.\<close>

lemma NodePublish_ok:
  assumes "run_state (NodePublishVolume mc os parse req) w = (None, w')"
  shows "np_TargetPath req \<in> mounts w'"
proof -
  obtain r w1 where c: "run_state (checkMount os (np_TargetPath req)) w = (r, w1)" by fastforce
  show ?thesis
  proof (cases "r = Inr False")
    case True
    then have "w' = w1" using assms c by (auto simp: NodePublishVolume_def split: if_splits)
    then show ?thesis using checkMount_run [OF c] True by simp
  next
    case False
    then obtain b cfg where
      "run_state (mount_volume os parse b cfg (np_VolumeId req) (np_StagingTargetPath req) (np_TargetPath req)) w1 =
        (None, w')"
      using assms c by (auto simp: NodePublishVolume_def split: if_splits sum.splits bool.splits)
    then show ?thesis by (rule mount_volume_ok)
  qed
qed

lemma NodeUnpublish_ok:
  "run_state (NodeUnpublishVolume os req) w = (None, w') \<Longrightarrow> mounts w' = mounts w - {nu_TargetPath req}"
  by (auto simp: NodeUnpublishVolume_def split: if_splits prod.splits dest: fuseUnmount_ok)

end

end
