(* ===== verification/S3_Properties.thy ===== *)
theory S3_Properties
  imports S3_Driver
begin

text \<open>
  The properties of the S3 driver.  Each assumes only the contracts of the store and the host (the locales of
  \<open>S3_Store\<close> and \<open>Os_Api\<close>) and holds whatever requests fail; the witnesses run the in-memory models.
\<close>

section \<open>A world with a store and a host\<close>

definition example_url :: url_parser where
  "example_url s = (if s = '''' then Inl ''empty url''
     else Inr \<lparr>url_Scheme = ''https'', url_Hostname = s, url_Port = ''''\<rparr>)"

definition example_secrets :: smap where
  "example_secrets = [(''accessKeyID'', ''ak''), (''secretAccessKey'', ''sk''), (''endpoint'', ''s3''),
     (''bucket'', ''data''), (''provision'', ''true''), (''remove-on-delete'', ''true'')]"

definition store_of :: "(string, string list) gomap \<Rightarrow> mem_store" where
  "store_of m = \<lparr>ms_buckets = m, ms_faults = []\<rparr>"

definition example_client :: "string s3Client" where
  "example_client = \<lparr>sc_cfg = secrets_config example_secrets, sc_minio = ''s3''\<rparr>"

lemma client_from_example:
  "newS3ClientFromSecrets mem_minio example_url example_secrets = Inr example_client"
  by (simp add: newS3ClientFromSecrets_def newS3Client_def secrets_config_def example_secrets_def example_url_def
      mem_minio_def example_client_def Let_def)

definition example_create :: CreateVolumeRequest where
  "example_create = \<lparr>cv_Name = ''pvc-1'', cv_VolumeCapabilities = Some [], cv_Parameters = [],
     cv_Secrets = example_secrets\<rparr>"

definition example_delete :: DeleteVolumeRequest where
  "example_delete = \<lparr>dv_VolumeId = ''pvc-1'', dv_Secrets = example_secrets\<rparr>"

section \<open>The controller service\<close>

text \<open>
  The id of a volume is a valid bucket name as far as length and case go: at most 63 characters,
  lower case, independent of the case of the request, and stable when it is sanitized again.
\<close>

theorem volume_ids_bounded:
  "length (sanitizeVolumeID s) \<le> 63 \<and> ToLower (sanitizeVolumeID s) = sanitizeVolumeID s \<and>
   sanitizeVolumeID (ToLower s) = sanitizeVolumeID s \<and> sanitizeVolumeID (sanitizeVolumeID s) = sanitizeVolumeID s"
proof -
  have low: "ToLower (sanitizeVolumeID s) = sanitizeVolumeID s"
    by (simp add: sanitizeVolumeID_def Let_def ToLower_idem ToLower_hex)
  moreover have len: "length (sanitizeVolumeID s) \<le> 63"
    by (simp add: sanitizeVolumeID_def Let_def length_hex_encode length_sha1_sum)
  moreover have "sanitizeVolumeID (sanitizeVolumeID s) = sanitizeVolumeID s"
    using low len by (subst sanitizeVolumeID_def) (simp add: Let_def)
  moreover have "sanitizeVolumeID (ToLower s) = sanitizeVolumeID s"
    by (simp add: sanitizeVolumeID_def Let_def ToLower_idem)
  ultimately show ?thesis by blast
qed

text \<open>
  C20. Creating a volume answers with the sanitized id and the parameters of the request, and only when the bucket of
  the volume exists; the only change it can make to the store is that one empty bucket, and only when the
  secrets ask for provisioning.
\<close>

theorem create_volume_provisions:
  assumes "object_store mc buckets" and "newS3ClientFromSecrets mc parse (cv_Secrets req) = Inr s3"
    and "run_state (CreateVolume mc parse validate req) w = (r, w')"
  shows "(\<forall>vol. r = Inr vol \<longrightarrow>
      vol = \<lparr>vol_Id = sanitizeVolumeID (cv_Name req), vol_CapacityBytes = 10000000000000,
             vol_Context = cv_Parameters req\<rparr> \<and>
      volume_bucket (sc_cfg s3) (vol_Id vol) \<in> dom (buckets (sc_minio s3) w')) \<and>
    (buckets (sc_minio s3) w' = buckets (sc_minio s3) w \<or>
     (let b = volume_bucket (sc_cfg s3) (sanitizeVolumeID (cv_Name req)) in
      Provision (sc_cfg s3) \<and> buckets (sc_minio s3) w b = None \<and>
      buckets (sc_minio s3) w' = (buckets (sc_minio s3) w)(b \<mapsto> {})))"
  by (rule object_store.create_run [OF assms])

theorem create_volume_provisions_witness:
  "fst (run_state (CreateVolume mem_minio example_url None example_create) (store_of [])) =
     Inr \<lparr>vol_Id = ''pvc-1'', vol_CapacityBytes = 10000000000000, vol_Context = []\<rparr> \<and>
   ''data'' \<in> dom (mem_buckets ''s3'' (snd (run_state (CreateVolume mem_minio example_url None example_create) (store_of []))))"
proof -
  have id: "sanitizeVolumeID ''pvc-1'' = ''pvc-1''" by code_simp
  have run: "fst (run_state (CreateVolume mem_minio example_url None example_create) (store_of [])) =
     Inr \<lparr>vol_Id = ''pvc-1'', vol_CapacityBytes = 10000000000000, vol_Context = []\<rparr>"
    by (simp add: CreateVolume_def example_create_def id client_from_example)
      (simp add: Let_def ensure_bucket_def bucketExists_def createBucket_def mem_minio_def store_request_def store_of_def
        example_client_def volume_bucket_def secrets_config_def example_secrets_def parse_bool_or_false_def
        ParseBool_def)
  have sec: "cv_Secrets example_create = example_secrets" by (simp add: example_create_def)
  have "volume_bucket (sc_cfg example_client) ''pvc-1'' = ''data''" "sc_minio example_client = ''s3''"
    by (simp_all add: example_client_def volume_bucket_def secrets_config_def example_secrets_def)
  with create_volume_provisions [OF mem_store.object_store_axioms, of example_url example_create example_client None
      "store_of []", unfolded sec, OF client_from_example prod.collapse [symmetric]] run
  show ?thesis by simp
qed

text \<open>
  C21. Deleting a volume touches no bucket but the volume's, and not even that one unless the secrets ask for
  removal; nothing is ever added.  When it succeeds with the flag set, the whole bucket is gone.
\<close>

theorem delete_volume_confined:
  assumes "object_store mc buckets" and "newS3ClientFromSecrets mc parse (dv_Secrets req) = Inr s3"
    and "run_state (DeleteVolume mc parse validate req) w = (e, w')"
  shows "let b = volume_bucket (sc_cfg s3) (dv_VolumeId req); B = buckets (sc_minio s3) in
    (\<forall>b'. b' \<noteq> b \<longrightarrow> B w' b' = B w b') \<and>
    (B w' b = None \<or> (\<exists>gone. B w' b = map_option (\<lambda>s. s - gone) (B w b))) \<and>
    (\<not> RemoveOnDelete (sc_cfg s3) \<longrightarrow> B w' = B w) \<and>
    (e = None \<and> RemoveOnDelete (sc_cfg s3) \<longrightarrow> B w' b = None)"
  unfolding Let_def by (rule object_store.delete_run [OF assms(1,3,2)])

theorem delete_volume_confined_witness:
  "let r = run_state (DeleteVolume mem_minio example_url None example_delete)
       (store_of [(''data'', [''f'']), (''other'', [''g''])]) in
   fst r = None \<and> mem_buckets ''s3'' (snd r) ''data'' = None \<and> mem_buckets ''s3'' (snd r) ''other'' = Some {''g''}"
proof -
  let ?w = "store_of [(''data'', [''f'']), (''other'', [''g''])]"
  let ?m = "DeleteVolume mem_minio example_url None example_delete"
  have run: "fst (run_state ?m ?w) = None"
    by (simp add: DeleteVolume_def example_delete_def client_from_example)
      (simp add: Let_def example_client_def volume_bucket_def secrets_config_def example_secrets_def parse_bool_or_false_def
        ParseBool_def bucketExists_def removeBucket_def emptyBucket_def early_error_def mem_minio_def
        store_request_def store_of_def mset_key_def)
  have sec: "dv_Secrets example_delete = example_secrets" "dv_VolumeId example_delete = ''pvc-1''"
    by (simp_all add: example_delete_def)
  have cl: "volume_bucket (sc_cfg example_client) ''pvc-1'' = ''data''" "sc_minio example_client = ''s3''"
    "RemoveOnDelete (sc_cfg example_client)"
    by (simp_all add: example_client_def volume_bucket_def secrets_config_def example_secrets_def
        parse_bool_or_false_def ParseBool_def)
  have w: "mem_buckets ''s3'' ?w ''other'' = Some {''g''}" by (simp add: mem_buckets_def store_of_def)
  note d = delete_volume_confined [OF mem_store.object_store_axioms, of example_url example_delete example_client None
      ?w, unfolded sec, OF client_from_example prod.collapse [symmetric]]
  show ?thesis using d run w cl by (simp add: Let_def)
qed

section \<open>The node service\<close>

text \<open>The node service only makes a client; it sends the store nothing, so any store serves for a witness.\<close>

definition idle_minio :: "('w, string) minio_api" where
  "idle_minio =
     \<lparr>minio_NewWithRegion = (\<lambda>endpoint ak sk ssl reg. Inr endpoint),
      minio_BucketExists = (\<lambda>c b. State_Monad.return (Inl ''unavailable'')),
      minio_MakeBucket = (\<lambda>c b reg. State_Monad.return (Some ''unavailable'')),
      minio_RemoveBucket = (\<lambda>c b. State_Monad.return (Some ''unavailable'')),
      minio_ListObjects = (\<lambda>c b. State_Monad.return [Inl ''unavailable'']),
      minio_RemoveObjects = (\<lambda>c b ks. State_Monad.return [('''', ''unavailable'')]),
      minio_GetObject = (\<lambda>c b k. State_Monad.return (Some ''unavailable'')),
      minio_scheduled = State_Monad.return False\<rparr>"

text \<open>Programs that mount what they are told to, a host, and a request to publish with goofys.\<close>

definition mounting_program :: "string \<Rightarrow> string list \<Rightarrow> string option" where
  "mounting_program c args = (if args = [] then None else Some (last args))"

definition example_publish :: NodePublishRequest where
  "example_publish = \<lparr>np_VolumeId = ''pvc-1'', np_TargetPath = ''/pods/1'', np_StagingTargetPath = ''/stage'',
     np_VolumeCapability = Some \<lparr>vc_Mode = SINGLE_NODE_WRITER, vc_MountFlags = []\<rparr>, np_Readonly = False,
     np_VolumeContext = [(''mounter'', ''goofys'')], np_Secrets = example_secrets\<rparr>"

text \<open>
  C22. What the node service answers is what the kubelet sees: after a publication without an error the target
  is a mount point, whichever of the four mounters was chosen; after an unpublication without an error it is
  none, and every other mount is still there.
\<close>

theorem publish_mounts:
  assumes "host_mounts os mounts"
  shows "(run_state (NodePublishVolume mc os parse preq) w = (None, w') \<longrightarrow> np_TargetPath preq \<in> mounts w') \<and>
    (run_state (NodeUnpublishVolume os ureq) w = (None, w') \<longrightarrow> mounts w' = mounts w - {nu_TargetPath ureq})"
  using host_mounts.NodePublish_ok [OF assms] host_mounts.NodeUnpublish_ok [OF assms] by blast

theorem publish_mounts_witness:
  "let run = run_state (NodePublishVolume idle_minio (mem_os mounting_program) example_url example_publish) idle_host in
   fst run = None \<and> ''/pods/1'' \<in> mh_mounts (snd run)"
proof -
  let ?m = "NodePublishVolume idle_minio (mem_os mounting_program) example_url example_publish"
  have ok: "fst (run_state ?m idle_host) = None"
    by code_simp
  then have run: "run_state ?m idle_host = (None, snd (run_state ?m idle_host))" by (simp add: prod_eq_iff)
  have "np_TargetPath example_publish = ''/pods/1''" by (simp add: example_publish_def)
  with publish_mounts [OF mem_mounts.host_mounts_axioms, THEN conjunct1, rule_format, OF run] ok
  show ?thesis by (simp add: Let_def)
qed

text \<open>
  C23. The polling loops end, and soon: waiting for a mount sleeps at most its ten seconds, and an unmount at most
  nineteen, whatever the host answers.
\<close>

theorem waits_bounded:
  assumes "host_clock os slept"
  shows "(run_state (waitForMount os p (10 * 1000 * millisecond)) w = (e, w') \<longrightarrow>
      slept w' \<le> slept w + 10 * 1000 * millisecond) \<and>
    (run_state (NodeUnpublishVolume os ureq) w = (e', w') \<longrightarrow> slept w' \<le> slept w + 19 * 1000 * millisecond)"
proof (intro conjI impI)
  assume "run_state (waitForMount os p (10 * 1000 * millisecond)) w = (e, w')"
  from host_clock.waitForMount_loop_slept [OF assms this [unfolded waitForMount_def]]
  show "slept w' \<le> slept w + 10 * 1000 * millisecond" by (simp add: millisecond_def)
next
  assume "run_state (NodeUnpublishVolume os ureq) w = (e', w')"
  then consider "w' = w" | e2 where "run_state (fuseUnmount os (nu_TargetPath ureq)) w = (e2, w')"
    by (auto simp: NodeUnpublishVolume_def split: if_splits prod.splits)
  then show "slept w' \<le> slept w + 19 * 1000 * millisecond"
    by cases (auto simp: millisecond_def dest: host_clock.fuseUnmount_slept [OF assms])
qed

text \<open>A host where a process of the mount stays alive: the unmount gives up after the nineteen seconds.\<close>

definition busy_host :: mem_host where
  "busy_host = idle_host\<lparr>mh_table := [''/pods/1'' \<mapsto> \<lparr>mnt_source = ''b'', mnt_fstype = ''fuse'', mnt_options = []\<rparr>], mh_procs := [7],
     mh_cmdlines := [(''/proc/7/cmdline'', ''goofys/pods/1'')]\<rparr>"

definition example_unpublish :: NodeUnpublishRequest where
  "example_unpublish = \<lparr>nu_VolumeId = ''pvc-1'', nu_TargetPath = ''/pods/1''\<rparr>"

theorem waits_bounded_witness:
  "let run = run_state (NodeUnpublishVolume (mem_os mounting_program) example_unpublish) busy_host in
   fst run = Some (Status Internal ''Timeout waiting for PID 7 to end'') \<and> mh_slept (snd run) = 19 * 1000 * millisecond"
proof -
  let ?m = "NodeUnpublishVolume (mem_os mounting_program) example_unpublish"
  have "fst (run_state ?m busy_host) = Some (Status Internal ''Timeout waiting for PID 7 to end'') \<and>
      mh_slept (snd (run_state ?m busy_host)) \<ge> 19 * 1000 * millisecond"
    by code_simp
  moreover have "mh_slept (snd (run_state ?m busy_host)) \<le> mh_slept busy_host + 19 * 1000 * millisecond"
    using waits_bounded [OF mem_clock.host_clock_axioms] prod.collapse [symmetric] by metis
  moreover have "mh_slept busy_host = 0" by (simp add: busy_host_def idle_host_def)
  ultimately show ?thesis by (simp add: Let_def)
qed

text \<open>
  C35. The password file of s3fs is opened without truncation: after writing it the file holds the credentials of
  the volume exactly when the previous ones, of any volume on the node, were not longer.
\<close>

theorem s3fs_credentials:
  assumes "host_files os home files opened" and "run_state (writes3fsPass os pw) w = (None, w')"
  shows "files w' (home w @ ''/.passwd-s3fs'') = Some pw \<longleftrightarrow>
    (case files w (home w @ ''/.passwd-s3fs'') of None \<Rightarrow> True | Some old \<Rightarrow> length old \<le> length pw)"
  using host_files.writes3fsPass_ok [OF assms] by (simp add: overwrite_def split: option.splits)

definition used_host :: mem_host where
  "used_host = idle_host\<lparr>mh_files := [''/.passwd-s3fs'' \<mapsto> ''longkey:secret'']\<rparr>"

theorem s3fs_credentials_witness:
  "mh_files (snd (run_state (writes3fsPass (mem_os (\<lambda>_ _. None)) ''key:secret'') used_host)) ''/.passwd-s3fs'' \<noteq>
    Some ''key:secret''"
proof -
  let ?m = "writes3fsPass (mem_os (\<lambda>_ _. None)) ''key:secret''"
  have "run_state ?m used_host = (None, snd (run_state ?m used_host))"
    by (simp add: writes3fsPass_def mem_os_def used_host_def idle_host_def)
  from s3fs_credentials [OF mem_files.host_files_axioms this] show ?thesis
    by (simp add: used_host_def idle_host_def)
qed

end
