(* ===== verification/S3_Programs.thy ===== *)
theory S3_Programs
  imports S3_Driver
begin

text \<open>
  The programs that the node service of the S3 driver runs, in the locale \<open>host_programs\<close>: a publication runs the
  program of the mounter that was chosen, once, with the arguments of its configuration, or none.
\<close>

text \<open>The mounter of a bucket, and its command; s3backer mounts a file that its first mount provides.\<close>

definition chosen_mounter :: "bucket \<Rightarrow> Config \<Rightarrow> string \<Rightarrow> mounter" where
  "chosen_mounter b cfg volumeId =
     (let mounter = if length (bk_Mounter b) = 0 then Mounter cfg else bk_Mounter b in
      if mounter = ''goofys'' then Goofys (newGoofysMounter b cfg volumeId)
      else if mounter = ''rclone'' then Rclone (newRcloneMounter b cfg) else S3fs (newS3fsMounter b cfg))"

definition fuse_command :: "mounter \<Rightarrow> string \<Rightarrow> string \<times> string list" where
  "fuse_command m target = (case m of
     S3fs s3fs \<Rightarrow> (''s3fs'', s3fs_args s3fs target) | Goofys goofys \<Rightarrow> (''goofys'', goofys_args goofys target)
   | S3backer s3backer \<Rightarrow> (''s3backer'', s3backer_args s3backer target)
   | Rclone rclone \<Rightarrow> (''rclone'', rclone_args rclone target))"

lemma newMounter_chosen:
  "(if length (bk_Mounter b) = 0 then Mounter cfg else bk_Mounter b) \<noteq> ''s3backer'' \<Longrightarrow>
   newMounter os parse b cfg v = State_Monad.return (Inr (chosen_mounter b cfg v))"
  by (auto simp: newMounter_def chosen_mounter_def Let_def)

lemma chosen_mounter_fuse: "chosen_mounter b cfg v \<noteq> S3backer m"
  by (simp add: chosen_mounter_def Let_def)

text \<open>A computation that runs \<open>c\<close> and nothing else, or nothing; when it succeeds, it ran \<open>c\<close>.\<close>

context host_programs
begin

definition runs :: "('w, 'e option) state \<Rightarrow> string \<times> string list \<Rightarrow> bool" where
  "runs m c \<longleftrightarrow> (\<forall>w e w'. run_state m w = (e, w') \<longrightarrow>
     programs w' = programs w @ [c] \<or> e \<noteq> None \<and> programs w' = programs w)"

lemma runsD:
  "runs m c \<Longrightarrow> run_state m w = (e, w') \<Longrightarrow> programs w' = programs w @ [c] \<or> e \<noteq> None \<and> programs w' = programs w"
  by (simp add: runs_def)

lemma runs_map: "runs m c \<Longrightarrow> runs (do { e \<leftarrow> m; State_Monad.return (map_option f e) }) c"
  by (auto simp: runs_def split: prod.splits)

text \<open>What comes before the program runs none, and may end the computation with an error.\<close>

lemma runs_after:
  assumes "runs n c" and "\<And>w a w'. run_state m w = (a, w') \<Longrightarrow> programs w' = programs w"
  shows "runs (do { e \<leftarrow> m; case e of Some err \<Rightarrow> State_Monad.return (Some (f err)) | None \<Rightarrow> n }) c"
  unfolding runs_def
proof (intro allI impI)
  fix w e w' assume run: "run_state (do { e \<leftarrow> m; case e of Some err \<Rightarrow> State_Monad.return (Some (f err)) | None \<Rightarrow> n }) w = (e, w')"
  obtain a w1 where a: "run_state m w = (a, w1)" by fastforce
  show "programs w' = programs w @ [c] \<or> e \<noteq> None \<and> programs w' = programs w"
    using run a runsD [OF assms(1), of w1 e w'] assms(2) [OF a] by (cases a) auto
qed

lemma waitForMount_loop_programs:
  "run_state (waitForMount_loop os p timeout elapsed) w = (e, w') \<Longrightarrow> programs w' = programs w"
proof (induction "nat (timeout - elapsed)" arbitrary: elapsed w rule: less_induct)
  case less
  have sleep: "programs (snd (run_state (os_Sleep os n) w)) = programs w" for n w
    by (rule programs_sleep) (rule prod.collapse [symmetric])
  from less.prems show ?case
  proof (cases rule: run_waitForMount_loop)
    case (again w1)
    have "programs w' = programs (snd (run_state (os_Sleep os (10 * millisecond)) w1))"
      by (rule less.hyps [OF _ again(3)]) (use again(2) in \<open>simp add: millisecond_def\<close>)
    then show ?thesis using programs_is_not_mount [OF again(1)] sleep by simp
  qed (auto simp: sleep dest: programs_is_not_mount)
qed

lemma fuseMount_runs: "runs (fuseMount os p c args) (c, args)"
  by (auto simp: runs_def fuseMount_def waitForMount_def split: prod.splits option.splits
      dest!: programs_exec waitForMount_loop_programs)

lemma writes3fsPass_programs: "run_state (writes3fsPass os s) w = (e, w') \<Longrightarrow> programs w' = programs w"
  by (auto simp: writes3fsPass_def split: prod.splits sum.splits dest!: programs_getenv programs_open programs_write)

lemma append_profile_programs: "run_state (append_profile os g) w = (e, w') \<Longrightarrow> programs w' = programs w"
  by (auto simp: append_profile_def split: prod.splits sum.splits dest!: programs_getenv programs_open programs_write)

lemma writes3fsPassGoofy_programs: "run_state (writes3fsPassGoofy os g) w = (e, w') \<Longrightarrow> programs w' = programs w"
  by (auto simp: writes3fsPassGoofy_def split: prod.splits option.splits if_splits
      dest!: programs_getenv programs_stat programs_mkdir append_profile_programs)

text \<open>Each FUSE mounter, and the one that was chosen.\<close>

lemma rclone_runs: "runs (rclone_Mount os m source target) (''rclone'', rclone_args m target)"
  unfolding runs_def
proof (intro allI impI)
  fix w e w' assume run: "run_state (rclone_Mount os m source target) w = (e, w')"
  obtain u w1 where u: "run_state (os_Setenv os ''AWS_ACCESS_KEY_ID'' (rclone_accessKeyID m)) w = (u, w1)" by (rule prod.exhaust)
  obtain v w2 where v: "run_state (os_Setenv os ''AWS_SECRET_ACCESS_KEY'' (rclone_secretAccessKey m)) w1 = (v, w2)" by (rule prod.exhaust)
  from run u v have "run_state (fuseMount os target ''rclone'' (rclone_args m target)) w2 = (e, w')"
    by (simp add: rclone_Mount_def)
  from runsD [OF fuseMount_runs this] show
    "programs w' = programs w @ [(''rclone'', rclone_args m target)] \<or> e \<noteq> None \<and> programs w' = programs w"
    using programs_setenv [OF u] programs_setenv [OF v] by simp
qed

lemma mounter_runs: "(\<And>s. m \<noteq> S3backer s) \<Longrightarrow> runs (mounter_Mount os m source target) (fuse_command m target)"
  unfolding mounter_Mount_def fuse_command_def
  by (cases m) (auto simp: s3fs_Mount_def goofys_Mount_def rclone_runs
      intro!: runs_after [where f = "\<lambda>e. e"] fuseMount_runs dest: writes3fsPass_programs writes3fsPassGoofy_programs)

lemma mount_volume_runs:
  assumes "(if length (bk_Mounter b) = 0 then Mounter cfg else bk_Mounter b) \<noteq> ''s3backer''"
  shows "runs (mount_volume os parse b cfg v stage target) (fuse_command (chosen_mounter b cfg v) target)"
  using runs_map [OF mounter_runs [OF chosen_mounter_fuse]] by (simp add: mount_volume_def newMounter_chosen [OF assms])

lemma checkMount_programs: "run_state (checkMount os p) w = (r, w') \<Longrightarrow> programs w' = programs w"
  by (auto simp: checkMount_def split: prod.splits sum.splits if_splits option.splits
      dest!: programs_likely programs_mkdirall)

text \<open>A publication: the target is mounted already, or the command is run, or there is an error before it is run.\<close>

lemma NodePublish_programs:
  assumes run: "run_state (NodePublishVolume mc os parse req) w = (e, w')"
    and client: "newS3ClientFromSecrets mc parse (np_Secrets req) = Inr s3"
    and b: "b = \<lparr>bk_Name = Bucket (sc_cfg s3), bk_Folder = Folder (sc_cfg s3), bk_Mounter = mget (np_VolumeContext req) ''mounter''\<rparr>"
    and mounter: "(if length (bk_Mounter b) = 0 then Mounter (sc_cfg s3) else bk_Mounter b) \<noteq> ''s3backer''"
  obtains (mounted) "run_state (checkMount os (np_TargetPath req)) w = (Inr False, w')"
      and "programs w' = programs w"
  | (refused) "e \<noteq> None" and "programs w' = programs w"
  | (ran) "programs w' = programs w @ [fuse_command (chosen_mounter b (sc_cfg s3) (np_VolumeId req)) (np_TargetPath req)]"
proof -
  obtain r w1 where c: "run_state (checkMount os (np_TargetPath req)) w = (r, w1)" by fastforce
  note p = checkMount_programs [OF c]
  consider "r = Inr False" "w' = w1" | "e \<noteq> None" "w' = w1" | "e \<noteq> None" "w' = w"
    | "run_state (mount_volume os parse b (sc_cfg s3) (np_VolumeId req) (np_StagingTargetPath req) (np_TargetPath req)) w1 =
        (e, w')"
    using run c client unfolding NodePublishVolume_def b
    by (auto split: if_splits sum.splits bool.splits)
  then show thesis
  proof cases
    case 4
    from runsD [OF mount_volume_runs [OF mounter] this] show thesis using p ran refused by auto
  qed (use c p mounted refused in auto)
qed

end

end
