(* ===== verification/Ceph_Plugin.thy ===== *)
theory Ceph_Plugin
  imports Dataset_Internal
begin

text \<open>
  The Ceph caching plugin (\<open>src/plugins/ceph-cache-plugin/pkg/controller/dataset\<close>): \<open>ceph_related_objects.go\<close>,
  \<open>dataset_finalizer.go\<close> and \<open>dataset_controller.go\<close>.  For a dataset it sets up, one reconciliation after another, a
  config map, a Rook object store and an object store user, waits for the secret and the service that Rook makes
  of them, and then creates the DatasetInternal that points to the cache.

  The Rook custom resources and the Kubernetes nodes are reached through the record \<open>'w ceph_api\<close>, beside the
  \<open>'w cluster_api\<close> of the other objects, over the same world.
\<close>

section \<open>Rook resources\<close>

record PoolSpec =
  ps_FailureDomain :: string
  ps_ReplicatedSize :: int

text \<open>\<open>cst_NodeAffinity\<close> is the host name the gateway is bound to; \<open>cst_Phase = None\<close> is the nil status.\<close>

record CephObjectStore =
  cst_meta :: object_meta
  cst_MetadataPool :: PoolSpec
  cst_DataPool :: PoolSpec
  cst_PreservePoolsOnDelete :: bool
  cst_Instances :: int
  cst_Port :: int
  cst_NodeAffinity :: "string option"
  cst_Phase :: "string option"

record CephObjectStoreUser =
  csu_meta :: object_meta
  csu_Store :: string
  csu_DisplayName :: string

record 'w ceph_api =
  ceph_ListClusters :: "string \<Rightarrow> ('w, api_error + string list) state"
  ceph_ListNodes :: "smap \<Rightarrow> ('w, api_error + string list) state"
  ceph_GetStore :: "namespaced_name \<Rightarrow> ('w, api_error + CephObjectStore) state"
  ceph_CreateStore :: "CephObjectStore \<Rightarrow> ('w, api_error option) state"
  ceph_DeleteStore :: "CephObjectStore \<Rightarrow> ('w, api_error option) state"
  ceph_GetUser :: "namespaced_name \<Rightarrow> ('w, api_error + CephObjectStoreUser) state"
  ceph_CreateUser :: "CephObjectStoreUser \<Rightarrow> ('w, api_error option) state"
  ceph_DeleteUser :: "CephObjectStoreUser \<Rightarrow> ('w, api_error option) state"

section \<open>Objects of a dataset (\<open>ceph_related_objects.go\<close>)\<close>

definition rook_namespace :: "'w cluster_api \<Rightarrow> string" where
  "rook_namespace api = api_Getenv api ''ROOK_NAMESPACE''"

definition ceph_meta :: "'w cluster_api \<Rightarrow> Dataset \<Rightarrow> string \<Rightarrow> object_meta" where
  "ceph_meta api dataset name = ObjectMeta name (rook_namespace api)
     [(''dataset'', om_name (ds_meta dataset)), (''dataset-namespace'', om_namespace (ds_meta dataset)),
      (''dataset-uid'', om_uid (ds_meta dataset))]"

definition line :: "string \<Rightarrow> string" where "line s = s @ [char_of (10 :: nat)]"

definition rados_name :: "string \<Rightarrow> string" where "rados_name n = ''rook-ceph-rgw-'' @ n @ ''-custom''"

definition rados_config :: "smap \<Rightarrow> string" where
  "rados_config m = line '''' @ line ''[global]'' @ line ''rgw frontends = civetweb port=8000'' @
     line ''admin socket = /tmp/radosgw.8000.asok'' @ line (''remote s3 = '' @ mget m ''endpoint'') @
     line (''remote bucket = '' @ mget m ''bucket'') @ line (''remote id = '' @ mget m ''accessKeyID'') @
     line (''remote secret = '' @ mget m ''secretAccessKey'') @ line (''remote region = '' @ mget m ''region'')"

definition createCustomConfigMapForRados :: "'w cluster_api \<Rightarrow> Dataset \<Rightarrow> ('w, api_error option) state" where
  "createCustomConfigMapForRados api dataset =
     api_Create api (OConfigMap
       \<lparr>cm_meta = ceph_meta api dataset (rados_name (om_name (ds_meta dataset))),
        cm_Data = [(''config'', rados_config (local_map (ds_Spec dataset)))]\<rparr>)"

definition new_store :: "'w cluster_api \<Rightarrow> Dataset \<Rightarrow> string option \<Rightarrow> CephObjectStore" where
  "new_store api dataset affinity =
     (let pool = \<lparr>ps_FailureDomain = ''host'', ps_ReplicatedSize = 1\<rparr> in
      \<lparr>cst_meta = ceph_meta api dataset (om_name (ds_meta dataset)), cst_MetadataPool = pool, cst_DataPool = pool,
       cst_PreservePoolsOnDelete = False, cst_Instances = 1, cst_Port = 80, cst_NodeAffinity = affinity,
       cst_Phase = None\<rparr>)"

definition createCephObjectStore ::
  "'w cluster_api \<Rightarrow> 'w ceph_api \<Rightarrow> Dataset \<Rightarrow> ('w, api_error option) state" where
  "createCephObjectStore api ceph dataset =
     (case map_of (om_labels (ds_meta dataset)) ''cache.hostname'' of
        None \<Rightarrow> ceph_CreateStore ceph (new_store api dataset None)
      | Some rgwNode \<Rightarrow> do {
          r \<leftarrow> ceph_ListNodes ceph [(''kubernetes.io/hostname'', rgwNode)];
          ceph_CreateStore ceph (new_store api dataset
            (case r of Inr (_ # _) \<Rightarrow> Some rgwNode | _ \<Rightarrow> None))
        })"

definition createCephObjectStoreUser ::
  "'w cluster_api \<Rightarrow> 'w ceph_api \<Rightarrow> Dataset \<Rightarrow> ('w, api_error option) state" where
  "createCephObjectStoreUser api ceph dataset =
     ceph_CreateUser ceph \<lparr>csu_meta = ceph_meta api dataset (om_name (ds_meta dataset)),
       csu_Store = om_name (ds_meta dataset), csu_DisplayName = ''Ceph User''\<rparr>"

text \<open>Nil labels are the empty list: the API server stores an empty map as no map.\<close>

definition isSameCephObject :: "smap \<Rightarrow> Dataset \<Rightarrow> bool" where
  "isSameCephObject labels datasetInstance =
     (if labels = [] then False
      else if mget labels ''dataset'' \<noteq> om_name (ds_meta datasetInstance) then False
      else if mget labels ''dataset-namespace'' \<noteq> om_namespace (ds_meta datasetInstance) then False
      else if mget labels ''dataset-uid'' \<noteq> om_uid (ds_meta datasetInstance) then False
      else True)"

section \<open>Finalization (\<open>dataset_finalizer.go\<close>)\<close>

definition datasetsFinalizer :: string where "datasetsFinalizer = ''hpsys.ibm.ie.com''"

definition user_secret_name :: "string \<Rightarrow> string" where
  "user_secret_name n = ''rook-ceph-object-user-'' @ n @ ''-'' @ n"

text \<open>
  One object of the clean-up: get it, delete it if it is there.  A \<open>Get\<close> that fails otherwise returns the error
  \<open>generic\<close> computes from it.  The result is an early return (\<open>Inl\<close>) or the error of the \<open>Get\<close>, which the
  code keeps in \<open>err\<close>.
\<close>

definition clean_up ::
  "('w, api_error + 'a) state \<Rightarrow> ('a \<Rightarrow> ('w, api_error option) state) \<Rightarrow> (api_error \<Rightarrow> api_error option) \<Rightarrow>
    ('w, api_error option + api_error option) state" where
  "clean_up get delete generic = do {
     r \<leftarrow> get;
     case r of
       Inl err \<Rightarrow> State_Monad.return (if IsNotFound err then Inr (Some err) else Inl (generic err))
     | Inr x \<Rightarrow> do {
         errDelete \<leftarrow> delete x;
         State_Monad.return (case errDelete of Some e \<Rightarrow> Inl (Some e) | None \<Rightarrow> Inr None)
       }
   }"

definition next_step ::
  "('w, api_error option + api_error option) state \<Rightarrow> (api_error option \<Rightarrow> ('w, api_error option) state) \<Rightarrow>
    ('w, api_error option) state" where
  "next_step m f = do { r \<leftarrow> m; case r of Inl e \<Rightarrow> State_Monad.return e | Inr err \<Rightarrow> f err }"

text \<open>The generic errors of the store and of the config map return the variable \<open>err\<close>, not \<open>errLocal\<close>.\<close>

definition finalizeDataset :: "'w cluster_api \<Rightarrow> 'w ceph_api \<Rightarrow> Dataset \<Rightarrow> ('w, api_error option) state" where
  "finalizeDataset api ceph m =
     (let ns = rook_namespace api; n = om_name (ds_meta m) in
      next_step (clean_up (ceph_GetUser ceph (ns, n)) (ceph_DeleteUser ceph) Some) (\<lambda>err.
      next_step (clean_up (ceph_GetStore ceph (ns, n)) (ceph_DeleteStore ceph) (\<lambda>errLocal. err)) (\<lambda>_.
      next_step (clean_up (api_Get api KSecret (ns, user_secret_name n)) (api_Delete api) Some) (\<lambda>err.
      next_step (clean_up (api_Get api KConfigMap (ns, rados_name n)) (api_Delete api) (\<lambda>errLocal. err)) (\<lambda>_.
        State_Monad.return None)))))"

definition with_ds_finalizers :: "(string list \<Rightarrow> string list) \<Rightarrow> Dataset \<Rightarrow> Dataset" where
  "with_ds_finalizers f m = m\<lparr>ds_meta := (ds_meta m)\<lparr>om_finalizers := f (om_finalizers (ds_meta m))\<rparr>\<rparr>"

definition ceph_addFinalizer :: "'w cluster_api \<Rightarrow> Dataset \<Rightarrow> ('w, api_error option) state" where
  "ceph_addFinalizer api m =
     api_Update api (ODataset (with_ds_finalizers
       (\<lambda>fs. if contains fs datasetsFinalizer then fs else fs @ [datasetsFinalizer]) m))"

section \<open>The reconciler (\<open>dataset_controller.go\<close>)\<close>

definition addErrorToDataset :: "'w cluster_api \<Rightarrow> string \<Rightarrow> Dataset \<Rightarrow> ('w, api_error option) state" where
  "addErrorToDataset api errorString dataset =
     api_StatusUpdate api (ODataset (dataset\<lparr>ds_Status := (ds_Status dataset)
       \<lparr>st_Caching := (st_Caching (ds_Status dataset))\<lparr>sc_Info := errorString\<rparr>\<rparr>\<rparr>))"

definition getExactlyOneObject ::
  "'w cluster_api \<Rightarrow> kind \<Rightarrow> string \<Rightarrow> string \<Rightarrow> ('w, api_error + k8s_object) state" where
  "getExactlyOneObject api k name namespace = api_Get api k (namespace, name)"

definition requeue :: "('w, reconcile_return) state" where
  "requeue = State_Monad.return (ResultRequeue, None)"

definition finish :: "('w, reconcile_return) state" where
  "finish = State_Monad.return (Result, None)"

text \<open>\<open>if err != nil { return reconcile.Result{}, err }; return reconcile.Result{Requeue: true}, nil\<close>.\<close>

definition then_requeue :: "('w, api_error option) state \<Rightarrow> ('w, reconcile_return) state" where
  "then_requeue m = andthen m requeue"

subsection \<open>Caching placements\<close>

definition host_infos :: "Pod list \<Rightarrow> CachingPlacementInfo list" where
  "host_infos pods = map (\<lambda>p. \<lparr>cpi_Key = ''kubernetes.io/hostname'', cpi_Value = pod_NodeName p\<rparr>) pods"

text \<open>The result is the updated DatasetInternal when its status has to be written.\<close>

definition updateCachingPlacements ::
  "'w cluster_api \<Rightarrow> namespaced_name \<Rightarrow> Dataset \<Rightarrow> DatasetInternal \<Rightarrow> ('w, api_error + DatasetInternal option) state" where
  "updateCachingPlacements api request datasetInstance di =
     (let pl = di_Placements di in
      if \<not> (mget (om_annotations (ds_meta datasetInstance)) ''dlf-plugin-name'' = ''ceph-cache-plugin'' \<and>
            (length (cp_Gateways pl) = 0 \<or> length (cp_DataLocations pl) = 0)) then
        State_Monad.return (Inr None)
      else do {
        r \<leftarrow> api_ListPods api (rook_namespace api) [(''app'', ''rook-ceph-rgw''), (''rgw'', snd request)] [];
        case r of
          Inl err \<Rightarrow> State_Monad.return (Inl err)
        | Inr rgwPods \<Rightarrow>
            if length rgwPods = 0 then State_Monad.return (Inl (OtherError ''error rgw pod not found''))
            else do {
              r2 \<leftarrow> api_ListPods api (rook_namespace api) [(''app'', ''rook-ceph-osd'')] [];
              State_Monad.return (case r2 of
                Inl err \<Rightarrow> Inl err
              | Inr osdPods \<Rightarrow>
                  if length osdPods = 0 then Inl (OtherError ''error osd pods not found'')
                  else Inr (Some (di\<lparr>di_Placements :=
                    \<lparr>cp_Gateways = cp_Gateways pl @ host_infos rgwPods,
                     cp_DataLocations = cp_DataLocations pl @ host_infos osdPods\<rparr>\<rparr>)))
            }
      })"

text \<open>The part of \<open>Reconcile\<close> for a dataset whose DatasetInternal exists.\<close>

definition refresh_placements ::
  "'w cluster_api \<Rightarrow> namespaced_name \<Rightarrow> Dataset \<Rightarrow> DatasetInternal \<Rightarrow> ('w, reconcile_return) state" where
  "refresh_placements api request datasetInstance di = do {
     r \<leftarrow> updateCachingPlacements api request datasetInstance di;
     case r of
       Inl err \<Rightarrow> fail_with err
     | Inr None \<Rightarrow> finish
     | Inr (Some di') \<Rightarrow> do {
         err \<leftarrow> api_StatusUpdate api (ODatasetInternal di');
         State_Monad.return (Result, err)
       }
   }"

subsection \<open>The stages\<close>

definition wrong_owner :: "('w, reconcile_return) state" where
  "wrong_owner = fail_with (BadRequest ''rgw exists, but belongs to different dataset'')"

definition ceph_clusters ::
  "'w cluster_api \<Rightarrow> 'w ceph_api \<Rightarrow> Dataset \<Rightarrow> ('w, reconcile_return) state \<Rightarrow> ('w, reconcile_return) state" where
  "ceph_clusters api ceph ds k = do {
     r \<leftarrow> ceph_ListClusters ceph (rook_namespace api);
     case r of
       Inl err \<Rightarrow> andthen (addErrorToDataset api ''cannot lookup ceph clusters'' ds) (fail_with err)
     | Inr items \<Rightarrow>
         if length items = 0 then
           andthen (addErrorToDataset api ''no ceph clusters available'' ds)
             (fail_with (BadRequest ''no ceph clusters available''))
         else k
   }"

definition rados_stage ::
  "'w cluster_api \<Rightarrow> namespaced_name \<Rightarrow> Dataset \<Rightarrow> ('w, reconcile_return) state \<Rightarrow> ('w, reconcile_return) state" where
  "rados_stage api request ds k = do {
     r \<leftarrow> getExactlyOneObject api KConfigMap (rados_name (snd request)) (rook_namespace api);
     case r of
       Inl err \<Rightarrow> if IsNotFound err then then_requeue (createCustomConfigMapForRados api ds) else fail_with err
     | Inr x \<Rightarrow> if isSameCephObject (om_labels (meta_of x)) ds then k else wrong_owner
   }"

definition store_stage ::
  "'w cluster_api \<Rightarrow> 'w ceph_api \<Rightarrow> namespaced_name \<Rightarrow> Dataset \<Rightarrow> (CephObjectStore \<Rightarrow> ('w, reconcile_return) state) \<Rightarrow>
    ('w, reconcile_return) state" where
  "store_stage api ceph request ds k = do {
     r \<leftarrow> ceph_GetStore ceph (rook_namespace api, snd request);
     case r of
       Inl err \<Rightarrow> if IsNotFound err then then_requeue (createCephObjectStore api ceph ds) else fail_with err
     | Inr store \<Rightarrow>
         if \<not> isSameCephObject (om_labels (cst_meta store)) ds then wrong_owner
         else if cst_Phase store \<noteq> Some ''Connected'' then requeue
         else do {
           p \<leftarrow> api_ListPods api (rook_namespace api) [(''app'', ''rook-ceph-rgw''), (''rgw'', snd request)] [];
           case p of
             Inl err \<Rightarrow> fail_with err
           | Inr rgwPods \<Rightarrow> if length rgwPods = 0 then requeue else k store
         }
   }"

definition user_stage ::
  "'w cluster_api \<Rightarrow> 'w ceph_api \<Rightarrow> namespaced_name \<Rightarrow> Dataset \<Rightarrow> ('w, reconcile_return) state \<Rightarrow>
    ('w, reconcile_return) state" where
  "user_stage api ceph request ds k = do {
     r \<leftarrow> ceph_GetUser ceph (rook_namespace api, snd request);
     case r of
       Inl err \<Rightarrow> if IsNotFound err then then_requeue (createCephObjectStoreUser api ceph ds) else fail_with err
     | Inr user \<Rightarrow> if isSameCephObject (om_labels (csu_meta user)) ds then k else wrong_owner
   }"

definition secret_stage ::
  "'w cluster_api \<Rightarrow> Dataset \<Rightarrow> (Secret \<Rightarrow> ('w, reconcile_return) state) \<Rightarrow> ('w, reconcile_return) state" where
  "secret_stage api ds k = do {
     r \<leftarrow> api_Get api KSecret (rook_namespace api, user_secret_name (om_name (ds_meta ds)));
     case r of
       Inl err \<Rightarrow> if IsNotFound err then requeue else fail_with err
     | Inr (OSecret s) \<Rightarrow> k s
     | Inr _ \<Rightarrow> fail_with (OtherError ''unexpected object'')
   }"

definition service_stage ::
  "'w cluster_api \<Rightarrow> Dataset \<Rightarrow> CephObjectStore \<Rightarrow> (Service \<Rightarrow> ('w, reconcile_return) state) \<Rightarrow>
    ('w, reconcile_return) state" where
  "service_stage api ds store k = do {
     r \<leftarrow> api_Get api KService (rook_namespace api, ''rook-ceph-rgw-'' @ om_name (ds_meta ds));
     case r of
       Inl err \<Rightarrow> if IsNotFound err then requeue else fail_with err
     | Inr (OService svc) \<Rightarrow>
         (case om_ownerReferences (svc_meta svc) of
            [] \<Rightarrow> k svc
          | o1 # _ \<Rightarrow> if or_uid o1 \<noteq> om_uid (cst_meta store) then requeue else k svc)
     | Inr _ \<Rightarrow> fail_with (OtherError ''unexpected object'')
   }"

definition ceph_internal :: "Dataset \<Rightarrow> Secret \<Rightarrow> Service \<Rightarrow> DatasetInternal" where
  "ceph_internal ds secret svc =
     (let m = local_map (ds_Spec ds) in
      \<lparr>di_meta = ObjectMeta (om_name (ds_meta ds)) (om_namespace (ds_meta ds))
         (mset_key ''dlf-plugin-name'' ''ceph-cache-plugin''
           (mset_key ''dlf-plugin-type'' ''caching'' (om_labels (ds_meta ds)))),
       di_Spec = empty_spec\<lparr>sp_Local := Some
         [(''type'', ''COS''), (''accessKeyID'', mget (sec_Data secret) ''AccessKey''),
          (''secretAccessKey'', mget (sec_Data secret) ''SecretKey''),
          (''endpoint'', ''http://'' @ svc_ClusterIP svc), (''bucket'', mget m ''bucket''),
          (''provision'', mget m ''provision''), (''region'', mget m ''region'')]\<rparr>,
       di_Placements = empty_placement\<rparr>)"

definition create_ceph_internal ::
  "'w cluster_api \<Rightarrow> Dataset \<Rightarrow> Secret \<Rightarrow> Service \<Rightarrow> ('w, reconcile_return) state" where
  "create_ceph_internal api ds secret svc =
     (case api_SetControllerReference api (ODataset ds) (ODatasetInternal (ceph_internal ds secret svc)) of
        Inl err \<Rightarrow> fail_with err
      | Inr x \<Rightarrow> andthen (api_Create api x)
          (if contains (om_finalizers (ds_meta ds)) datasetsFinalizer then finish
           else andthen (ceph_addFinalizer api ds) finish))"

text \<open>Finalization of a dataset that is marked for deletion.\<close>

definition ceph_finalize :: "'w cluster_api \<Rightarrow> 'w ceph_api \<Rightarrow> Dataset \<Rightarrow> ('w, reconcile_return) state" where
  "ceph_finalize api ceph ds =
     (if contains (om_finalizers (ds_meta ds)) datasetsFinalizer then
        andthen (finalizeDataset api ceph ds)
          (andthen (api_Update api (ODataset (with_ds_finalizers (filter (\<lambda>f. f \<noteq> datasetsFinalizer)) ds))) finish)
      else finish)"

definition CephReconcile ::
  "'w cluster_api \<Rightarrow> 'w ceph_api \<Rightarrow> namespaced_name \<Rightarrow> ('w, reconcile_return) state" where
  "CephReconcile api ceph request = do {
     r \<leftarrow> api_Get api KDataset request;
     case r of
       Inl err \<Rightarrow> if IsNotFound err then finish else fail_with err
     | Inr (ODataset ds) \<Rightarrow>
         if om_deletionTimestamp (ds_meta ds) \<noteq> None then ceph_finalize api ceph ds
         else do {
           r2 \<leftarrow> api_Get api KDatasetInternal request;
           case r2 of
             Inr (ODatasetInternal di) \<Rightarrow> refresh_placements api request ds di
           | Inr _ \<Rightarrow> fail_with (OtherError ''unexpected object'')
           | Inl err \<Rightarrow>
               if \<not> IsNotFound err then fail_with err
               else ceph_clusters api ceph ds (rados_stage api request ds (store_stage api ceph request ds (\<lambda>store.
                 user_stage api ceph request ds (secret_stage api ds (\<lambda>secret. service_stage api ds store (\<lambda>svc.
                   create_ceph_internal api ds secret svc))))))
         }
     | Inr _ \<Rightarrow> fail_with (OtherError ''unexpected object'')
   }"

end
