(* ===== verification/Shared_World.thy ===== *)
theory Shared_World
  imports K8s_Api
begin

text \<open>
  Two services over one world: a computation on one half of a pair, and the API server contract for the cluster in
  the first half.  It combines the in-memory models of services that a component uses together.
\<close>

definition on_fst :: "('a, 'r) state \<Rightarrow> ('a \<times> 'b, 'r) state" where
  "on_fst m = State (\<lambda>(a, b). case run_state m a of (r, a') \<Rightarrow> (r, (a', b)))"

definition on_snd :: "('b, 'r) state \<Rightarrow> ('a \<times> 'b, 'r) state" where
  "on_snd m = State (\<lambda>(a, b). case run_state m b of (r, b') \<Rightarrow> (r, (a, b')))"

lemma run_on_fst: "run_state (on_fst m) w = (r, w') \<longleftrightarrow> run_state m (fst w) = (r, fst w') \<and> snd w' = snd w"
  by (cases w; cases w') (auto simp: on_fst_def split: prod.splits)

lemma run_on_snd: "run_state (on_snd m) w = (r, w') \<longleftrightarrow> run_state m (snd w) = (r, snd w') \<and> fst w' = fst w"
  by (cases w; cases w') (auto simp: on_snd_def split: prod.splits)

definition cluster_on_fst :: "'a cluster_api \<Rightarrow> ('a \<times> 'b) cluster_api" where
  "cluster_on_fst api =
     \<lparr>api_Get = (\<lambda>k n. on_fst (api_Get api k n)), api_Create = (\<lambda>x. on_fst (api_Create api x)),
      api_Update = (\<lambda>x. on_fst (api_Update api x)), api_StatusUpdate = (\<lambda>x. on_fst (api_StatusUpdate api x)),
      api_Delete = (\<lambda>x. on_fst (api_Delete api x)),
      api_ListPods = (\<lambda>ns ls hs. on_fst (api_ListPods api ns ls hs)),
      api_ListEvents = (\<lambda>ns n rv why. on_fst (api_ListEvents api ns n rv why)), api_NewUUID = on_fst (api_NewUUID api),
      api_SetControllerReference = api_SetControllerReference api, api_Getenv = api_Getenv api\<rparr>"

lemma api_server_on_fst:
  assumes "api_server api view"
  shows "api_server (cluster_on_fst api) (\<lambda>w. view (fst w))"
  by unfold_locales
    (auto simp: cluster_on_fst_def run_on_fst
      intro: api_server.view_key [OF assms] api_server.view_stored [OF assms] api_server.get_view [OF assms]
        api_server.get_found [OF assms] api_server.get_missing [OF assms] api_server.create_ok [OF assms]
        api_server.update_ok [OF assms] api_server.status_update_ok [OF assms] api_server.delete_ok [OF assms]
        api_server.list_pods_view [OF assms] api_server.list_events_view [OF assms]
        api_server.new_uuid_view [OF assms] api_server.set_reference [OF assms]
      dest: api_server.create_failed [OF assms] api_server.update_failed [OF assms]
        api_server.status_update_failed [OF assms] api_server.delete_failed [OF assms])

lemma calm_on_fst:
  assumes "calm_api_server api view calm"
  shows "calm_api_server (cluster_on_fst api) (\<lambda>w. view (fst w)) (\<lambda>w. calm (fst w))"
proof (rule calm_api_server.intro)
  show "api_server (cluster_on_fst api) (\<lambda>w. view (fst w))" by (rule api_server_on_fst [OF calm_api_server.axioms(1) [OF assms]])
  show "calm_api_server_axioms (cluster_on_fst api) (\<lambda>w. view (fst w)) (\<lambda>w. calm (fst w))"
    by (rule calm_api_server_axioms.intro; simp only: cluster_on_fst_def cluster_api.simps run_on_fst; (elim conjE)?)
      (rule calm_api_server.calm_get [OF assms] calm_api_server.calm_create [OF assms] calm_api_server.calm_update [OF assms]
        calm_api_server.calm_status_update [OF assms] calm_api_server.calm_delete [OF assms]
        calm_api_server.calm_list_pods [OF assms] calm_api_server.calm_list_events [OF assms]
        calm_api_server.calm_new_uuid [OF assms] calm_api_server.calm_set_reference [OF assms]; assumption)+
qed

lemma on_fst_frame: "run_state (on_fst m) w = (r, w') \<Longrightarrow> snd w' = snd w"
  by (simp add: run_on_fst)

end
