(* ===== verification/Ceph_Facts.thy ===== *)
theory Ceph_Facts
  imports Ceph_Plugin Shared_World
begin

text \<open>
  The contract of the Rook resources, \<open>ceph_server\<close>: an API server, and beside its \<open>view\<close> the object stores and
  users by namespace and name.  Requests about the ones leave the others alone.  Inside it each stage of the
  reconciler is characterised: it leaves the DatasetInternals as they are, or goes on in the same world with what it checked.
\<close>

text \<open>A live instance that points to the cache, with the keys of the Rook secret and the address of the gateway.\<close>

definition exposes :: "k8s_object \<Rightarrow> Dataset \<Rightarrow> Secret \<Rightarrow> Service \<Rightarrow> bool" where
  "exposes y ds secret svc \<longleftrightarrow> deletion_of y = None \<and> (\<exists>rs.
     payload y = payload (map_meta (\<lambda>m. m\<lparr>om_ownerReferences := rs\<rparr>) (ODatasetInternal (ceph_internal ds secret svc))))"

locale ceph_server = api_server api view
  for api :: "'w cluster_api" and view :: "'w \<Rightarrow> cluster" +
  fixes ceph :: "'w ceph_api"
    and stores :: "'w \<Rightarrow> (namespaced_name \<rightharpoonup> CephObjectStore)"
    and users :: "'w \<Rightarrow> (namespaced_name \<rightharpoonup> CephObjectStoreUser)"
  assumes clusters_same: "run_state (ceph_ListClusters ceph ns) w = (cl, w') \<Longrightarrow>
      view w' = view w \<and> stores w' = stores w \<and> users w' = users w"
    and nodes_same: "run_state (ceph_ListNodes ceph ls) w = (cl, w') \<Longrightarrow>
      view w' = view w \<and> stores w' = stores w \<and> users w' = users w"
    and get_store: "run_state (ceph_GetStore ceph n) w = (rs, w') \<Longrightarrow>
      view w' = view w \<and> stores w' = stores w \<and> users w' = users w \<and> (\<forall>s. rs = Inr s \<longrightarrow> stores w n = Some s)"
    and get_user: "run_state (ceph_GetUser ceph n) w = (ru, w') \<Longrightarrow>
      view w' = view w \<and> stores w' = stores w \<and> users w' = users w \<and> (\<forall>u. ru = Inr u \<longrightarrow> users w n = Some u)"
    and create_store: "run_state (ceph_CreateStore ceph s) w = (e1, w') \<Longrightarrow> view w' = view w \<and> users w' = users w"
    and delete_store: "run_state (ceph_DeleteStore ceph s) w = (e1, w') \<Longrightarrow> view w' = view w \<and> users w' = users w"
    and create_user: "run_state (ceph_CreateUser ceph u) w = (e1, w') \<Longrightarrow> view w' = view w \<and> stores w' = stores w"
    and delete_user: "run_state (ceph_DeleteUser ceph u) w = (e1, w') \<Longrightarrow> view w' = view w \<and> stores w' = stores w"
    and get_apart: "run_state (api_Get api k n) w = (r1, w') \<Longrightarrow> stores w' = stores w \<and> users w' = users w"
    and list_apart: "run_state (api_ListPods api ns ls hs) w = (ps, w') \<Longrightarrow> stores w' = stores w \<and> users w' = users w"
    and update_apart: "run_state (api_Update api x) w = (e1, w') \<Longrightarrow> stores w' = stores w \<and> users w' = users w"
begin

definition same :: "'w \<Rightarrow> 'w \<Rightarrow> bool" where
  "same w w' \<longleftrightarrow> view w' = view w \<and> stores w' = stores w \<and> users w' = users w"

text \<open>The DatasetInternals are as they were.\<close>

definition keeps :: "'w \<Rightarrow> 'w \<Rightarrow> bool" where
  "keeps w w' \<longleftrightarrow> (\<forall>n. view w' (KDatasetInternal, n) = view w (KDatasetInternal, n))"

lemma keepsD: "keeps w w' \<Longrightarrow> view w' (KDatasetInternal, n) = view w (KDatasetInternal, n)"
  unfolding keeps_def by blast

lemma same_refl [simp]: "same w w"
  by (simp add: same_def)

lemma same_trans: "same u v \<Longrightarrow> same v w \<Longrightarrow> same u w"
  by (simp add: same_def)

lemma same_keeps: "same w w' \<Longrightarrow> keeps w w'"
  by (simp add: same_def keeps_def)

lemma keeps_trans: "keeps u v \<Longrightarrow> keeps v w \<Longrightarrow> keeps u w"
  by (simp add: keeps_def)

lemma same_then: "same u v \<Longrightarrow> keeps v w \<Longrightarrow> keeps u w"
  using keeps_trans same_keeps by blast

lemma get_same: "run_state (api_Get api k n) w = (r1, w') \<Longrightarrow> same w w'"
  using get_view get_apart unfolding same_def by blast

lemma list_same: "run_state (api_ListPods api ns ls hs) w = (ps, w') \<Longrightarrow> same w w'"
  using list_pods_view list_apart unfolding same_def by blast

lemma off_keeps: "off {k. fst k \<noteq> KDatasetInternal} w w' \<Longrightarrow> keeps w w'"
  unfolding off_def keeps_def agree_off_def by simp

lemma obj_key_kind_of: "fst (obj_key x) = kind_of x"
  by (simp add: obj_key_def key_of_def)

lemma create_keeps: "run_state (api_Create api x) w = (e, w') \<Longrightarrow> kind_of x \<noteq> KDatasetInternal \<Longrightarrow> keeps w w'"
  by (rule off_keeps) (rule state_io_relD [OF frame_create], auto simp: obj_key_kind_of)

lemma update_keeps: "run_state (api_Update api x) w = (e, w') \<Longrightarrow> kind_of x \<noteq> KDatasetInternal \<Longrightarrow> keeps w w'"
  by (rule off_keeps) (rule state_io_relD [OF frame_update], auto simp: obj_key_kind_of)

lemma status_update_keeps:
  "run_state (api_StatusUpdate api x) w = (e, w') \<Longrightarrow> kind_of x \<noteq> KDatasetInternal \<Longrightarrow> keeps w w'"
  by (rule off_keeps) (rule state_io_relD [OF frame_status_update], auto simp: obj_key_kind_of)

lemma delete_keeps: "run_state (api_Delete api x) w = (e, w') \<Longrightarrow> kind_of x \<noteq> KDatasetInternal \<Longrightarrow> keeps w w'"
  by (rule off_keeps) (rule state_io_relD [OF frame_delete], auto simp: obj_key_kind_of)

lemma andthen_cases:
  assumes "run_state (andthen m n) w = (r, w')"
  obtains e where "run_state m w = (Some e, w')" and "r = (Result, Some e)"
  | w1 where "run_state m w = (None, w1)" and "run_state n w1 = (r, w')"
proof -
  obtain e w1 where e: "run_state m w = (e, w1)" by fastforce
  show thesis using assms e that by (cases e) (auto simp: andthen_def fail_with_def)
qed

lemma then_requeue_keeps:
  assumes "run_state (then_requeue m) w = (r, w')" and "\<And>e w1. run_state m w = (e, w1) \<Longrightarrow> keeps w w1"
  shows "keeps w w'"
  using assms(1) unfolding then_requeue_def
  by (cases rule: andthen_cases) (auto simp: requeue_def dest: assms(2))

lemma andthen_fail_keeps:
  assumes "run_state (andthen m (fail_with err)) w = (r, w')" and "\<And>e w1. run_state m w = (e, w1) \<Longrightarrow> keeps w w1"
  shows "keeps w w'"
  using assms(1) by (cases rule: andthen_cases) (auto simp: fail_with_def dest: assms(2))

lemma view_keeps: "view w' = view w \<Longrightarrow> keeps w w'"
  by (simp add: keeps_def)

text \<open>Each stage: nothing happened to the DatasetInternals, or the continuation ran in the same world.\<close>

lemma clusters_cases:
  assumes "run_state (ceph_clusters api ceph ds k) w = (r, w')"
  obtains "keeps w w'" | w1 where "same w w1" and "run_state k w1 = (r, w')"
proof -
  obtain x w1 where x: "run_state (ceph_ListClusters ceph (rook_namespace api)) w = (x, w1)" by fastforce
  have s: "same w w1" using clusters_same [OF x] by (simp add: same_def)
  consider "run_state k w1 = (r, w')"
    | msg err where "run_state (andthen (addErrorToDataset api msg ds) (fail_with err)) w1 = (r, w')"
    using assms x by (cases x) (auto simp: ceph_clusters_def split: if_splits)
  then show thesis
  proof cases
    case 2
    have "keeps w1 w'"
      by (rule andthen_fail_keeps [OF 2]) (auto simp: addErrorToDataset_def intro: status_update_keeps)
    then show thesis using that(1) same_then s by blast
  qed (use s that(2) in blast)
qed

lemma rados_cases:
  assumes "run_state (rados_stage api request ds k) w = (r, w')"
  obtains "keeps w w'"
  | w1 x where "same w w1" and "run_state k w1 = (r, w')" and "isSameCephObject (om_labels (meta_of x)) ds"
      and "view w (KConfigMap, (rook_namespace api, rados_name (snd request))) = Some x"
proof -
  obtain x w1 where x: "run_state (api_Get api KConfigMap (rook_namespace api, rados_name (snd request))) w = (x, w1)"
    by fastforce
  have s: "same w w1" by (rule get_same [OF x])
  consider "run_state (then_requeue (createCustomConfigMapForRados api ds)) w1 = (r, w')" | "w' = w1"
    | y where "x = Inr y" "isSameCephObject (om_labels (meta_of y)) ds" "run_state k w1 = (r, w')"
    using assms x
    by (cases x) (auto simp: rados_stage_def getExactlyOneObject_def wrong_owner_def fail_with_def split: if_splits)
  then show thesis
  proof cases
    case 1
    have "keeps w1 w'"
      by (rule then_requeue_keeps [OF 1]) (auto simp: createCustomConfigMapForRados_def intro: create_keeps)
    then show thesis using that(1) same_then s by blast
  next
    case 2
    then show thesis using that(1) same_keeps s by blast
  next
    case 3
    then show thesis using that(2) [OF s 3(3,2)] get_found [OF x [unfolded 3(1)]] by (simp add: key_of_def)
  qed
qed

lemma store_cases:
  assumes "run_state (store_stage api ceph request ds k) w = (r, w')"
  obtains "keeps w w'"
  | w1 s where "same w w1" and "run_state (k s) w1 = (r, w')" and "isSameCephObject (om_labels (cst_meta s)) ds"
      and "stores w (rook_namespace api, snd request) = Some s" and "cst_Phase s = Some ''Connected''"
proof -
  obtain x w1 where x: "run_state (ceph_GetStore ceph (rook_namespace api, snd request)) w = (x, w1)" by fastforce
  obtain p w2 where p: "run_state (api_ListPods api (rook_namespace api)
      [(''app'', ''rook-ceph-rgw''), (''rgw'', snd request)] []) w1 = (p, w2)" by fastforce
  have s: "same w w1" using get_store [OF x] by (simp add: same_def)
  then have s2: "same w w2" using list_same [OF p] same_trans by blast
  consider "run_state (then_requeue (createCephObjectStore api ceph ds)) w1 = (r, w')" | "w' = w1 \<or> w' = w2"
    | y where "x = Inr y" "isSameCephObject (om_labels (cst_meta y)) ds" "cst_Phase y = Some ''Connected''"
        "run_state (k y) w2 = (r, w')"
    using assms x p
    by (cases x)
      (auto simp: store_stage_def wrong_owner_def fail_with_def requeue_def split: if_splits sum.splits)
  then show thesis
  proof cases
    case 1
    have "keeps w1 w'"
      by (rule then_requeue_keeps [OF 1])
        (auto simp: createCephObjectStore_def split: option.splits prod.splits
          intro!: view_keeps dest!: create_store nodes_same)
    then show thesis using that(1) same_then s by blast
  next
    case 2
    then show thesis using that(1) same_keeps s s2 by blast
  next
    case 3
    then show thesis using that(2) [OF s2 3(4,2)] get_store [OF x] by simp
  qed
qed

lemma user_cases:
  assumes "run_state (user_stage api ceph request ds k) w = (r, w')"
  obtains "keeps w w'"
  | w1 u where "same w w1" and "run_state k w1 = (r, w')" and "isSameCephObject (om_labels (csu_meta u)) ds"
      and "users w (rook_namespace api, snd request) = Some u"
proof -
  obtain x w1 where x: "run_state (ceph_GetUser ceph (rook_namespace api, snd request)) w = (x, w1)" by fastforce
  have s: "same w w1" using get_user [OF x] by (simp add: same_def)
  consider "run_state (then_requeue (createCephObjectStoreUser api ceph ds)) w1 = (r, w')" | "w' = w1"
    | y where "x = Inr y" "isSameCephObject (om_labels (csu_meta y)) ds" "run_state k w1 = (r, w')"
    using assms x by (cases x) (auto simp: user_stage_def wrong_owner_def fail_with_def split: if_splits)
  then show thesis
  proof cases
    case 1
    have "keeps w1 w'"
      by (rule then_requeue_keeps [OF 1])
        (auto simp: createCephObjectStoreUser_def intro!: view_keeps dest!: create_user)
    then show thesis using that(1) same_then s by blast
  next
    case 2
    then show thesis using that(1) same_keeps s by blast
  next
    case 3
    then show thesis using that(2) [OF s 3(3,2)] get_user [OF x] by simp
  qed
qed

lemma secret_cases:
  assumes "run_state (secret_stage api ds k) w = (r, w')"
  obtains "keeps w w'"
  | w1 s where "same w w1" and "run_state (k s) w1 = (r, w')"
      and "view w (KSecret, (rook_namespace api, user_secret_name (om_name (ds_meta ds)))) = Some (OSecret s)"
proof -
  obtain x w1 where
    x: "run_state (api_Get api KSecret (rook_namespace api, user_secret_name (om_name (ds_meta ds)))) w = (x, w1)"
    by fastforce
  have s: "same w w1" by (rule get_same [OF x])
  consider "w' = w1" | y where "x = Inr (OSecret y)" "run_state (k y) w1 = (r, w')"
    using assms x
    by (auto simp: secret_stage_def fail_with_def requeue_def split: sum.splits k8s_object.splits if_splits)
  then show thesis
  proof cases
    case 1
    then show thesis using that(1) same_keeps s by blast
  next
    case 2
    then show thesis using that(2) [OF s 2(2)] get_found [OF x [unfolded 2(1)]] by (simp add: key_of_def)
  qed
qed

lemma service_cases:
  assumes "run_state (service_stage api ds store k) w = (r, w')"
  obtains "keeps w w'"
  | w1 s where "same w w1" and "run_state (k s) w1 = (r, w')"
      and "view w (KService, (rook_namespace api, ''rook-ceph-rgw-'' @ om_name (ds_meta ds))) = Some (OService s)"
      and "om_ownerReferences (svc_meta s) = [] \<or> or_uid (hd (om_ownerReferences (svc_meta s))) = om_uid (cst_meta store)"
proof -
  obtain x w1 where
    x: "run_state (api_Get api KService (rook_namespace api, ''rook-ceph-rgw-'' @ om_name (ds_meta ds))) w = (x, w1)"
    by fastforce
  have s: "same w w1" by (rule get_same [OF x])
  consider "w' = w1" | y where "x = Inr (OService y)" "run_state (k y) w1 = (r, w')"
        "om_ownerReferences (svc_meta y) = [] \<or> or_uid (hd (om_ownerReferences (svc_meta y))) = om_uid (cst_meta store)"
    using assms x
    by (auto simp: service_stage_def fail_with_def requeue_def split: sum.splits k8s_object.splits if_splits list.splits)
  then show thesis
  proof cases
    case 1
    then show thesis using that(1) same_keeps s by blast
  next
    case 2
    then show thesis using that(2) [OF s 2(2) _ 2(3)] get_found [OF x [unfolded 2(1)]] by (simp add: key_of_def)
  qed
qed

text \<open>The last stage creates the DatasetInternal it was asked for, or none.\<close>

lemma create_internal_cases:
  assumes "run_state (create_ceph_internal api ds secret svc) w = (r, w')"
  obtains "keeps w w'"
  | y where "\<And>n. view w' (KDatasetInternal, n) \<noteq> view w (KDatasetInternal, n) \<Longrightarrow>
        (KDatasetInternal, n) = obj_key y \<and> view w' (KDatasetInternal, n) = Some y"
      and "exposes y ds secret svc"
proof (cases "api_SetControllerReference api (ODataset ds) (ODatasetInternal (ceph_internal ds secret svc))")
  case (Inl err)
  then have "w' = w" using assms by (simp add: create_ceph_internal_def fail_with_def)
  then show thesis using that(1) by (simp add: keeps_def)
next
  case (Inr x)
  then obtain rs where x: "x = map_meta (\<lambda>m. m\<lparr>om_ownerReferences := rs\<rparr>) (ODatasetInternal (ceph_internal ds secret svc))"
    using set_reference by blast
  obtain e w1 where e: "run_state (api_Create api x) w = (e, w1)" by fastforce
  have "keeps w1 w'"
    using assms e Inr
    by (auto simp: create_ceph_internal_def finish_def andthen_def fail_with_def ceph_addFinalizer_def
        split: option.splits if_splits prod.splits intro: update_keeps view_keeps)
  then have last: "view w' (KDatasetInternal, n) = view w1 (KDatasetInternal, n)" for n by (rule keepsD)
  consider "view w1 = view w" | "created x (view w) (view w1)"
    using create_ok create_failed e by (cases e) blast+
  then show thesis
  proof cases
    case 1
    then show thesis using that(1) last by (simp add: keeps_def)
  next
    case 2
    then obtain y where y: "view w1 = (view w)(obj_key y \<mapsto> y)" "payload y = payload x" "deletion_of y = None"
      unfolding created_def by metis
    then have "exposes y ds secret svc" using x by (auto simp: exposes_def)
    moreover have "(KDatasetInternal, n) = obj_key y \<and> view w' (KDatasetInternal, n) = Some y"
      if "view w' (KDatasetInternal, n) \<noteq> view w (KDatasetInternal, n)" for n
      using that unfolding last y(1) fun_upd_apply by metis
    ultimately show thesis using that(2) by blast
  qed
qed

end

text \<open>The objects of a dataset's cache in a world, as the plugin made and checked them.\<close>

definition cache_ready ::
  "'w cluster_api \<Rightarrow> cluster \<Rightarrow> (namespaced_name \<rightharpoonup> CephObjectStore) \<Rightarrow> (namespaced_name \<rightharpoonup> CephObjectStoreUser) \<Rightarrow>
    Dataset \<Rightarrow> Secret \<Rightarrow> Service \<Rightarrow> bool" where
  "cache_ready api v st us ds secret svc \<longleftrightarrow>
     (let ns = rook_namespace api; n = om_name (ds_meta ds) in
      (\<exists>cm. v (KConfigMap, (ns, rados_name n)) = Some cm \<and> isSameCephObject (om_labels (meta_of cm)) ds) \<and>
      (\<exists>s. st (ns, n) = Some s \<and> isSameCephObject (om_labels (cst_meta s)) ds \<and> cst_Phase s = Some ''Connected'' \<and>
        (om_ownerReferences (svc_meta svc) = [] \<or>
         or_uid (hd (om_ownerReferences (svc_meta svc))) = om_uid (cst_meta s))) \<and>
      (\<exists>u. us (ns, n) = Some u \<and> isSameCephObject (om_labels (csu_meta u)) ds) \<and>
      v (KSecret, (ns, user_secret_name n)) = Some (OSecret secret) \<and>
      v (KService, (ns, ''rook-ceph-rgw-'' @ n)) = Some (OService svc))"

context ceph_server
begin

lemma provision_guarded:
  assumes run: "run_state (ceph_clusters api ceph ds (rados_stage api n ds (store_stage api ceph n ds (\<lambda>store.
      user_stage api ceph n ds (secret_stage api ds (\<lambda>secret. service_stage api ds store (\<lambda>svc.
        create_ceph_internal api ds secret svc))))))) w = (r, w')"
    and name: "snd n = om_name (ds_meta ds)"
    and new: "view w' (KDatasetInternal, m) \<noteq> view w (KDatasetInternal, m)"
  shows "\<exists>secret svc y. cache_ready api (view w) (stores w) (users w) ds secret svc \<and>
    view w' (KDatasetInternal, m) = Some y \<and>
    exposes y ds secret svc"
proof -
  have no: "\<not> keeps u w'" if "same w u" for u
    using that new keepsD [of u w' m] unfolding same_def by metis
  have nk: "\<not> keeps w w'" by (rule no) simp
  from run show ?thesis
  proof (cases rule: clusters_cases)
    case (2 w1)
    have s1: "same w w1" by (fact 2(1))
    from 2(2) show ?thesis
    proof (cases rule: rados_cases)
      case c: (2 w2 cm)
      have s2: "same w w2" using s1 c(1) same_trans by blast
      from c(2) show ?thesis
      proof (cases rule: store_cases)
        case t: (2 w3 s)
        have s3: "same w w3" using s2 t(1) same_trans by blast
        from t(2) show ?thesis
        proof (cases rule: user_cases)
          case u: (2 w4 us)
          have s4: "same w w4" using s3 u(1) same_trans by blast
          from u(2) show ?thesis
          proof (cases rule: secret_cases)
            case k: (2 w5 secret)
            have s5: "same w w5" using s4 k(1) same_trans by blast
            from k(2) show ?thesis
            proof (cases rule: service_cases)
              case v: (2 w6 svc)
              have s6: "same w w6" using s5 v(1) same_trans by blast
              have "cache_ready api (view w) (stores w) (users w) ds secret svc"
                unfolding cache_ready_def Let_def
                using c(3,4) t(3,4,5) u(3,4) k(3) v(3,4) s1 s2 s3 s4 s5 name unfolding same_def by metis
              moreover from v(2) have "\<exists>y. view w' (KDatasetInternal, m) = Some y \<and> exposes y ds secret svc"
              proof (cases rule: create_internal_cases)
                case (2 y)
                have "view w' (KDatasetInternal, m) \<noteq> view w6 (KDatasetInternal, m)"
                  using new s6 unfolding same_def by metis
                from 2(1) [OF this] 2(2) show ?thesis by blast
              qed (use no [OF s6] in blast)
              ultimately show ?thesis by blast
            qed (use no s5 in blast)
          qed (use no s4 in blast)
        qed (use no s3 in blast)
      qed (use no s2 in blast)
    qed (use no s1 in blast)
  qed (use nk in blast)
qed

end

end
