(* ===== verification/Ceph_Properties.thy ===== *)
theory Ceph_Properties
  imports Ceph_Facts Internal_Properties
begin

text \<open>
  The properties of the Ceph caching plugin, and an in-memory Rook beside the in-memory API server that
  interprets \<open>ceph_server\<close>.
\<close>

section \<open>Runs that do not provision\<close>

lemma status_updated_none: "status_updated x v v' \<Longrightarrow> v k = None \<Longrightarrow> v' k = None"
  unfolding status_updated_def by (metis fun_upd_apply option.distinct(1))

lemma updated_removes:
  "updated x v v' \<Longrightarrow> v (obj_key x) = Some old \<Longrightarrow> deletion_of old \<noteq> None \<Longrightarrow> finalizers_of x = [] \<Longrightarrow>
    v' (obj_key x) = None"
  by (auto simp: updated_def)

context ceph_server
begin

definition no_new :: "'w \<Rightarrow> 'w \<Rightarrow> bool" where
  "no_new w w' \<longleftrightarrow> (\<forall>n. view w (KDatasetInternal, n) = None \<longrightarrow> view w' (KDatasetInternal, n) = None)"

lemma keeps_no_new: "keeps w w' \<Longrightarrow> no_new w w'"
  unfolding keeps_def no_new_def by metis

lemma no_new_trans: "no_new u v \<Longrightarrow> no_new v w \<Longrightarrow> no_new u w"
  unfolding no_new_def by blast

lemma keeps_reflp [simp, intro]: "reflp keeps"
  by (simp add: reflp_def keeps_def)

lemma keeps_transp [simp, intro]: "transp keeps"
  using keeps_trans by (auto simp: transp_def)

lemma clean_up_keeps:
  assumes "state_io_rel keeps get" and "\<And>w x w1. run_state get w = (Inr x, w1) \<Longrightarrow> state_io_rel keeps (delete x)"
  shows "state_io_rel keeps (clean_up get delete g)"
proof (rule state_io_relI)
  fix r w w'
  assume run: "run_state (clean_up get delete g) w = (r, w')"
  obtain x w1 where x: "run_state get w = (x, w1)" by fastforce
  have k: "keeps w w1" using assms(1) x by blast
  show "keeps w w'"
  proof (cases x)
    case (Inl err)
    then show ?thesis using run x k by (simp add: clean_up_def)
  next
    case (Inr y)
    then obtain e where "run_state (delete y) w1 = (e, w')"
      using run x by (auto simp: clean_up_def split: prod.splits)
    then have "keeps w1 w'" using assms(2) [OF x [unfolded Inr]] by blast
    then show ?thesis using k keeps_trans by blast
  qed
qed

lemma next_step_keeps:
  "state_io_rel keeps m \<Longrightarrow> (\<And>err. state_io_rel keeps (f err)) \<Longrightarrow> state_io_rel keeps (next_step m f)"
  unfolding next_step_def by (intro frame_intros keeps_transp keeps_reflp)

lemma get_keeps: "state_io_rel keeps (api_Get api k n)"
  by (rule state_io_relI) (auto intro: same_keeps get_same)

lemma delete_got_keeps:
  assumes "run_state (api_Get api k n) w = (Inr x, w1)" and "k \<noteq> KDatasetInternal"
  shows "state_io_rel keeps (api_Delete api x)"
proof (rule state_io_relI)
  fix e u u'
  have "kind_of x = k"
    using view_key [OF get_found [OF assms(1)]] obj_key_kind_of [of x] by (auto simp: key_of_def split: if_splits)
  moreover assume "run_state (api_Delete api x) u = (e, u')"
  ultimately show "keeps u u'" using assms(2) delete_keeps by blast
qed

lemma ceph_request_keeps:
  "state_io_rel keeps (ceph_GetUser ceph k)" "state_io_rel keeps (ceph_GetStore ceph k)"
  "state_io_rel keeps (ceph_DeleteUser ceph u)" "state_io_rel keeps (ceph_DeleteStore ceph s)"
  by (auto intro!: state_io_relI view_keeps dest: get_user get_store delete_user delete_store)

lemma finalizeDataset_keeps: "state_io_rel keeps (finalizeDataset api ceph m)"
  unfolding finalizeDataset_def Let_def
  by (intro next_step_keeps clean_up_keeps get_keeps state_io_rel_return keeps_reflp ceph_request_keeps)
    (auto intro: delete_got_keeps)

lemma frame_ceph_finalize: "state_io_rel keeps (ceph_finalize api ceph ds)"
proof -
  have "state_io_rel keeps (api_Update api (ODataset d))" for d
    by (rule state_io_relI) (auto intro: update_keeps)
  then show ?thesis
    unfolding ceph_finalize_def andthen_def finish_def fail_with_def
    by (intro frame_intros keeps_transp keeps_reflp finalizeDataset_keeps)
qed

lemma ceph_finalize_keeps: "run_state (ceph_finalize api ceph ds) w = (r, w') \<Longrightarrow> keeps w w'"
  by (rule state_io_relD [OF frame_ceph_finalize])

lemma refresh_no_new: "run_state (refresh_placements api n ds di) w = (r, w') \<Longrightarrow> no_new w w'"
proof -
  assume run: "run_state (refresh_placements api n ds di) w = (r, w')"
  obtain u w1 where u: "run_state (updateCachingPlacements api n ds di) w = (u, w1)" by fastforce
  have s: "keeps w w1"
    using u by (auto simp: updateCachingPlacements_def Let_def split: if_splits prod.splits sum.splits
        intro!: view_keeps dest!: list_pods_view)
  show ?thesis
  proof (cases "\<exists>d. u = Inr (Some d)")
    case True
    then obtain d e where e: "run_state (api_StatusUpdate api (ODatasetInternal d)) w1 = (e, w')"
      using run u by (auto simp: refresh_placements_def split: prod.splits)
    then have "view w' = view w1 \<or> status_updated (ODatasetInternal d) (view w1) (view w')"
      using status_update_ok status_update_failed by (cases e) blast+
    then have "no_new w1 w'" unfolding no_new_def using status_updated_none by metis
    then show ?thesis using keeps_no_new [OF s] no_new_trans by blast
  next
    case False
    then have "w' = w1"
      using run u by (auto simp: refresh_placements_def fail_with_def finish_def split: sum.splits option.splits)
    then show ?thesis using keeps_no_new s by blast
  qed
qed

lemma reconcile_guarded:
  assumes run: "run_state (CephReconcile api ceph n) w = (r, w')"
    and new: "view w (KDatasetInternal, m) = None" "view w' (KDatasetInternal, m) = Some y"
  shows "\<exists>ds secret svc. view w (KDataset, n) = Some (ODataset ds) \<and> om_deletionTimestamp (ds_meta ds) = None \<and>
    cache_ready api (view w) (stores w) (users w) ds secret svc \<and>
    exposes y ds secret svc"
proof -
  have nn: "\<not> no_new w w'" using new unfolding no_new_def by (metis option.distinct(1))
  obtain x w1 where x: "run_state (api_Get api KDataset n) w = (x, w1)" by fastforce
  have s1: "same w w1" by (rule get_same [OF x])
  obtain x2 w2 where x2: "run_state (api_Get api KDatasetInternal n) w1 = (x2, w2)" by fastforce
  have s2: "same w w2" using s1 get_same [OF x2] same_trans by blast
  have bad: False if "keeps u w'" "same w u" for u
    using that nn same_then keeps_no_new by blast
  have bad2: False if "no_new u w'" "same w u" for u
    using that nn no_new_trans keeps_no_new same_keeps by blast
  obtain ds where ds: "x = Inr (ODataset ds)"
  proof (cases "\<exists>ds. x = Inr (ODataset ds)")
    case False
    then have "w' = w1"
      using run x by (auto simp: CephReconcile_def fail_with_def finish_def split: sum.splits k8s_object.splits if_splits)
    then show thesis using bad [OF _ s1] by (simp add: keeps_def)
  qed (use that in blast)
  have alive: "om_deletionTimestamp (ds_meta ds) = None"
  proof (rule ccontr)
    assume d: "om_deletionTimestamp (ds_meta ds) \<noteq> None"
    then have "run_state (ceph_finalize api ceph ds) w1 = (r, w')" using run x ds by (simp add: CephReconcile_def)
    then show False using bad [OF ceph_finalize_keeps s1] by blast
  qed
  consider "w' = w2" | di where "run_state (refresh_placements api n ds di) w2 = (r, w')"
    | "run_state (ceph_clusters api ceph ds (rados_stage api n ds (store_stage api ceph n ds (\<lambda>store.
        user_stage api ceph n ds (secret_stage api ds (\<lambda>secret. service_stage api ds store (\<lambda>svc.
          create_ceph_internal api ds secret svc))))))) w2 = (r, w')"
    using run x ds alive x2
    by (auto simp: CephReconcile_def fail_with_def split: sum.splits k8s_object.splits if_splits)
  then show ?thesis
  proof cases
    case 1
    then show ?thesis using bad [OF _ s2] by (simp add: keeps_def)
  next
    case 2
    then show ?thesis using bad2 [OF refresh_no_new s2] by blast
  next
    case 3
    have found: "view w (KDataset, n) = Some (ODataset ds)"
      using get_found [OF x [unfolded ds]] by (simp add: key_of_def)
    have name: "snd n = om_name (ds_meta ds)"
      using view_key [OF found] by (auto simp: obj_key_def key_of_def)
    have "view w' (KDatasetInternal, m) \<noteq> view w2 (KDatasetInternal, m)"
      using new s2 unfolding same_def by simp
    from provision_guarded [OF 3 name this] show ?thesis
      using found alive new s2 unfolding same_def by (metis option.inject)
  qed
qed

end

section \<open>An in-memory Rook\<close>

text \<open>Each request consumes one entry of the fault schedule and fails without effect when it is \<open>True\<close>.\<close>

record rook_world =
  rw_clusters :: "string list"
  rw_nodes :: "string list"
  rw_stores :: "namespaced_name \<rightharpoonup> CephObjectStore"
  rw_users :: "namespaced_name \<rightharpoonup> CephObjectStoreUser"
  rw_faults :: "bool list"

definition rook_call :: "(rook_world \<Rightarrow> (api_error + 'a) \<times> rook_world) \<Rightarrow> (rook_world, api_error + 'a) state" where
  "rook_call f = State (\<lambda>w. case rw_faults w of
     [] \<Rightarrow> f w
   | b # fs \<Rightarrow> if b then (Inl (OtherError ''injected fault''), w\<lparr>rw_faults := fs\<rparr>) else f (w\<lparr>rw_faults := fs\<rparr>))"

definition rook_write :: "(rook_world \<Rightarrow> rook_world) \<Rightarrow> (rook_world, api_error option) state" where
  "rook_write f = do {
     r \<leftarrow> rook_call (\<lambda>w. (Inr (), f w));
     State_Monad.return (case r of Inl e \<Rightarrow> Some e | Inr _ \<Rightarrow> None)
   }"

definition found_or :: "namespaced_name \<Rightarrow> 'a option \<Rightarrow> api_error + 'a" where
  "found_or n x = (case x of None \<Rightarrow> Inl (NotFound (snd n)) | Some y \<Rightarrow> Inr y)"

abbreviation meta_name :: "object_meta \<Rightarrow> namespaced_name" where
  "meta_name m \<equiv> (om_namespace m, om_name m)"

definition mem_rook :: "('a \<times> rook_world) ceph_api" where
  "mem_rook =
     \<lparr>ceph_ListClusters = (\<lambda>ns. on_snd (rook_call (\<lambda>w. (Inr (rw_clusters w), w)))),
      ceph_ListNodes = (\<lambda>ls. on_snd (rook_call (\<lambda>w. (Inr (rw_nodes w), w)))),
      ceph_GetStore = (\<lambda>n. on_snd (rook_call (\<lambda>w. (found_or n (rw_stores w n), w)))),
      ceph_CreateStore = (\<lambda>s. on_snd (rook_write (\<lambda>w. w\<lparr>rw_stores := (rw_stores w)(meta_name (cst_meta s) \<mapsto> s)\<rparr>))),
      ceph_DeleteStore = (\<lambda>s. on_snd (rook_write (\<lambda>w. w\<lparr>rw_stores := (rw_stores w)(meta_name (cst_meta s) := None)\<rparr>))),
      ceph_GetUser = (\<lambda>n. on_snd (rook_call (\<lambda>w. (found_or n (rw_users w n), w)))),
      ceph_CreateUser = (\<lambda>u. on_snd (rook_write (\<lambda>w. w\<lparr>rw_users := (rw_users w)(meta_name (csu_meta u) \<mapsto> u)\<rparr>))),
      ceph_DeleteUser = (\<lambda>u. on_snd (rook_write (\<lambda>w. w\<lparr>rw_users := (rw_users w)(meta_name (csu_meta u) := None)\<rparr>)))\<rparr>"

abbreviation rook_api :: "(mem_world \<times> rook_world) cluster_api" where
  "rook_api \<equiv> cluster_on_fst mem_api"

lemma run_rook_call:
  "run_state (rook_call f) w = (r, w') \<Longrightarrow>
   (\<exists>fs. r = Inl (OtherError ''injected fault'') \<and> w' = w\<lparr>rw_faults := fs\<rparr>) \<or> (\<exists>fs. f (w\<lparr>rw_faults := fs\<rparr>) = (r, w'))"
proof -
  assume r: "run_state (rook_call f) w = (r, w')"
  show ?thesis
  proof (cases "rw_faults w")
    case Nil
    then have "f w = (r, w')" and "w\<lparr>rw_faults := []\<rparr> = w" using r by (simp_all add: rook_call_def)
    then show ?thesis by metis
  next
    case (Cons b fs)
    then show ?thesis using r by (cases b) (auto simp: rook_call_def)
  qed
qed

lemma run_rook_write:
  "run_state (rook_write f) w = (r, w') \<Longrightarrow> (\<exists>fs. w' = w\<lparr>rw_faults := fs\<rparr>) \<or> (\<exists>fs. w' = f (w\<lparr>rw_faults := fs\<rparr>))"
  by (auto simp: rook_write_def split: prod.splits dest!: run_rook_call)

interpretation rook: ceph_server rook_api "\<lambda>w. mem_view (fst w)" mem_rook "\<lambda>w. rw_stores (snd w)" "\<lambda>w. rw_users (snd w)"
proof (rule ceph_server.intro)
  show "api_server rook_api (\<lambda>w. mem_view (fst w))" by (rule api_server_on_fst [OF mem.api_server_axioms])
  show "ceph_server_axioms rook_api (\<lambda>w. mem_view (fst w)) mem_rook (\<lambda>w. rw_stores (snd w)) (\<lambda>w. rw_users (snd w))"
    by unfold_locales
      (auto simp: mem_rook_def cluster_on_fst_def run_on_snd run_on_fst found_or_def split: option.splits
        dest!: run_rook_call run_rook_write)
qed

section \<open>Properties\<close>

text \<open>A dataset whose cache is ready, and one that is being deleted.\<close>

definition cached_dataset :: Dataset where
  "cached_dataset = \<lparr>ds_meta = (ObjectMeta ''a'' ''ns'' [])\<lparr>om_uid := ''u1''\<rparr>,
     ds_Spec = empty_spec\<lparr>sp_Local := Some [(''type'', ''COS''), (''bucket'', ''b'')]\<rparr>, ds_Status = empty_status\<rparr>"

definition cached_store :: CephObjectStore where
  "cached_store = (new_store rook_api cached_dataset None)\<lparr>cst_Phase := Some ''Connected''\<rparr>"

definition cached_user :: CephObjectStoreUser where
  "cached_user = \<lparr>csu_meta = ceph_meta rook_api cached_dataset ''a'', csu_Store = ''a'', csu_DisplayName = ''Ceph User''\<rparr>"

definition rook_of :: "bool list \<Rightarrow> rook_world" where
  "rook_of fs = \<lparr>rw_clusters = [''rook-ceph''], rw_nodes = [], rw_stores = [('''', ''a'') \<mapsto> cached_store],
     rw_users = [('''', ''a'') \<mapsto> cached_user], rw_faults = fs\<rparr>"

definition ready_world :: "mem_world \<times> rook_world" where
  "ready_world =
     ((world_of [ODataset cached_dataset,
        OConfigMap \<lparr>cm_meta = ceph_meta rook_api cached_dataset (rados_name ''a''), cm_Data = []\<rparr>,
        OSecret \<lparr>sec_meta = ObjectMeta (user_secret_name ''a'') '''' [],
          sec_Data = [(''AccessKey'', ''ak''), (''SecretKey'', ''sk'')], sec_StringData = []\<rparr>,
        OService \<lparr>svc_meta = ObjectMeta ''rook-ceph-rgw-a'' '''' [], svc_ClusterIP = ''10.0.0.1'', svc_Ports = []\<rparr>])
      \<lparr>mw_pods := [\<lparr>pod_meta = ObjectMeta ''rgw-0'' '''' [(''app'', ''rook-ceph-rgw''), (''rgw'', ''a'')], pod_Volumes = [],
         pod_InitContainers = [], pod_Containers = [], pod_NodeName = ''n1''\<rparr>]\<rparr>,
      rook_of [])"

text \<open>
  C18. Whatever requests fail, the plugin creates a DatasetInternal only for a dataset that is not being deleted
  and whose config map, object store and user carry the dataset's name, namespace and uid, once the store is
  connected; and what it creates holds the keys of the Rook secret and the address of the gateway's service.
\<close>

theorem cache_internal_guarded:
  assumes "ceph_server api view ceph stores users" and "run_state (CephReconcile api ceph n) w = (r, w')"
    and "view w (KDatasetInternal, m) = None" and "view w' (KDatasetInternal, m) = Some y"
  shows "\<exists>ds secret svc. view w (KDataset, n) = Some (ODataset ds) \<and> om_deletionTimestamp (ds_meta ds) = None \<and>
    cache_ready api (view w) (stores w) (users w) ds secret svc \<and>
    exposes y ds secret svc"
  by (rule ceph_server.reconcile_guarded [OF assms])

theorem cache_internal_guarded_witness:
  "\<exists>y ds secret svc.
     mem_view (fst (snd (run_state (CephReconcile rook_api mem_rook (''ns'', ''a'')) ready_world)))
       (KDatasetInternal, (''ns'', ''a'')) = Some y \<and>
     cache_ready rook_api (mem_view (fst ready_world)) (rw_stores (snd ready_world)) (rw_users (snd ready_world)) ds secret svc \<and>
     exposes y ds secret svc"
proof -
  let ?run = "run_state (CephReconcile rook_api mem_rook (''ns'', ''a'')) ready_world"
  have "mem_view (fst ready_world) (KDatasetInternal, (''ns'', ''a'')) = None" by code_simp
  moreover have "mem_view (fst (snd ?run)) (KDatasetInternal, (''ns'', ''a'')) \<noteq> None" by code_simp
  moreover from this obtain y where "mem_view (fst (snd ?run)) (KDatasetInternal, (''ns'', ''a'')) = Some y" by blast
  ultimately show ?thesis
    using cache_internal_guarded [OF rook.ceph_server_axioms prod.collapse [of ?run, symmetric]] by blast
qed

text \<open>
  C39. When the user of the object store was deleted and the store cannot be read, the clean-up reports success,
  because it returns the variable of the earlier request: the finalizer is removed, the dataset is gone, and the
  object store stays behind with nothing that would delete it.
\<close>

theorem ceph_store_leaks:
  assumes "ceph_server api view ceph stores users"
    and "om_deletionTimestamp (ds_meta ds) \<noteq> None" and "om_finalizers (ds_meta ds) = [datasetsFinalizer]"
    and "view w (KDataset, n) = Some (ODataset ds)"
    and "run_state (api_Get api KDataset n) w = (Inr (ODataset ds), w1)"
    and "run_state (ceph_GetUser ceph (rook_namespace api, om_name (ds_meta ds))) w1 = (Inr u, w2)"
    and "run_state (ceph_DeleteUser ceph u) w2 = (None, w3)"
    and "run_state (ceph_GetStore ceph (rook_namespace api, om_name (ds_meta ds))) w3 = (Inl err, w4)"
    and "\<not> IsNotFound err"
    and "run_state (api_Update api (ODataset (with_ds_finalizers (filter (\<lambda>f. f \<noteq> datasetsFinalizer)) ds))) w4 = (None, w5)"
  shows "run_state (CephReconcile api ceph n) w = ((Result, None), w5) \<and>
    view w5 (KDataset, n) = None \<and> stores w5 = stores w"
proof -
  have v: "view w4 = view w" and st: "stores w4 = stores w"
    using api_server.get_view [OF ceph_server.axioms(1) [OF assms(1)] assms(5)]
      ceph_server.get_apart [OF assms(1,5)] ceph_server.get_user [OF assms(1,6)]
      ceph_server.delete_user [OF assms(1,7)] ceph_server.get_store [OF assms(1,8)] by simp_all
  let ?x = "ODataset (with_ds_finalizers (filter (\<lambda>f. f \<noteq> datasetsFinalizer)) ds)"
  have key: "obj_key ?x = (KDataset, n)"
    using api_server.view_key [OF ceph_server.axioms(1) [OF assms(1)] assms(4)]
    by (simp add: obj_key_def with_ds_finalizers_def)
  have "finalizers_of ?x = []" using assms(3) by (simp add: with_ds_finalizers_def)
  moreover have "view w4 (obj_key ?x) = Some (ODataset ds)" using v assms(4) key by simp
  ultimately have "view w5 (KDataset, n) = None"
    using updated_removes [OF api_server.update_ok [OF ceph_server.axioms(1) [OF assms(1)] assms(10)]] assms(2) key
    by simp
  moreover have "stores w5 = stores w" using ceph_server.update_apart [OF assms(1,10)] st by simp
  moreover have "run_state (finalizeDataset api ceph ds) w1 = (None, w4)"
    using assms(6-9) by (simp add: finalizeDataset_def Let_def next_step_def clean_up_def)
  then have "run_state (CephReconcile api ceph n) w = ((Result, None), w5)"
    using assms(2,3,5,10) by (simp add: CephReconcile_def ceph_finalize_def contains_def andthen_def finish_def)
  ultimately show ?thesis by blast
qed

definition deleted_dataset :: Dataset where
  "deleted_dataset = cached_dataset\<lparr>ds_meta := (ds_meta cached_dataset)
     \<lparr>om_deletionTimestamp := Some ''now'', om_finalizers := [datasetsFinalizer]\<rparr>\<rparr>"

definition deleted_world :: "mem_world \<times> rook_world" where
  "deleted_world = (world_of [ODataset deleted_dataset], rook_of [False, False, True])"

theorem ceph_store_leaks_witness:
  "let w' = snd (run_state (CephReconcile rook_api mem_rook (''ns'', ''a'')) deleted_world) in
   mem_view (fst w') (KDataset, (''ns'', ''a'')) = None \<and> rw_stores (snd w') ('''', ''a'') = Some cached_store"
proof -
  define w1 where "w1 = snd (run_state (api_Get rook_api KDataset (''ns'', ''a'')) deleted_world)"
  define w2 where "w2 = snd (run_state (ceph_GetUser mem_rook ('''', ''a'')) w1)"
  define w3 where "w3 = snd (run_state (ceph_DeleteUser mem_rook cached_user) w2)"
  define w4 where "w4 = snd (run_state (ceph_GetStore mem_rook ('''', ''a'')) w3)"
  define upd where "upd = api_Update rook_api
    (ODataset (with_ds_finalizers (filter (\<lambda>f. f \<noteq> datasetsFinalizer)) deleted_dataset))"
  define w5 where "w5 = snd (run_state upd w4)"
  note ws = w5_def w4_def w3_def w2_def w1_def upd_def
  have "fst (run_state (api_Get rook_api KDataset (''ns'', ''a'')) deleted_world) = Inr (ODataset deleted_dataset)"
    by code_simp
  then have 1: "run_state (api_Get rook_api KDataset (''ns'', ''a'')) deleted_world = (Inr (ODataset deleted_dataset), w1)"
    by (simp add: w1_def prod_eq_iff)
  have "fst (run_state (ceph_GetUser mem_rook ('''', ''a'')) w1) = Inr cached_user" unfolding ws by code_simp
  then have 2: "run_state (ceph_GetUser mem_rook ('''', ''a'')) w1 = (Inr cached_user, w2)"
    by (simp add: w2_def prod_eq_iff)
  have "fst (run_state (ceph_DeleteUser mem_rook cached_user) w2) = None" unfolding ws by code_simp
  then have 3: "run_state (ceph_DeleteUser mem_rook cached_user) w2 = (None, w3)" by (simp add: w3_def prod_eq_iff)
  have "fst (run_state (ceph_GetStore mem_rook ('''', ''a'')) w3) = Inl (OtherError ''injected fault'')"
    unfolding ws by code_simp
  then have 4: "run_state (ceph_GetStore mem_rook ('''', ''a'')) w3 = (Inl (OtherError ''injected fault''), w4)"
    by (simp add: w4_def prod_eq_iff)
  have "fst (run_state upd w4) = None" unfolding ws by code_simp
  then have 5: "run_state upd w4 = (None, w5)" by (simp add: w5_def prod_eq_iff)
  have n: "rook_namespace rook_api = ''''" "om_name (ds_meta deleted_dataset) = ''a''"
    by (simp_all add: rook_namespace_def cluster_on_fst_def mem_api_def deleted_dataset_def cached_dataset_def ObjectMeta_def)
  have v: "mem_view (fst deleted_world) (KDataset, (''ns'', ''a'')) = Some (ODataset deleted_dataset)" by code_simp
  have d: "om_deletionTimestamp (ds_meta deleted_dataset) \<noteq> None" "om_finalizers (ds_meta deleted_dataset) = [datasetsFinalizer]"
    by (simp_all add: deleted_dataset_def)
  have s: "rw_stores (snd deleted_world) ('''', ''a'') = Some cached_store" by (simp add: deleted_world_def rook_of_def)
  have e: "\<not> IsNotFound (OtherError ''injected fault'')" by (simp add: IsNotFound_def)
  show ?thesis
    using ceph_store_leaks [OF rook.ceph_server_axioms d v 1 _ 3 _ e 5 [unfolded upd_def]] 2 4 s
    by (simp add: n Let_def)
qed

end
