(* ===== verification/Go_Heap.thy ===== *)
theory Go_Heap
  imports Prelude
begin

text \<open>
  Memory with references.  The rest of the development treats the objects of the program as values; generated code
  that copies them has to be judged by what it shares.  A heap maps addresses to cells of an arbitrary type; a
  reference is an address, and a nil reference is \<open>None\<close>.  The locale \<open>deep_copier\<close> is the contract of a
  \<open>DeepCopyInto\<close> method: the copy stands for the same value, and all cells it reaches are new.
\<close>

section \<open>Heaps\<close>

record 'c heap =
  cells :: "nat \<rightharpoonup> 'c"
  next_addr :: nat

definition wf_heap :: "'c heap \<Rightarrow> bool" where
  "wf_heap h \<longleftrightarrow> dom (cells h) \<subseteq> {..<next_addr h}"

definition alloc :: "'c \<Rightarrow> ('c heap, nat) state" where
  "alloc c = State (\<lambda>h. (next_addr h, h\<lparr>cells := (cells h)(next_addr h \<mapsto> c), next_addr := Suc (next_addr h)\<rparr>))"

definition load :: "nat \<Rightarrow> ('c heap, 'c option) state" where
  "load a = State (\<lambda>h. (cells h a, h))"

definition put_cell :: "nat \<Rightarrow> 'c \<Rightarrow> ('c heap, unit) state" where
  "put_cell a c = State (\<lambda>h. ((), h\<lparr>cells := (cells h)(a \<mapsto> c)\<rparr>))"

text \<open>Every cell of the first heap is there, unchanged, in the second.\<close>

definition extends :: "'c heap \<Rightarrow> 'c heap \<Rightarrow> bool" where
  "extends h h' \<longleftrightarrow> (\<forall>a \<in> dom (cells h). cells h' a = cells h a)"

definition agree_on :: "nat set \<Rightarrow> 'c heap \<Rightarrow> 'c heap \<Rightarrow> bool" where
  "agree_on A h h' \<longleftrightarrow> (\<forall>a \<in> A. cells h' a = cells h a)"

lemma extends_refl [simp, intro]: "extends h h"
  by (simp add: extends_def)

lemma extends_dom: "extends h h' \<Longrightarrow> dom (cells h) \<subseteq> dom (cells h')"
  by (force simp: extends_def)

lemma extends_trans [trans]: "extends h1 h2 \<Longrightarrow> extends h2 h3 \<Longrightarrow> extends h1 h3"
  using extends_dom [of h1 h2] by (simp add: extends_def subset_iff)

lemma extends_agree: "extends h h' \<Longrightarrow> A \<subseteq> dom (cells h) \<Longrightarrow> agree_on A h h'"
  by (auto simp: extends_def agree_on_def)

lemma wf_less: "wf_heap h \<Longrightarrow> cells h a = Some c \<Longrightarrow> a < next_addr h"
  by (auto simp: wf_heap_def)

lemma wf_fresh: "wf_heap h \<Longrightarrow> next_addr h \<notin> dom (cells h)"
  by (auto simp: wf_heap_def)

lemma alloc_run:
  assumes "run_state (alloc c) h = (a, h')" and "wf_heap h"
  shows "wf_heap h'" and "extends h h'" and "cells h' a = Some c" and "a \<notin> dom (cells h)"
    and "dom (cells h') = insert a (dom (cells h))"
  using assms(1) wf_fresh [OF assms(2)] wf_less [OF assms(2)]
  by (auto simp: alloc_def extends_def less_Suc_eq wf_heap_def [of h'])

lemma put_cell_run:
  assumes "run_state (put_cell a c) h = (u, h')"
  shows "cells h' = (cells h)(a \<mapsto> c)" and "next_addr h' = next_addr h"
  using assms by (auto simp: put_cell_def)

section \<open>The contract of a deep copy\<close>

text \<open>
  \<open>typed h x\<close>: the references in \<open>x\<close> point to cells of their types.  \<open>den h x\<close>: the value \<open>x\<close> stands for.
  \<open>reach h x\<close>: the addresses of the cells that \<open>x\<close> reaches.
\<close>

locale deep_copier =
  fixes typed :: "'c heap \<Rightarrow> 'a \<Rightarrow> bool" and den :: "'c heap \<Rightarrow> 'a \<Rightarrow> 'v" and reach :: "'c heap \<Rightarrow> 'a \<Rightarrow> nat set"
    and copy_into :: "'a \<Rightarrow> ('c heap, 'a) state"
  assumes reach_dom: "typed h x \<Longrightarrow> reach h x \<subseteq> dom (cells h)"
    and local: "typed h x \<Longrightarrow> agree_on (reach h x) h h' \<Longrightarrow> typed h' x \<and> den h' x = den h x \<and> reach h' x = reach h x"
    and copies: "wf_heap h \<Longrightarrow> typed h x \<Longrightarrow> run_state (copy_into x) h = (y, h') \<Longrightarrow>
      wf_heap h' \<and> extends h h' \<and> typed h' y \<and> den h' y = den h x \<and> reach h' y \<inter> dom (cells h) = {}"
begin

text \<open>What an extension of the heap leaves alone.\<close>

lemma kept: "typed h x \<Longrightarrow> extends h h' \<Longrightarrow> typed h' x \<and> den h' x = den h x \<and> reach h' x = reach h x"
  using local [OF _ extends_agree [OF _ reach_dom]] by blast

text \<open>
  The copy and the original are apart: no write to the cells of one shows in the other.
\<close>

lemma isolated:
  assumes "wf_heap h" and "typed h x" and "run_state (copy_into x) h = (y, h')"
  shows "agree_on (- reach h' y) h' h'' \<Longrightarrow> typed h'' x \<and> den h'' x = den h x"
    and "agree_on (- reach h' x) h' h'' \<Longrightarrow> typed h'' y \<and> den h'' y = den h x"
proof -
  note c = copies [OF assms]
  have x: "typed h' x \<and> den h' x = den h x \<and> reach h' x = reach h x" using kept [OF assms(2)] c by blast
  have "reach h' x \<inter> reach h' y = {}" using x c reach_dom [OF assms(2)] by blast
  then have "reach h' x \<subseteq> - reach h' y" "reach h' y \<subseteq> - reach h' x" by blast+
  then show "agree_on (- reach h' y) h' h'' \<Longrightarrow> typed h'' x \<and> den h'' x = den h x"
    and "agree_on (- reach h' x) h' h'' \<Longrightarrow> typed h'' y \<and> den h'' y = den h x"
    using local [of h' x h''] local [of h' y h''] x c by (auto simp: agree_on_def subset_iff)
qed

end

section \<open>Building copies from copies\<close>

text \<open>Plain data has no references.\<close>

lemma plain_copier: "deep_copier (\<lambda>_ _. True) (\<lambda>_ x. x) (\<lambda>_ _. {}) State_Monad.return"
  by unfold_locales auto

text \<open>Two parts, copied one after the other.\<close>

lemma pair_copier:
  assumes "deep_copier tA dA rA cA" and "deep_copier tB dB rB cB"
  shows "deep_copier (\<lambda>h x. tA h (fst x) \<and> tB h (snd x)) (\<lambda>h x. (dA h (fst x), dB h (snd x)))
    (\<lambda>h x. rA h (fst x) \<union> rB h (snd x)) (\<lambda>x. do { a \<leftarrow> cA (fst x); b \<leftarrow> cB (snd x); State_Monad.return (a, b) })"
proof unfold_locales
  fix h h' :: "'a heap" and x
  assume t: "tA h (fst x) \<and> tB h (snd x)"
  show "rA h (fst x) \<union> rB h (snd x) \<subseteq> dom (cells h)"
    using deep_copier.reach_dom [OF assms(1)] deep_copier.reach_dom [OF assms(2)] t by blast
  assume "agree_on (rA h (fst x) \<union> rB h (snd x)) h h'"
  then show "(tA h' (fst x) \<and> tB h' (snd x)) \<and> (dA h' (fst x), dB h' (snd x)) = (dA h (fst x), dB h (snd x)) \<and>
      rA h' (fst x) \<union> rB h' (snd x) = rA h (fst x) \<union> rB h (snd x)"
    using deep_copier.local [OF assms(1), of h "fst x" h'] deep_copier.local [OF assms(2), of h "snd x" h'] t
    by (simp add: agree_on_def)
next
  fix h h' :: "'a heap" and x y
  assume wf: "wf_heap h" and t: "tA h (fst x) \<and> tB h (snd x)"
    and run: "run_state (do { a \<leftarrow> cA (fst x); b \<leftarrow> cB (snd x); State_Monad.return (a, b) }) h = (y, h')"
  obtain a h1 where a: "run_state (cA (fst x)) h = (a, h1)" by fastforce
  obtain b where b: "run_state (cB (snd x)) h1 = (b, h')" and y: "y = (a, b)" using run a by (auto split: prod.splits)
  have A: "wf_heap h1" "extends h h1" "tA h1 a" "dA h1 a = dA h (fst x)" "rA h1 a \<inter> dom (cells h) = {}"
    using deep_copier.copies [OF assms(1) wf _ a] t by auto
  have X: "tB h1 (snd x)" "dB h1 (snd x) = dB h (snd x)"
    using deep_copier.kept [OF assms(2) _ A(2)] t by auto
  have B: "wf_heap h'" "extends h1 h'" "tB h' b" "dB h' b = dB h (snd x)" "rB h' b \<inter> dom (cells h1) = {}"
    using deep_copier.copies [OF assms(2) A(1) X(1) b] X(2) by auto
  have "tA h' a" "dA h' a = dA h (fst x)" "rA h' a = rA h1 a"
    using deep_copier.kept [OF assms(1) A(3) B(2)] A(4) by auto
  moreover have "rB h' b \<inter> dom (cells h) = {}" using B(5) extends_dom [OF A(2)] by blast
  ultimately show "wf_heap h' \<and> extends h h' \<and> (tA h' (fst y) \<and> tB h' (snd y)) \<and>
      (dA h' (fst y), dB h' (snd y)) = (dA h (fst x), dB h (snd x)) \<and>
      (rA h' (fst y) \<union> rB h' (snd y)) \<inter> dom (cells h) = {}"
    using A B y extends_trans [OF A(2) B(2)] by (simp add: Int_Un_distrib2)
qed

text \<open>A structure with the same references as a type that can be copied.\<close>

lemma iso_copier:
  assumes "deep_copier t d r c" and "\<And>x y. parts (build x y) = y" and that: "\<And>x y. plain (build x y) = plain x"
  shows "deep_copier (\<lambda>h x. t h (parts x)) (\<lambda>h x. f (plain x) (d h (parts x))) (\<lambda>h x. r h (parts x))
    (\<lambda>x. do { y \<leftarrow> c (parts x); State_Monad.return (build x y) })"
proof unfold_locales
  fix h h' :: "'a heap" and x
  assume t: "t h (parts x)"
  then show "r h (parts x) \<subseteq> dom (cells h)" by (rule deep_copier.reach_dom [OF assms(1)])
  assume "agree_on (r h (parts x)) h h'"
  then show "t h' (parts x) \<and> f (plain x) (d h' (parts x)) = f (plain x) (d h (parts x)) \<and> r h' (parts x) = r h (parts x)"
    using deep_copier.local [OF assms(1) t] by simp
next
  fix h h' :: "'a heap" and x y
  assume wf: "wf_heap h" and t: "t h (parts x)"
    and run: "run_state (do { y \<leftarrow> c (parts x); State_Monad.return (build x y) }) h = (y, h')"
  obtain z where z: "run_state (c (parts x)) h = (z, h')" and y: "y = build x z" using run by (auto split: prod.splits)
  show "wf_heap h' \<and> extends h h' \<and> t h' (parts y) \<and> f (plain y) (d h' (parts y)) = f (plain x) (d h (parts x)) \<and>
      r h' (parts y) \<inter> dom (cells h) = {}"
    using deep_copier.copies [OF assms(1) wf t z] by (simp add: y assms(2) that)
qed

section \<open>Pointers\<close>

text \<open>
  \<open>DeepCopy\<close> of a pointer: nil gives nil; otherwise a new zero value is allocated and the copy written into it.
  \<open>mk\<close> and \<open>proj\<close> say which cells hold values of the type.
\<close>

definition DeepCopy :: "('a \<Rightarrow> 'c) \<Rightarrow> ('c \<Rightarrow> 'a option) \<Rightarrow> 'a \<Rightarrow> ('a \<Rightarrow> ('c heap, 'a) state) \<Rightarrow> nat option \<Rightarrow>
    ('c heap, nat option) state" where
  "DeepCopy mk proj zero copy_into p =
     (case p of
        None \<Rightarrow> State_Monad.return None
      | Some a \<Rightarrow> do {
          out \<leftarrow> alloc (mk zero);
          c \<leftarrow> load a;
          case Option.bind c proj of
            None \<Rightarrow> State_Monad.return None
          | Some x \<Rightarrow> do { y \<leftarrow> copy_into x; _ \<leftarrow> put_cell out (mk y); State_Monad.return (Some out) }
        })"

definition cell_at :: "('c \<Rightarrow> 'a option) \<Rightarrow> 'c heap \<Rightarrow> nat \<Rightarrow> 'a option" where
  "cell_at proj h a = Option.bind (cells h a) proj"

fun typed_ptr :: "('c \<Rightarrow> 'a option) \<Rightarrow> ('c heap \<Rightarrow> 'a \<Rightarrow> bool) \<Rightarrow> 'c heap \<Rightarrow> nat option \<Rightarrow> bool" where
  "typed_ptr proj typed h None = True"
| "typed_ptr proj typed h (Some a) = (case cell_at proj h a of None \<Rightarrow> False | Some x \<Rightarrow> typed h x)"

fun den_ptr :: "('c \<Rightarrow> 'a option) \<Rightarrow> ('c heap \<Rightarrow> 'a \<Rightarrow> 'v) \<Rightarrow> 'c heap \<Rightarrow> nat option \<Rightarrow> 'v option" where
  "den_ptr proj den h None = None"
| "den_ptr proj den h (Some a) = map_option (den h) (cell_at proj h a)"

fun reach_ptr :: "('c \<Rightarrow> 'a option) \<Rightarrow> ('c heap \<Rightarrow> 'a \<Rightarrow> nat set) \<Rightarrow> 'c heap \<Rightarrow> nat option \<Rightarrow> nat set" where
  "reach_ptr proj reach h None = {}"
| "reach_ptr proj reach h (Some a) = insert a (case cell_at proj h a of None \<Rightarrow> {} | Some x \<Rightarrow> reach h x)"

lemma cell_at_Some: "cell_at proj h a = Some x \<longleftrightarrow> (\<exists>c. cells h a = Some c \<and> proj c = Some x)"
  by (auto simp: cell_at_def Option.bind_eq_Some_conv)

text \<open>Overwriting a cell that a value does not reach keeps it.\<close>

lemma put_cell_agree: "a \<notin> A \<Longrightarrow> run_state (put_cell a c) h = (u, h') \<Longrightarrow> agree_on A h h'"
  by (auto simp: put_cell_def agree_on_def)

lemma pointer_copier:
  assumes "deep_copier typed den reach copy_into" and "\<And>x. proj (mk x) = Some x"
  shows "deep_copier (typed_ptr proj typed) (den_ptr proj den) (reach_ptr proj reach) (DeepCopy mk proj zero copy_into)"
proof unfold_locales
  fix h h' :: "'a heap" and p
  assume t: "typed_ptr proj typed h p"
  show "reach_ptr proj reach h p \<subseteq> dom (cells h)"
    using t deep_copier.reach_dom [OF assms(1)]
    by (cases p) (fastforce simp: cell_at_Some split: option.splits)+
  assume agree: "agree_on (reach_ptr proj reach h p) h h'"
  show "typed_ptr proj typed h' p \<and> den_ptr proj den h' p = den_ptr proj den h p \<and>
      reach_ptr proj reach h' p = reach_ptr proj reach h p"
  proof (cases p)
    case (Some a)
    then obtain x where x: "cell_at proj h a = Some x" "typed h x" using t by (auto split: option.splits)
    have "cell_at proj h' a = Some x" "agree_on (reach h x) h h'"
      using agree x Some by (auto simp: agree_on_def cell_at_def)
    then show ?thesis using deep_copier.local [OF assms(1) x(2)] Some x by simp
  qed simp
next
  fix h h' :: "'a heap" and p q
  assume wf: "wf_heap h" and t: "typed_ptr proj typed h p" and run: "run_state (DeepCopy mk proj zero copy_into p) h = (q, h')"
  show "wf_heap h' \<and> extends h h' \<and> typed_ptr proj typed h' q \<and> den_ptr proj den h' q = den_ptr proj den h p \<and>
      reach_ptr proj reach h' q \<inter> dom (cells h) = {}"
  proof (cases p)
    case None
    then show ?thesis using run wf by (simp add: DeepCopy_def)
  next
    case (Some a)
    then obtain x where x: "cell_at proj h a = Some x" "typed h x" using t by (auto split: option.splits)
    obtain out h1 where o: "run_state (alloc (mk zero)) h = (out, h1)" by fastforce
    note h1 = alloc_run [OF o wf]
    have xa: "cell_at proj h1 a = Some x" using x(1) h1(2) by (force simp: cell_at_Some extends_def)
    have x1: "typed h1 x" "den h1 x = den h x" using deep_copier.kept [OF assms(1) x(2) h1(2)] by auto
    obtain y h2 where y: "run_state (copy_into x) h1 = (y, h2)" by fastforce
    have h2: "wf_heap h2" "extends h1 h2" "typed h2 y" "den h2 y = den h x" "reach h2 y \<inter> dom (cells h1) = {}"
      using deep_copier.copies [OF assms(1) h1(1) x1(1) y] x1(2) by auto
    have s: "run_state (put_cell out (mk y)) h2 = ((), h')" and q: "q = Some out"
      using run Some o y xa by (auto simp: DeepCopy_def load_def cell_at_def split: prod.splits)
    note st = put_cell_run [OF s]
    have out: "out \<in> dom (cells h2)" "out \<notin> reach h2 y" using h1(3,5) h2(2,5) by (auto simp: extends_def)
    have y': "typed h' y" "den h' y = den h x" "reach h' y = reach h2 y"
      using deep_copier.local [OF assms(1) h2(3) put_cell_agree [OF out(2) s]] h2(4) by auto
    have "wf_heap h'" using h2(1) out(1) by (auto simp: wf_heap_def st)
    moreover have "extends h h'" using extends_trans [OF h1(2) h2(2)] h1(4) by (auto simp: extends_def st)
    moreover have "reach h' y \<inter> dom (cells h) = {}" using y'(3) h2(5) h1(5) by blast
    moreover have "cell_at proj h' out = Some y" using assms(2) by (simp add: cell_at_def st)
    ultimately show ?thesis using q y' h1(4) Some x(1) by simp
  qed
qed

section \<open>Slices\<close>

text \<open>A slice is a window of an array cell.  \<open>mk\<close> and \<open>proj\<close> say which cells are arrays of the element type.\<close>

record slice =
  sl_array :: nat
  sl_offset :: nat
  sl_length :: nat

definition window :: "slice \<Rightarrow> 'a list \<Rightarrow> 'a list" where
  "window s xs = take (sl_length s) (drop (sl_offset s) xs)"

definition store_element :: "('a list \<Rightarrow> 'c) \<Rightarrow> ('c \<Rightarrow> 'a list option) \<Rightarrow> nat \<Rightarrow> nat \<Rightarrow> 'a \<Rightarrow> ('c heap, unit) state" where
  "store_element mk proj out i y = do {
     c \<leftarrow> load out;
     case Option.bind c proj of
       None \<Rightarrow> State_Monad.return ()
     | Some ys \<Rightarrow> put_cell out (mk (ys[i := y]))
   }"

text \<open>The loop over the indices: every element is read, copied, and written into the new array.\<close>

fun copy_items :: "('a list \<Rightarrow> 'c) \<Rightarrow> ('c \<Rightarrow> 'a list option) \<Rightarrow> ('a \<Rightarrow> ('c heap, 'a) state) \<Rightarrow> slice \<Rightarrow> nat \<Rightarrow> nat list \<Rightarrow>
    ('c heap, unit) state" where
  "copy_items mk proj copy_into src out [] = State_Monad.return ()"
| "copy_items mk proj copy_into src out (i # is) = do {
     c \<leftarrow> load (sl_array src);
     case Option.bind c proj of
       None \<Rightarrow> State_Monad.return ()
     | Some xs \<Rightarrow> do {
         y \<leftarrow> copy_into (xs ! (sl_offset src + i));
         _ \<leftarrow> store_element mk proj out i y;
         copy_items mk proj copy_into src out is
       }
   }"

definition CopySlice :: "('a list \<Rightarrow> 'c) \<Rightarrow> ('c \<Rightarrow> 'a list option) \<Rightarrow> 'a \<Rightarrow> ('a \<Rightarrow> ('c heap, 'a) state) \<Rightarrow> slice option \<Rightarrow>
    ('c heap, slice option) state" where
  "CopySlice mk proj zero copy_into s =
     (case s of
        None \<Rightarrow> State_Monad.return None
      | Some src \<Rightarrow> do {
          out \<leftarrow> alloc (mk (replicate (sl_length src) zero));
          _ \<leftarrow> copy_items mk proj copy_into src out [0..<sl_length src];
          State_Monad.return (Some \<lparr>sl_array = out, sl_offset = 0, sl_length = sl_length src\<rparr>)
        })"

fun typed_slice :: "('c \<Rightarrow> 'a list option) \<Rightarrow> ('c heap \<Rightarrow> 'a \<Rightarrow> bool) \<Rightarrow> 'c heap \<Rightarrow> slice option \<Rightarrow> bool" where
  "typed_slice proj typed h None = True"
| "typed_slice proj typed h (Some s) = (case cell_at proj h (sl_array s) of
     None \<Rightarrow> False
   | Some xs \<Rightarrow> sl_offset s + sl_length s \<le> length xs \<and> (\<forall>x \<in> set (window s xs). typed h x))"

fun den_slice :: "('c \<Rightarrow> 'a list option) \<Rightarrow> ('c heap \<Rightarrow> 'a \<Rightarrow> 'v) \<Rightarrow> 'c heap \<Rightarrow> slice option \<Rightarrow> 'v list option" where
  "den_slice proj den h None = None"
| "den_slice proj den h (Some s) = map_option (\<lambda>xs. map (den h) (window s xs)) (cell_at proj h (sl_array s))"

fun reach_slice :: "('c \<Rightarrow> 'a list option) \<Rightarrow> ('c heap \<Rightarrow> 'a \<Rightarrow> nat set) \<Rightarrow> 'c heap \<Rightarrow> slice option \<Rightarrow> nat set" where
  "reach_slice proj reach h None = {}"
| "reach_slice proj reach h (Some s) = insert (sl_array s)
     (case cell_at proj h (sl_array s) of None \<Rightarrow> {} | Some xs \<Rightarrow> \<Union> (reach h ` set (window s xs)))"

lemma store_element_run:
  assumes "run_state (store_element mk proj out i y) h = (u, h')" and "cell_at proj h out = Some ys"
  shows "run_state (put_cell out (mk (ys[i := y]))) h = (u, h')"
  using assms by (auto simp: store_element_def load_def cell_at_def)

lemma copy_items_run:
  assumes c: "deep_copier typed den reach copy_into" and pm: "\<And>xs. proj (mk xs) = Some xs"
  shows "run_state (copy_items mk proj copy_into src out is) h = (u, h') \<Longrightarrow> wf_heap h \<Longrightarrow> distinct is \<Longrightarrow>
    cell_at proj h (sl_array src) = Some xs \<Longrightarrow> out \<noteq> sl_array src \<Longrightarrow>
    \<forall>i \<in> set is. typed h (xs ! (sl_offset src + i)) \<and> out \<notin> reach h (xs ! (sl_offset src + i)) \<Longrightarrow>
    cell_at proj h out = Some zs \<Longrightarrow> set is \<subseteq> {..<length zs} \<Longrightarrow>
    wf_heap h' \<and> agree_on (dom (cells h) - {out}) h h' \<and>
    (\<exists>zs'. cell_at proj h' out = Some zs' \<and> length zs' = length zs \<and> (\<forall>j. j \<notin> set is \<longrightarrow> zs' ! j = zs ! j) \<and>
      (\<forall>i \<in> set is. typed h' (zs' ! i) \<and> den h' (zs' ! i) = den h (xs ! (sl_offset src + i)) \<and>
         reach h' (zs' ! i) \<inter> dom (cells h) = {}))"
proof (induction "is" arbitrary: h zs)
  case Nil
  then show ?case by (auto simp: agree_on_def)
next
  case (Cons i js)
  let ?x = "\<lambda>i. xs ! (sl_offset src + i)"
  obtain y h1 where y: "run_state (copy_into (?x i)) h = (y, h1)" by fastforce
  have h1: "wf_heap h1" "extends h h1" "typed h1 y" "den h1 y = den h (?x i)" "reach h1 y \<inter> dom (cells h) = {}"
    using deep_copier.copies [OF c Cons.prems(2) _ y] Cons.prems(6) by auto
  obtain h2 where s: "run_state (store_element mk proj out i y) h1 = ((), h2)"
    and rest: "run_state (copy_items mk proj copy_into src out js) h2 = (u, h')"
    using Cons.prems(1,4) y by (auto simp: load_def cell_at_def split: prod.splits)
  have out: "out \<in> dom (cells h)" using Cons.prems(7) by (auto simp: cell_at_Some)
  have z1: "cell_at proj h1 out = Some zs" using Cons.prems(7) h1(2) by (force simp: cell_at_Some extends_def)
  note put = store_element_run [OF s z1]
  note st = put_cell_run [OF put]
  have y2: "typed h2 y" "den h2 y = den h (?x i)" "reach h2 y = reach h1 y"
    using deep_copier.local [OF c h1(3) put_cell_agree [OF _ put]] h1(4,5) out by auto
  have x2: "typed h2 (?x j) \<and> den h2 (?x j) = den h (?x j) \<and> reach h2 (?x j) = reach h (?x j)" if "j \<in> set (i # js)" for j
  proof -
    have x: "typed h (?x j)" "out \<notin> reach h (?x j)" using Cons.prems(6) that by auto
    note k = deep_copier.kept [OF c x(1) h1(2)]
    show ?thesis using deep_copier.local [OF c _ put_cell_agree [OF _ put], of "?x j"] k x(2) by auto
  qed
  have wf2: "wf_heap h2" using h1(1) subsetD [OF extends_dom [OF h1(2)] out] by (simp add: wf_heap_def st)
    (auto simp: wf_heap_def)
  have src2: "cell_at proj h2 (sl_array src) = Some xs"
    using Cons.prems(4,5) h1(2) by (force simp: cell_at_Some extends_def st)
  have out2: "cell_at proj h2 out = Some (zs[i := y])" by (simp add: cell_at_def st pm)
  have IH: "wf_heap h' \<and> agree_on (dom (cells h2) - {out}) h2 h' \<and>
    (\<exists>zs'. cell_at proj h' out = Some zs' \<and> length zs' = length (zs[i := y]) \<and>
      (\<forall>j. j \<notin> set js \<longrightarrow> zs' ! j = zs[i := y] ! j) \<and>
      (\<forall>j \<in> set js. typed h' (zs' ! j) \<and> den h' (zs' ! j) = den h2 (?x j) \<and> reach h' (zs' ! j) \<inter> dom (cells h2) = {}))"
    by (rule Cons.IH [OF rest wf2 _ src2 Cons.prems(5) _ out2]) (use Cons.prems(3,6,8) x2 in auto)
  then obtain zs' where zs': "cell_at proj h' out = Some zs'" "length zs' = length zs"
    "\<And>j. j \<notin> set js \<Longrightarrow> zs' ! j = zs[i := y] ! j"
    "\<And>j. j \<in> set js \<Longrightarrow> typed h' (zs' ! j) \<and> den h' (zs' ! j) = den h2 (?x j) \<and> reach h' (zs' ! j) \<inter> dom (cells h2) = {}"
    and a2: "agree_on (dom (cells h2) - {out}) h2 h'" and wf': "wf_heap h'" by auto
  have "reach h2 y \<subseteq> dom (cells h2) - {out}"
    using deep_copier.reach_dom [OF c y2(1)] y2(3) h1(5) out by auto
  then have y': "typed h' y" "den h' y = den h (?x i)" "reach h' y = reach h1 y"
    using deep_copier.local [OF c y2(1), of h'] a2 y2 by (auto simp: agree_on_def subset_iff)
  have "zs' ! i = y" using zs'(3) [of i] Cons.prems(3,8) by simp
  moreover have dom2: "dom (cells h) \<subseteq> dom (cells h2)" using extends_dom [OF h1(2)] by (auto simp: st)
  moreover have "agree_on (dom (cells h) - {out}) h h'"
    unfolding agree_on_def
  proof
    fix a assume a: "a \<in> dom (cells h) - {out}"
    then have "cells h' a = cells h2 a" using a2 dom2 unfolding agree_on_def by blast
    then show "cells h' a = cells h a" using h1(2) a by (simp add: extends_def st)
  qed
  moreover have "zs' ! j = zs ! j" if "j \<notin> set (i # js)" for j using zs'(3) [of j] that by simp
  moreover have "typed h' (zs' ! j) \<and> den h' (zs' ! j) = den h (?x j) \<and> reach h' (zs' ! j) \<inter> dom (cells h) = {}"
    if "j \<in> set js" for j using zs'(4) [OF that] x2 [of j] that dom2 by auto
  ultimately show ?case using wf' zs'(1,2) y' h1(5) by auto
qed

lemma slice_copier:
  assumes c: "deep_copier typed den reach copy_into" and pm: "\<And>xs. proj (mk xs) = Some xs"
  shows "deep_copier (typed_slice proj typed) (den_slice proj den) (reach_slice proj reach) (CopySlice mk proj zero copy_into)"
proof unfold_locales
  fix h h' :: "'a heap" and s
  assume t: "typed_slice proj typed h s"
  show "reach_slice proj reach h s \<subseteq> dom (cells h)"
    using t deep_copier.reach_dom [OF c]
    by (cases s) (fastforce simp: cell_at_Some split: option.splits)+
  assume agree: "agree_on (reach_slice proj reach h s) h h'"
  show "typed_slice proj typed h' s \<and> den_slice proj den h' s = den_slice proj den h s \<and>
      reach_slice proj reach h' s = reach_slice proj reach h s"
  proof (cases s)
    case (Some a)
    then obtain xs where xs: "cell_at proj h (sl_array a) = Some xs" "sl_offset a + sl_length a \<le> length xs"
      "\<forall>x \<in> set (window a xs). typed h x" using t by (auto split: option.splits)
    have xs': "cell_at proj h' (sl_array a) = Some xs" using agree Some xs(1) by (auto simp: agree_on_def cell_at_def)
    have "typed h' x \<and> den h' x = den h x \<and> reach h' x = reach h x" if "x \<in> set (window a xs)" for x
      using deep_copier.local [OF c, of h x h'] xs(1,3) that agree Some by (auto simp: agree_on_def)
    then show ?thesis using Some xs xs' by auto
  qed simp
next
  fix h h' :: "'a heap" and s q
  assume wf: "wf_heap h" and t: "typed_slice proj typed h s"
    and run: "run_state (CopySlice mk proj zero copy_into s) h = (q, h')"
  show "wf_heap h' \<and> extends h h' \<and> typed_slice proj typed h' q \<and> den_slice proj den h' q = den_slice proj den h s \<and>
      reach_slice proj reach h' q \<inter> dom (cells h) = {}"
  proof (cases s)
    case None
    then show ?thesis using run wf by (simp add: CopySlice_def)
  next
    case (Some a)
    let ?n = "sl_length a"
    let ?zs = "replicate ?n zero"
    obtain xs where xs: "cell_at proj h (sl_array a) = Some xs" "sl_offset a + ?n \<le> length xs"
      "\<forall>x \<in> set (window a xs). typed h x" using t Some by (auto split: option.splits)
    obtain out h1 where o: "run_state (alloc (mk ?zs)) h = (out, h1)" by fastforce
    note h1 = alloc_run [OF o wf]
    have loop: "run_state (copy_items mk proj copy_into a out [0..<?n]) h1 = ((), h')"
      and q: "q = Some \<lparr>sl_array = out, sl_offset = 0, sl_length = ?n\<rparr>"
      using run Some o by (auto simp: CopySlice_def split: prod.splits)
    have nth: "xs ! (sl_offset a + i) = window a xs ! i \<and> window a xs ! i \<in> set (window a xs)" if "i < ?n" for i
      using that xs(2) by (auto simp: window_def in_set_conv_nth)
    have elem: "typed h1 (xs ! (sl_offset a + i)) \<and> out \<notin> reach h1 (xs ! (sl_offset a + i)) \<and>
        den h1 (xs ! (sl_offset a + i)) = den h (xs ! (sl_offset a + i))" if "i < ?n" for i
    proof -
      have x: "typed h (xs ! (sl_offset a + i))" using xs(3) nth [OF that] by simp
      show ?thesis using deep_copier.kept [OF c x h1(2)] deep_copier.reach_dom [OF c x] h1(4) x by auto
    qed
    have "out \<noteq> sl_array a" using xs(1) h1(4) by (auto simp: cell_at_Some)
    moreover have "cell_at proj h1 (sl_array a) = Some xs" using xs(1) h1(2) by (force simp: cell_at_Some extends_def)
    moreover have "cell_at proj h1 out = Some ?zs" by (simp add: cell_at_def h1(3) pm)
    ultimately have "wf_heap h' \<and> agree_on (dom (cells h1) - {out}) h1 h' \<and>
      (\<exists>zs'. cell_at proj h' out = Some zs' \<and> length zs' = length ?zs \<and> (\<forall>j. j \<notin> set [0..<?n] \<longrightarrow> zs' ! j = ?zs ! j) \<and>
        (\<forall>i \<in> set [0..<?n]. typed h' (zs' ! i) \<and> den h' (zs' ! i) = den h1 (xs ! (sl_offset a + i)) \<and>
           reach h' (zs' ! i) \<inter> dom (cells h1) = {}))"
      by (intro copy_items_run [where proj = proj, OF c pm loop h1(1)]) (use elem in auto)
    then obtain zs' where zs': "cell_at proj h' out = Some zs'" "length zs' = ?n"
      "\<And>i. i < ?n \<Longrightarrow> typed h' (zs' ! i) \<and> den h' (zs' ! i) = den h (xs ! (sl_offset a + i)) \<and>
         reach h' (zs' ! i) \<inter> dom (cells h1) = {}"
      and a': "agree_on (dom (cells h1) - {out}) h1 h'" and wf': "wf_heap h'"
      using elem by auto
    have w: "window \<lparr>sl_array = out, sl_offset = 0, sl_length = ?n\<rparr> zs' = zs'" using zs'(2) by (simp add: window_def)
    have ext: "extends h h'" using h1(2,4,5) a' by (auto simp: extends_def agree_on_def)
    have "length (window a xs) = ?n" using xs(2) by (simp add: window_def)
    then have "map (den h') zs' = map (den h) (window a xs)"
      using zs'(2,3) nth by (intro nth_equalityI) auto
    moreover have "\<forall>x \<in> set zs'. typed h' x \<and> reach h' x \<inter> dom (cells h) = {}"
      using zs'(2,3) h1(5) by (fastforce simp: in_set_conv_nth)
    ultimately show ?thesis using wf' ext q zs'(1,2) w h1(4) Some xs(1) by auto
  qed
qed

section \<open>Maps\<close>

text \<open>
  A map of strings: a new map is made and filled in the order of the \<open>range\<close> loop, which is that of the association
  list.
\<close>

fun copy_entries :: "(smap \<Rightarrow> 'c) \<Rightarrow> ('c \<Rightarrow> smap option) \<Rightarrow> nat \<Rightarrow> smap \<Rightarrow> ('c heap, unit) state" where
  "copy_entries mk proj out [] = State_Monad.return ()"
| "copy_entries mk proj out ((key, val) # rest) = do {
     c \<leftarrow> load out;
     case Option.bind c proj of
       None \<Rightarrow> State_Monad.return ()
     | Some m \<Rightarrow> do { _ \<leftarrow> put_cell out (mk (mset_key key val m)); copy_entries mk proj out rest }
   }"

definition CopyMap :: "(smap \<Rightarrow> 'c) \<Rightarrow> ('c \<Rightarrow> smap option) \<Rightarrow> nat option \<Rightarrow> ('c heap, nat option) state" where
  "CopyMap mk proj p =
     (case p of
        None \<Rightarrow> State_Monad.return None
      | Some a \<Rightarrow> do {
          c \<leftarrow> load a;
          case Option.bind c proj of
            None \<Rightarrow> State_Monad.return None
          | Some m \<Rightarrow> do {
              out \<leftarrow> alloc (mk []);
              _ \<leftarrow> copy_entries mk proj out m;
              State_Monad.return (Some out)
            }
        })"

text \<open>A map has every key once.\<close>

definition typed_map :: "('c \<Rightarrow> smap option) \<Rightarrow> 'c heap \<Rightarrow> nat option \<Rightarrow> bool" where
  "typed_map proj = typed_ptr proj (\<lambda>_ m. distinct (map fst m))"

definition den_map :: "('c \<Rightarrow> smap option) \<Rightarrow> 'c heap \<Rightarrow> nat option \<Rightarrow> smap option" where
  "den_map proj = den_ptr proj (\<lambda>_ m. m)"

definition reach_map :: "('c \<Rightarrow> smap option) \<Rightarrow> 'c heap \<Rightarrow> nat option \<Rightarrow> nat set" where
  "reach_map proj = reach_ptr proj (\<lambda>_ _. {})"

lemma mset_key_new: "k \<notin> fst ` set m \<Longrightarrow> mset_key k v m = m @ [(k, v)]"
  unfolding mset_key_def by (induction m) auto

lemma copy_entries_run:
  assumes pm: "\<And>m. proj (mk m) = Some m"
  shows "run_state (copy_entries mk proj out es) h = (u, h') \<Longrightarrow> cells h out = Some (mk m) \<Longrightarrow>
    distinct (map fst (m @ es)) \<Longrightarrow> cells h' = (cells h)(out \<mapsto> mk (m @ es)) \<and> next_addr h' = next_addr h"
proof (induction es arbitrary: h m)
  case Nil
  then show ?case by (auto simp: fun_upd_idem)
next
  case (Cons e es)
  obtain k v where e: "e = (k, v)" by fastforce
  obtain h1 where s: "run_state (put_cell out (mk (mset_key k v m))) h = ((), h1)"
    and rest: "run_state (copy_entries mk proj out es) h1 = (u, h')"
    using Cons.prems(1,2) e pm by (auto simp: load_def split: prod.splits)
  note st = put_cell_run [OF s]
  have "mset_key k v m = m @ [(k, v)]" using Cons.prems(3) e by (intro mset_key_new) auto
  then have "cells h1 out = Some (mk (m @ [(k, v)]))" by (simp add: st)
  from Cons.IH [OF rest this] show ?case using Cons.prems(3) e st by (auto simp: fun_eq_iff)
qed

lemma map_copier:
  assumes pm: "\<And>m. proj (mk m) = Some m"
  shows "deep_copier (typed_map proj) (den_map proj) (reach_map proj) (CopyMap mk proj)"
proof unfold_locales
  fix h h' :: "'a heap" and p
  assume t: "typed_map proj h p"
  show "reach_map proj h p \<subseteq> dom (cells h)"
    using t by (cases p) (auto simp: typed_map_def reach_map_def cell_at_Some split: option.splits)
  assume "agree_on (reach_map proj h p) h h'"
  then show "typed_map proj h' p \<and> den_map proj h' p = den_map proj h p \<and> reach_map proj h' p = reach_map proj h p"
    using t by (cases p) (auto simp: typed_map_def reach_map_def den_map_def agree_on_def cell_at_def)
next
  fix h h' :: "'a heap" and p q
  assume wf: "wf_heap h" and t: "typed_map proj h p" and run: "run_state (CopyMap mk proj p) h = (q, h')"
  show "wf_heap h' \<and> extends h h' \<and> typed_map proj h' q \<and> den_map proj h' q = den_map proj h p \<and>
      reach_map proj h' q \<inter> dom (cells h) = {}"
  proof (cases p)
    case None
    then show ?thesis using run wf by (simp add: CopyMap_def typed_map_def den_map_def reach_map_def)
  next
    case (Some a)
    then obtain m where m: "cell_at proj h a = Some m" "distinct (map fst m)"
      using t by (auto simp: typed_map_def split: option.splits)
    obtain out h1 where o: "run_state (alloc (mk [])) h = (out, h1)" by fastforce
    note h1 = alloc_run [OF o wf]
    have es: "run_state (copy_entries mk proj out m) h1 = ((), h')" and q: "q = Some out"
      using run Some m(1) o by (auto simp: CopyMap_def load_def cell_at_def split: prod.splits)
    have c: "cells h' = (cells h1)(out \<mapsto> mk m)" "next_addr h' = next_addr h1"
      using copy_entries_run [OF pm es h1(3)] m(2) by auto
    have "wf_heap h'" using h1(1,3) by (auto simp: wf_heap_def c)
    moreover have "extends h h'" using h1(2,4) by (auto simp: extends_def c)
    ultimately show ?thesis using q Some m h1(4) pm
      by (simp add: typed_map_def den_map_def reach_map_def cell_at_def c)
  qed
qed

end
