(* ===== verification/Deep_Copy.thy ===== *)
theory Deep_Copy
  imports Go_Heap K8s_Api
begin

text \<open>
  The deep copies of the custom resources (\<open>api/v1alpha1/zz_generated.deepcopy.go\<close>) on a heap with references:
  maps, arrays behind slices, and structures behind pointers are cells.  A structure is what Go stores in place of it:
  its strings, and references for its maps and slices.  \<open>DeepCopyInto\<close> maps the structure \<open>*in\<close> to the structure it
  writes to \<open>*out\<close>.  The metadata of an object and of a list are types of the package \<open>metav1\<close>; their
  \<open>DeepCopyInto\<close> is a parameter with the contract \<open>deep_copier\<close>.  \<open>den\<close> leads from a structure to the value it has
  in the rest of the development.
\<close>

section \<open>The structures in memory\<close>

record spec_ref =
  sr_Local :: "nat option"
  sr_Remote :: "nat option"
  sr_Type :: string
  sr_Url :: string
  sr_Format :: string
  sr_Extract :: string

record placement_ref =
  pr_Gateways :: "slice option"
  pr_DataLocations :: "slice option"

record caching_ref = cr_Placements :: placement_ref

record istatus_ref = ir_Caching :: caching_ref

record type_meta =
  tm_Kind :: string
  tm_APIVersion :: string

record 'm dataset_ref =
  dr_TypeMeta :: type_meta
  dr_ObjectMeta :: 'm
  dr_Spec :: spec_ref
  dr_Status :: DatasetStatus

record 'm internal_ref =
  nr_TypeMeta :: type_meta
  nr_ObjectMeta :: 'm
  nr_Spec :: spec_ref
  nr_Status :: istatus_ref

record 'l list_ref =
  lr_TypeMeta :: type_meta
  lr_ListMeta :: 'l
  lr_Items :: "slice option"

datatype ('m, 'l) go_cell =
    Map_cell smap | Infos_array "CachingPlacementInfo list" | Datasets_array "'m dataset_ref list"
  | Internals_array "'m internal_ref list" | Info_cell CachingPlacementInfo | Placement_cell placement_ref
  | Spec_cell spec_ref | Condition_cell DatasetStatusCondition | Status_cell DatasetStatus | Caching_cell caching_ref
  | IStatus_cell istatus_ref | Dataset_cell "'m dataset_ref" | Internal_cell "'m internal_ref"
  | DatasetList_cell "'l list_ref" | InternalList_cell "'l list_ref"

type_synonym ('m, 'l) go_heap = "('m, 'l) go_cell heap"

text \<open>Reading a cell at its type.\<close>

fun as_Map where "as_Map (Map_cell x) = Some x" | "as_Map _ = None"
fun as_Infos where "as_Infos (Infos_array x) = Some x" | "as_Infos _ = None"
fun as_Datasets where "as_Datasets (Datasets_array x) = Some x" | "as_Datasets _ = None"
fun as_Internals where "as_Internals (Internals_array x) = Some x" | "as_Internals _ = None"
fun as_Info where "as_Info (Info_cell x) = Some x" | "as_Info _ = None"
fun as_Placement where "as_Placement (Placement_cell x) = Some x" | "as_Placement _ = None"
fun as_Spec where "as_Spec (Spec_cell x) = Some x" | "as_Spec _ = None"
fun as_Condition where "as_Condition (Condition_cell x) = Some x" | "as_Condition _ = None"
fun as_Status where "as_Status (Status_cell x) = Some x" | "as_Status _ = None"
fun as_Caching where "as_Caching (Caching_cell x) = Some x" | "as_Caching _ = None"
fun as_IStatus where "as_IStatus (IStatus_cell x) = Some x" | "as_IStatus _ = None"
fun as_Dataset where "as_Dataset (Dataset_cell x) = Some x" | "as_Dataset _ = None"
fun as_Internal where "as_Internal (Internal_cell x) = Some x" | "as_Internal _ = None"
fun as_DatasetList where "as_DatasetList (DatasetList_cell x) = Some x" | "as_DatasetList _ = None"
fun as_InternalList where "as_InternalList (InternalList_cell x) = Some x" | "as_InternalList _ = None"

text \<open>The zero values that \<open>new\<close> and \<open>make\<close> start from.\<close>

definition zero_info :: CachingPlacementInfo where "zero_info = \<lparr>cpi_Key = '''', cpi_Value = ''''\<rparr>"
definition zero_placement :: placement_ref where "zero_placement = \<lparr>pr_Gateways = None, pr_DataLocations = None\<rparr>"
definition zero_caching :: caching_ref where "zero_caching = \<lparr>cr_Placements = zero_placement\<rparr>"
definition zero_istatus :: istatus_ref where "zero_istatus = \<lparr>ir_Caching = zero_caching\<rparr>"
definition zero_type_meta :: type_meta where "zero_type_meta = \<lparr>tm_Kind = '''', tm_APIVersion = ''''\<rparr>"
definition zero_spec :: spec_ref where
  "zero_spec = \<lparr>sr_Local = None, sr_Remote = None, sr_Type = '''', sr_Url = '''', sr_Format = '''', sr_Extract = ''''\<rparr>"

definition zero_dataset :: "'m \<Rightarrow> 'm dataset_ref" where
  "zero_dataset zm = \<lparr>dr_TypeMeta = zero_type_meta, dr_ObjectMeta = zm, dr_Spec = zero_spec, dr_Status = empty_status\<rparr>"

definition zero_internal :: "'m \<Rightarrow> 'm internal_ref" where
  "zero_internal zm = \<lparr>nr_TypeMeta = zero_type_meta, nr_ObjectMeta = zm, nr_Spec = zero_spec, nr_Status = zero_istatus\<rparr>"

definition zero_list :: "'l \<Rightarrow> 'l list_ref" where
  "zero_list zl = \<lparr>lr_TypeMeta = zero_type_meta, lr_ListMeta = zl, lr_Items = None\<rparr>"

section \<open>\<open>DeepCopyInto\<close>\<close>

definition CachingPlacementInfo_DeepCopyInto ::
  "CachingPlacementInfo \<Rightarrow> (('m, 'l) go_heap, CachingPlacementInfo) state" where
  "CachingPlacementInfo_DeepCopyInto x = State_Monad.return x"

definition CachingPlacement_DeepCopyInto :: "placement_ref \<Rightarrow> (('m, 'l) go_heap, placement_ref) state" where
  "CachingPlacement_DeepCopyInto x = do {
     gateways \<leftarrow> CopySlice Infos_array as_Infos zero_info State_Monad.return (pr_Gateways x);
     locations \<leftarrow> CopySlice Infos_array as_Infos zero_info State_Monad.return (pr_DataLocations x);
     State_Monad.return (x\<lparr>pr_Gateways := gateways, pr_DataLocations := locations\<rparr>)
   }"

definition DatasetInternalStatusCaching_DeepCopyInto :: "caching_ref \<Rightarrow> (('m, 'l) go_heap, caching_ref) state" where
  "DatasetInternalStatusCaching_DeepCopyInto x = do {
     placements \<leftarrow> CachingPlacement_DeepCopyInto (cr_Placements x);
     State_Monad.return (x\<lparr>cr_Placements := placements\<rparr>)
   }"

definition DatasetInternalStatus_DeepCopyInto :: "istatus_ref \<Rightarrow> (('m, 'l) go_heap, istatus_ref) state" where
  "DatasetInternalStatus_DeepCopyInto x = do {
     caching \<leftarrow> DatasetInternalStatusCaching_DeepCopyInto (ir_Caching x);
     State_Monad.return (x\<lparr>ir_Caching := caching\<rparr>)
   }"

definition DatasetSpec_DeepCopyInto :: "spec_ref \<Rightarrow> (('m, 'l) go_heap, spec_ref) state" where
  "DatasetSpec_DeepCopyInto x = do {
     local \<leftarrow> CopyMap Map_cell as_Map (sr_Local x);
     remote \<leftarrow> CopyMap Map_cell as_Map (sr_Remote x);
     State_Monad.return (x\<lparr>sr_Local := local, sr_Remote := remote\<rparr>)
   }"

definition DatasetStatusCondition_DeepCopyInto ::
  "DatasetStatusCondition \<Rightarrow> (('m, 'l) go_heap, DatasetStatusCondition) state" where
  "DatasetStatusCondition_DeepCopyInto x = State_Monad.return x"

definition DatasetStatus_DeepCopyInto :: "DatasetStatus \<Rightarrow> (('m, 'l) go_heap, DatasetStatus) state" where
  "DatasetStatus_DeepCopyInto x =
     State_Monad.return (x\<lparr>st_Caching := st_Caching x, st_Provision := st_Provision x\<rparr>)"

definition Dataset_DeepCopyInto ::
  "('m \<Rightarrow> (('m, 'l) go_heap, 'm) state) \<Rightarrow> 'm dataset_ref \<Rightarrow> (('m, 'l) go_heap, 'm dataset_ref) state" where
  "Dataset_DeepCopyInto copy_meta x = do {
     meta \<leftarrow> copy_meta (dr_ObjectMeta x);
     spec \<leftarrow> DatasetSpec_DeepCopyInto (dr_Spec x);
     State_Monad.return
       (x\<lparr>dr_TypeMeta := dr_TypeMeta x, dr_ObjectMeta := meta, dr_Spec := spec, dr_Status := dr_Status x\<rparr>)
   }"

definition DatasetInternal_DeepCopyInto ::
  "('m \<Rightarrow> (('m, 'l) go_heap, 'm) state) \<Rightarrow> 'm internal_ref \<Rightarrow> (('m, 'l) go_heap, 'm internal_ref) state" where
  "DatasetInternal_DeepCopyInto copy_meta x = do {
     meta \<leftarrow> copy_meta (nr_ObjectMeta x);
     spec \<leftarrow> DatasetSpec_DeepCopyInto (nr_Spec x);
     status \<leftarrow> DatasetInternalStatus_DeepCopyInto (nr_Status x);
     State_Monad.return
       (x\<lparr>nr_TypeMeta := nr_TypeMeta x, nr_ObjectMeta := meta, nr_Spec := spec, nr_Status := status\<rparr>)
   }"

definition DatasetList_DeepCopyInto ::
  "'m \<Rightarrow> ('m \<Rightarrow> (('m, 'l) go_heap, 'm) state) \<Rightarrow> ('l \<Rightarrow> (('m, 'l) go_heap, 'l) state) \<Rightarrow> 'l list_ref \<Rightarrow>
   (('m, 'l) go_heap, 'l list_ref) state" where
  "DatasetList_DeepCopyInto zm copy_meta copy_list_meta x = do {
     meta \<leftarrow> copy_list_meta (lr_ListMeta x);
     items \<leftarrow> CopySlice Datasets_array as_Datasets (zero_dataset zm) (Dataset_DeepCopyInto copy_meta) (lr_Items x);
     State_Monad.return (x\<lparr>lr_TypeMeta := lr_TypeMeta x, lr_ListMeta := meta, lr_Items := items\<rparr>)
   }"

definition DatasetInternalList_DeepCopyInto ::
  "'m \<Rightarrow> ('m \<Rightarrow> (('m, 'l) go_heap, 'm) state) \<Rightarrow> ('l \<Rightarrow> (('m, 'l) go_heap, 'l) state) \<Rightarrow> 'l list_ref \<Rightarrow>
   (('m, 'l) go_heap, 'l list_ref) state" where
  "DatasetInternalList_DeepCopyInto zm copy_meta copy_list_meta x = do {
     meta \<leftarrow> copy_list_meta (lr_ListMeta x);
     items \<leftarrow> CopySlice Internals_array as_Internals (zero_internal zm) (DatasetInternal_DeepCopyInto copy_meta) (lr_Items x);
     State_Monad.return (x\<lparr>lr_TypeMeta := lr_TypeMeta x, lr_ListMeta := meta, lr_Items := items\<rparr>)
   }"

section \<open>\<open>DeepCopy\<close> and \<open>DeepCopyObject\<close>\<close>

definition CachingPlacement_DeepCopy :: "nat option \<Rightarrow> (('m, 'l) go_heap, nat option) state" where
  "CachingPlacement_DeepCopy = DeepCopy Placement_cell as_Placement zero_placement CachingPlacement_DeepCopyInto"

definition CachingPlacementInfo_DeepCopy :: "nat option \<Rightarrow> (('m, 'l) go_heap, nat option) state" where
  "CachingPlacementInfo_DeepCopy = DeepCopy Info_cell as_Info zero_info CachingPlacementInfo_DeepCopyInto"

definition DatasetInternalStatusCaching_DeepCopy :: "nat option \<Rightarrow> (('m, 'l) go_heap, nat option) state" where
  "DatasetInternalStatusCaching_DeepCopy =
     DeepCopy Caching_cell as_Caching zero_caching DatasetInternalStatusCaching_DeepCopyInto"

definition DatasetInternalStatus_DeepCopy :: "nat option \<Rightarrow> (('m, 'l) go_heap, nat option) state" where
  "DatasetInternalStatus_DeepCopy = DeepCopy IStatus_cell as_IStatus zero_istatus DatasetInternalStatus_DeepCopyInto"

definition DatasetSpec_DeepCopy :: "nat option \<Rightarrow> (('m, 'l) go_heap, nat option) state" where
  "DatasetSpec_DeepCopy = DeepCopy Spec_cell as_Spec zero_spec DatasetSpec_DeepCopyInto"

definition DatasetStatusCondition_DeepCopy :: "nat option \<Rightarrow> (('m, 'l) go_heap, nat option) state" where
  "DatasetStatusCondition_DeepCopy =
     DeepCopy Condition_cell as_Condition empty_condition DatasetStatusCondition_DeepCopyInto"

definition DatasetStatus_DeepCopy :: "nat option \<Rightarrow> (('m, 'l) go_heap, nat option) state" where
  "DatasetStatus_DeepCopy = DeepCopy Status_cell as_Status empty_status DatasetStatus_DeepCopyInto"

definition Dataset_DeepCopy ::
  "'m \<Rightarrow> ('m \<Rightarrow> (('m, 'l) go_heap, 'm) state) \<Rightarrow> nat option \<Rightarrow> (('m, 'l) go_heap, nat option) state" where
  "Dataset_DeepCopy zm copy_meta =
     DeepCopy Dataset_cell as_Dataset (zero_dataset zm) (Dataset_DeepCopyInto copy_meta)"

definition DatasetInternal_DeepCopy ::
  "'m \<Rightarrow> ('m \<Rightarrow> (('m, 'l) go_heap, 'm) state) \<Rightarrow> nat option \<Rightarrow> (('m, 'l) go_heap, nat option) state" where
  "DatasetInternal_DeepCopy zm copy_meta =
     DeepCopy Internal_cell as_Internal (zero_internal zm) (DatasetInternal_DeepCopyInto copy_meta)"

definition DatasetList_DeepCopy ::
  "'m \<Rightarrow> 'l \<Rightarrow> ('m \<Rightarrow> (('m, 'l) go_heap, 'm) state) \<Rightarrow> ('l \<Rightarrow> (('m, 'l) go_heap, 'l) state) \<Rightarrow> nat option \<Rightarrow>
   (('m, 'l) go_heap, nat option) state" where
  "DatasetList_DeepCopy zm zl copy_meta copy_list_meta =
     DeepCopy DatasetList_cell as_DatasetList (zero_list zl) (DatasetList_DeepCopyInto zm copy_meta copy_list_meta)"

definition DatasetInternalList_DeepCopy ::
  "'m \<Rightarrow> 'l \<Rightarrow> ('m \<Rightarrow> (('m, 'l) go_heap, 'm) state) \<Rightarrow> ('l \<Rightarrow> (('m, 'l) go_heap, 'l) state) \<Rightarrow> nat option \<Rightarrow>
   (('m, 'l) go_heap, nat option) state" where
  "DatasetInternalList_DeepCopy zm zl copy_meta copy_list_meta =
     DeepCopy InternalList_cell as_InternalList (zero_list zl)
       (DatasetInternalList_DeepCopyInto zm copy_meta copy_list_meta)"

text \<open>A \<open>runtime.Object\<close> is nil or a pointer with its type; a nil pointer becomes the nil interface.\<close>

datatype runtime_object = Dataset_object nat | DatasetInternal_object nat | DatasetList_object nat
  | DatasetInternalList_object nat

definition Dataset_DeepCopyObject ::
  "'m \<Rightarrow> ('m \<Rightarrow> (('m, 'l) go_heap, 'm) state) \<Rightarrow> nat option \<Rightarrow> (('m, 'l) go_heap, runtime_object option) state" where
  "Dataset_DeepCopyObject zm copy_meta p = do {
     c \<leftarrow> Dataset_DeepCopy zm copy_meta p;
     State_Monad.return (map_option Dataset_object c)
   }"

definition DatasetInternal_DeepCopyObject ::
  "'m \<Rightarrow> ('m \<Rightarrow> (('m, 'l) go_heap, 'm) state) \<Rightarrow> nat option \<Rightarrow> (('m, 'l) go_heap, runtime_object option) state" where
  "DatasetInternal_DeepCopyObject zm copy_meta p = do {
     c \<leftarrow> DatasetInternal_DeepCopy zm copy_meta p;
     State_Monad.return (map_option DatasetInternal_object c)
   }"

definition DatasetList_DeepCopyObject ::
  "'m \<Rightarrow> 'l \<Rightarrow> ('m \<Rightarrow> (('m, 'l) go_heap, 'm) state) \<Rightarrow> ('l \<Rightarrow> (('m, 'l) go_heap, 'l) state) \<Rightarrow> nat option \<Rightarrow>
   (('m, 'l) go_heap, runtime_object option) state" where
  "DatasetList_DeepCopyObject zm zl copy_meta copy_list_meta p = do {
     c \<leftarrow> DatasetList_DeepCopy zm zl copy_meta copy_list_meta p;
     State_Monad.return (map_option DatasetList_object c)
   }"

definition DatasetInternalList_DeepCopyObject ::
  "'m \<Rightarrow> 'l \<Rightarrow> ('m \<Rightarrow> (('m, 'l) go_heap, 'm) state) \<Rightarrow> ('l \<Rightarrow> (('m, 'l) go_heap, 'l) state) \<Rightarrow> nat option \<Rightarrow>
   (('m, 'l) go_heap, runtime_object option) state" where
  "DatasetInternalList_DeepCopyObject zm zl copy_meta copy_list_meta p = do {
     c \<leftarrow> DatasetInternalList_DeepCopy zm zl copy_meta copy_list_meta p;
     State_Monad.return (map_option DatasetInternalList_object c)
   }"

end
