(* ===== verification/Deep_Copy_Facts.thy ===== *)
theory Deep_Copy_Facts
  imports Deep_Copy
begin

text \<open>
  Every deep copy of the custom resources meets the contract \<open>deep_copier\<close>: typing, values and reachable cells of the
  structures, and an interpretation for each type, given the contract for the metadata.
\<close>

section \<open>Types, values and reachable cells\<close>

definition list_of :: "'a list option \<Rightarrow> 'a list" where
  "list_of = case_option [] id"

definition typed_infos :: "('m, 'l) go_heap \<Rightarrow> slice option \<Rightarrow> bool" where
  "typed_infos = typed_slice as_Infos (\<lambda>_ _. True)"

definition den_infos :: "('m, 'l) go_heap \<Rightarrow> slice option \<Rightarrow> CachingPlacementInfo list option" where
  "den_infos = den_slice as_Infos (\<lambda>_ x. x)"

definition reach_infos :: "('m, 'l) go_heap \<Rightarrow> slice option \<Rightarrow> nat set" where
  "reach_infos = reach_slice as_Infos (\<lambda>_ _. {})"

definition typed_placement :: "('m, 'l) go_heap \<Rightarrow> placement_ref \<Rightarrow> bool" where
  "typed_placement = (\<lambda>h x. typed_infos h (pr_Gateways x) \<and> typed_infos h (pr_DataLocations x))"

definition den_placement :: "('m, 'l) go_heap \<Rightarrow> placement_ref \<Rightarrow> CachingPlacement" where
  "den_placement = (\<lambda>h x. \<lparr>cp_Gateways = list_of (den_infos h (pr_Gateways x)),
     cp_DataLocations = list_of (den_infos h (pr_DataLocations x))\<rparr>)"

definition reach_placement :: "('m, 'l) go_heap \<Rightarrow> placement_ref \<Rightarrow> nat set" where
  "reach_placement = (\<lambda>h x. reach_infos h (pr_Gateways x) \<union> reach_infos h (pr_DataLocations x))"

definition typed_spec :: "('m, 'l) go_heap \<Rightarrow> spec_ref \<Rightarrow> bool" where
  "typed_spec = (\<lambda>h x. typed_map as_Map h (sr_Local x) \<and> typed_map as_Map h (sr_Remote x))"

definition den_spec :: "('m, 'l) go_heap \<Rightarrow> spec_ref \<Rightarrow> DatasetSpec" where
  "den_spec = (\<lambda>h x. \<lparr>sp_Local = den_map as_Map h (sr_Local x), sp_Remote = den_map as_Map h (sr_Remote x),
     sp_Type = sr_Type x, sp_Url = sr_Url x, sp_Format = sr_Format x, sp_Extract = sr_Extract x\<rparr>)"

definition reach_spec :: "('m, 'l) go_heap \<Rightarrow> spec_ref \<Rightarrow> nat set" where
  "reach_spec = (\<lambda>h x. reach_map as_Map h (sr_Local x) \<union> reach_map as_Map h (sr_Remote x))"

definition typed_dataset :: "(('m, 'l) go_heap \<Rightarrow> 'm \<Rightarrow> bool) \<Rightarrow> ('m, 'l) go_heap \<Rightarrow> 'm dataset_ref \<Rightarrow> bool" where
  "typed_dataset tm = (\<lambda>h x. tm h (dr_ObjectMeta x) \<and> typed_spec h (dr_Spec x))"

definition den_dataset ::
  "(('m, 'l) go_heap \<Rightarrow> 'm \<Rightarrow> object_meta) \<Rightarrow> ('m, 'l) go_heap \<Rightarrow> 'm dataset_ref \<Rightarrow> type_meta \<times> Dataset" where
  "den_dataset dm = (\<lambda>h x. (dr_TypeMeta x, \<lparr>ds_meta = dm h (dr_ObjectMeta x), ds_Spec = den_spec h (dr_Spec x),
     ds_Status = dr_Status x\<rparr>))"

definition reach_dataset :: "(('m, 'l) go_heap \<Rightarrow> 'm \<Rightarrow> nat set) \<Rightarrow> ('m, 'l) go_heap \<Rightarrow> 'm dataset_ref \<Rightarrow> nat set" where
  "reach_dataset rm = (\<lambda>h x. rm h (dr_ObjectMeta x) \<union> reach_spec h (dr_Spec x))"

definition placements_of :: "istatus_ref \<Rightarrow> placement_ref" where
  "placements_of s = cr_Placements (ir_Caching s)"

definition typed_internal :: "(('m, 'l) go_heap \<Rightarrow> 'm \<Rightarrow> bool) \<Rightarrow> ('m, 'l) go_heap \<Rightarrow> 'm internal_ref \<Rightarrow> bool" where
  "typed_internal tm = (\<lambda>h x. tm h (nr_ObjectMeta x) \<and> typed_spec h (nr_Spec x) \<and>
     typed_placement h (placements_of (nr_Status x)))"

definition den_internal ::
  "(('m, 'l) go_heap \<Rightarrow> 'm \<Rightarrow> object_meta) \<Rightarrow> ('m, 'l) go_heap \<Rightarrow> 'm internal_ref \<Rightarrow> type_meta \<times> DatasetInternal" where
  "den_internal dm = (\<lambda>h x. (nr_TypeMeta x, \<lparr>di_meta = dm h (nr_ObjectMeta x), di_Spec = den_spec h (nr_Spec x),
     di_Placements = den_placement h (placements_of (nr_Status x))\<rparr>))"

definition reach_internal :: "(('m, 'l) go_heap \<Rightarrow> 'm \<Rightarrow> nat set) \<Rightarrow> ('m, 'l) go_heap \<Rightarrow> 'm internal_ref \<Rightarrow> nat set" where
  "reach_internal rm = (\<lambda>h x. rm h (nr_ObjectMeta x) \<union> (reach_spec h (nr_Spec x) \<union>
     reach_placement h (placements_of (nr_Status x))))"

text \<open>A list, over the slice of its items.\<close>

definition typed_list ::
  "(('m, 'l) go_heap \<Rightarrow> 'l \<Rightarrow> bool) \<Rightarrow> (('m, 'l) go_heap \<Rightarrow> slice option \<Rightarrow> bool) \<Rightarrow> ('m, 'l) go_heap \<Rightarrow> 'l list_ref \<Rightarrow> bool" where
  "typed_list tml ti = (\<lambda>h x. tml h (lr_ListMeta x) \<and> ti h (lr_Items x))"

definition den_list :: "(('m, 'l) go_heap \<Rightarrow> 'l \<Rightarrow> 'd) \<Rightarrow> (('m, 'l) go_heap \<Rightarrow> slice option \<Rightarrow> 'v list option) \<Rightarrow>
    ('m, 'l) go_heap \<Rightarrow> 'l list_ref \<Rightarrow> type_meta \<times> 'd \<times> 'v list option" where
  "den_list dl di = (\<lambda>h x. (lr_TypeMeta x, dl h (lr_ListMeta x), di h (lr_Items x)))"

definition reach_list :: "(('m, 'l) go_heap \<Rightarrow> 'l \<Rightarrow> nat set) \<Rightarrow> (('m, 'l) go_heap \<Rightarrow> slice option \<Rightarrow> nat set) \<Rightarrow>
    ('m, 'l) go_heap \<Rightarrow> 'l list_ref \<Rightarrow> nat set" where
  "reach_list rl ri = (\<lambda>h x. rl h (lr_ListMeta x) \<union> ri h (lr_Items x))"

section \<open>The contract for each type\<close>

lemma infos_copier: "deep_copier typed_infos den_infos reach_infos (CopySlice Infos_array as_Infos zero_info State_Monad.return)"
  unfolding typed_infos_def den_infos_def reach_infos_def by (rule slice_copier [OF plain_copier]) simp

lemma placement_copier: "deep_copier typed_placement den_placement reach_placement CachingPlacement_DeepCopyInto"
  using iso_copier [OF pair_copier [OF infos_copier infos_copier],
      where parts = "\<lambda>x. (pr_Gateways x, pr_DataLocations x)"
        and build = "\<lambda>x y. x\<lparr>pr_Gateways := fst y, pr_DataLocations := snd y\<rparr>" and plain = "\<lambda>_. ()"
        and f = "\<lambda>_ y. \<lparr>cp_Gateways = list_of (fst y), cp_DataLocations = list_of (snd y)\<rparr>"]
  unfolding typed_placement_def den_placement_def reach_placement_def CachingPlacement_DeepCopyInto_def [abs_def] by simp

lemma spec_copier: "deep_copier typed_spec den_spec reach_spec DatasetSpec_DeepCopyInto"
  using iso_copier [OF pair_copier [OF map_copier map_copier],
      where parts = "\<lambda>x. (sr_Local x, sr_Remote x)"
        and build = "\<lambda>x y. x\<lparr>sr_Local := fst y, sr_Remote := snd y\<rparr>"
        and plain = "\<lambda>x. (sr_Type x, sr_Url x, sr_Format x, sr_Extract x)"
        and f = "\<lambda>(t, u, fo, ex) y. \<lparr>sp_Local = fst y, sp_Remote = snd y, sp_Type = t, sp_Url = u, sp_Format = fo,
          sp_Extract = ex\<rparr>", of as_Map Map_cell as_Map Map_cell]
  unfolding typed_spec_def den_spec_def reach_spec_def DatasetSpec_DeepCopyInto_def [abs_def] by simp

lemma status_copier:
  "deep_copier (\<lambda>h s. typed_placement h (placements_of s)) (\<lambda>h s. den_placement h (placements_of s))
     (\<lambda>h s. reach_placement h (placements_of s)) DatasetInternalStatus_DeepCopyInto"
  using iso_copier [OF placement_copier, where parts = placements_of
      and build = "\<lambda>x y. x\<lparr>ir_Caching := (ir_Caching x)\<lparr>cr_Placements := y\<rparr>\<rparr>" and plain = "\<lambda>_. ()" and f = "\<lambda>_ y. y"]
  unfolding DatasetInternalStatus_DeepCopyInto_def [abs_def] DatasetInternalStatusCaching_DeepCopyInto_def
  by (simp add: placements_of_def)

lemma dataset_copier:
  assumes "deep_copier tm dm rm copy_meta"
  shows "deep_copier (typed_dataset tm) (den_dataset dm) (reach_dataset rm) (Dataset_DeepCopyInto copy_meta)"
  using iso_copier [OF pair_copier [OF assms spec_copier],
      where parts = "\<lambda>x. (dr_ObjectMeta x, dr_Spec x)"
        and build = "\<lambda>x y. x\<lparr>dr_ObjectMeta := fst y, dr_Spec := snd y\<rparr>"
        and plain = "\<lambda>x. (dr_TypeMeta x, dr_Status x)"
        and f = "\<lambda>p y. (fst p, \<lparr>ds_meta = fst y, ds_Spec = snd y, ds_Status = snd p\<rparr>)"]
  unfolding typed_dataset_def den_dataset_def reach_dataset_def Dataset_DeepCopyInto_def [abs_def] by simp

lemma internal_copier:
  assumes "deep_copier tm dm rm copy_meta"
  shows "deep_copier (typed_internal tm) (den_internal dm) (reach_internal rm) (DatasetInternal_DeepCopyInto copy_meta)"
  using iso_copier [OF pair_copier [OF assms pair_copier [OF spec_copier status_copier]],
      where parts = "\<lambda>x. (nr_ObjectMeta x, nr_Spec x, nr_Status x)"
        and build = "\<lambda>x y. x\<lparr>nr_ObjectMeta := fst y, nr_Spec := fst (snd y), nr_Status := snd (snd y)\<rparr>"
        and plain = nr_TypeMeta
        and f = "\<lambda>p y. (p, \<lparr>di_meta = fst y, di_Spec = fst (snd y), di_Placements = snd (snd y)\<rparr>)"]
  unfolding typed_internal_def den_internal_def reach_internal_def DatasetInternal_DeepCopyInto_def [abs_def] by simp

lemma list_copier:
  assumes "deep_copier tml dl rl copy_list_meta" and "deep_copier ti di ri copy_slice"
  shows "deep_copier (typed_list tml ti) (den_list dl di) (reach_list rl ri)
    (\<lambda>x. do { meta \<leftarrow> copy_list_meta (lr_ListMeta x); items \<leftarrow> copy_slice (lr_Items x);
       State_Monad.return (x\<lparr>lr_ListMeta := meta, lr_Items := items\<rparr>) })"
  using iso_copier [OF pair_copier [OF assms],
      where parts = "\<lambda>x. (lr_ListMeta x, lr_Items x)"
        and build = "\<lambda>x y. x\<lparr>lr_ListMeta := fst y, lr_Items := snd y\<rparr>" and plain = lr_TypeMeta
        and f = "\<lambda>p y. (p, fst y, snd y)"]
  unfolding typed_list_def den_list_def reach_list_def by simp

lemma dataset_list_copier:
  assumes "deep_copier tm dm rm copy_meta" and "deep_copier tml dl rl copy_list_meta"
  shows "deep_copier (typed_list tml (typed_slice as_Datasets (typed_dataset tm)))
    (den_list dl (den_slice as_Datasets (den_dataset dm))) (reach_list rl (reach_slice as_Datasets (reach_dataset rm)))
    (DatasetList_DeepCopyInto zm copy_meta copy_list_meta)"
  using list_copier [OF assms(2) slice_copier [OF dataset_copier [OF assms(1)]],
      where proj1 = as_Datasets and mk1 = Datasets_array and zero1 = "zero_dataset zm"]
  unfolding DatasetList_DeepCopyInto_def [abs_def] by simp

lemma internal_list_copier:
  assumes "deep_copier tm dm rm copy_meta" and "deep_copier tml dl rl copy_list_meta"
  shows "deep_copier (typed_list tml (typed_slice as_Internals (typed_internal tm)))
    (den_list dl (den_slice as_Internals (den_internal dm))) (reach_list rl (reach_slice as_Internals (reach_internal rm)))
    (DatasetInternalList_DeepCopyInto zm copy_meta copy_list_meta)"
  using list_copier [OF assms(2) slice_copier [OF internal_copier [OF assms(1)]],
      where proj1 = as_Internals and mk1 = Internals_array and zero1 = "zero_internal zm"]
  unfolding DatasetInternalList_DeepCopyInto_def [abs_def] by simp

section \<open>Interpretations\<close>

interpretation placement: deep_copier typed_placement den_placement reach_placement CachingPlacement_DeepCopyInto
  by (rule placement_copier)

interpretation spec: deep_copier typed_spec den_spec reach_spec DatasetSpec_DeepCopyInto
  by (rule spec_copier)

text \<open>The package \<open>metav1\<close>, as far as the copies rely on it.\<close>

locale metadata =
  meta: deep_copier typed_meta den_meta reach_meta copy_meta +
  list_meta: deep_copier typed_lmeta den_lmeta reach_lmeta copy_lmeta
  for typed_meta :: "('m, 'l) go_heap \<Rightarrow> 'm \<Rightarrow> bool" and den_meta :: "('m, 'l) go_heap \<Rightarrow> 'm \<Rightarrow> object_meta" and reach_meta copy_meta
    and typed_lmeta :: "('m, 'l) go_heap \<Rightarrow> 'l \<Rightarrow> bool" and den_lmeta :: "('m, 'l) go_heap \<Rightarrow> 'l \<Rightarrow> 'd" and reach_lmeta copy_lmeta

sublocale metadata \<subseteq> dataset: deep_copier "typed_dataset typed_meta" "den_dataset den_meta" "reach_dataset reach_meta"
    "Dataset_DeepCopyInto copy_meta"
  by (rule dataset_copier) unfold_locales

sublocale metadata \<subseteq> internal: deep_copier "typed_internal typed_meta" "den_internal den_meta" "reach_internal reach_meta"
    "DatasetInternal_DeepCopyInto copy_meta"
  by (rule internal_copier) unfold_locales

sublocale metadata \<subseteq> dataset_ptr: deep_copier "typed_ptr as_Dataset (typed_dataset typed_meta)"
    "den_ptr as_Dataset (den_dataset den_meta)" "reach_ptr as_Dataset (reach_dataset reach_meta)"
    "Dataset_DeepCopy zm copy_meta" for zm
  unfolding Dataset_DeepCopy_def by (rule pointer_copier) (unfold_locales, simp)

sublocale metadata \<subseteq> internal_ptr: deep_copier "typed_ptr as_Internal (typed_internal typed_meta)"
    "den_ptr as_Internal (den_internal den_meta)" "reach_ptr as_Internal (reach_internal reach_meta)"
    "DatasetInternal_DeepCopy zm copy_meta" for zm
  unfolding DatasetInternal_DeepCopy_def by (rule pointer_copier) (unfold_locales, simp)

sublocale metadata \<subseteq> dataset_list: deep_copier
    "typed_ptr as_DatasetList (typed_list typed_lmeta (typed_slice as_Datasets (typed_dataset typed_meta)))"
    "den_ptr as_DatasetList (den_list den_lmeta (den_slice as_Datasets (den_dataset den_meta)))"
    "reach_ptr as_DatasetList (reach_list reach_lmeta (reach_slice as_Datasets (reach_dataset reach_meta)))"
    "DatasetList_DeepCopy zm zl copy_meta copy_lmeta" for zm zl
  unfolding DatasetList_DeepCopy_def
  by (rule pointer_copier [OF dataset_list_copier]) (unfold_locales, simp)

sublocale metadata \<subseteq> internal_list: deep_copier
    "typed_ptr as_InternalList (typed_list typed_lmeta (typed_slice as_Internals (typed_internal typed_meta)))"
    "den_ptr as_InternalList (den_list den_lmeta (den_slice as_Internals (den_internal den_meta)))"
    "reach_ptr as_InternalList (reach_list reach_lmeta (reach_slice as_Internals (reach_internal reach_meta)))"
    "DatasetInternalList_DeepCopy zm zl copy_meta copy_lmeta" for zm zl
  unfolding DatasetInternalList_DeepCopy_def
  by (rule pointer_copier [OF internal_list_copier]) (unfold_locales, simp)

context metadata
begin

lemmas dataset_list_copied = dataset_list.copies
lemmas internal_isolated = internal_ptr.isolated

end

text \<open>Metadata in memory: the name, and two maps; the metadata of a list is its resource version.\<close>

record meta_ref =
  mr_name :: string
  mr_namespace :: string
  mr_labels :: "nat option"
  mr_annotations :: "nat option"

type_synonym example_heap = "(meta_ref, string) go_heap"

definition copy_meta_ref :: "meta_ref \<Rightarrow> (example_heap, meta_ref) state" where
  "copy_meta_ref x = do {
     labels \<leftarrow> CopyMap Map_cell as_Map (mr_labels x);
     annotations \<leftarrow> CopyMap Map_cell as_Map (mr_annotations x);
     State_Monad.return (x\<lparr>mr_labels := labels, mr_annotations := annotations\<rparr>)
   }"

definition typed_meta_ref :: "example_heap \<Rightarrow> meta_ref \<Rightarrow> bool" where
  "typed_meta_ref = (\<lambda>h x. typed_map as_Map h (mr_labels x) \<and> typed_map as_Map h (mr_annotations x))"

definition den_meta_ref :: "example_heap \<Rightarrow> meta_ref \<Rightarrow> object_meta" where
  "den_meta_ref = (\<lambda>h x. (ObjectMeta (mr_name x) (mr_namespace x) (list_of (den_map as_Map h (mr_labels x))))
     \<lparr>om_annotations := list_of (den_map as_Map h (mr_annotations x))\<rparr>)"

definition reach_meta_ref :: "example_heap \<Rightarrow> meta_ref \<Rightarrow> nat set" where
  "reach_meta_ref = (\<lambda>h x. reach_map as_Map h (mr_labels x) \<union> reach_map as_Map h (mr_annotations x))"

lemma meta_ref_copier: "deep_copier typed_meta_ref den_meta_ref reach_meta_ref copy_meta_ref"
  using iso_copier [OF pair_copier [OF map_copier map_copier],
      where parts = "\<lambda>x. (mr_labels x, mr_annotations x)"
        and build = "\<lambda>x y. x\<lparr>mr_labels := fst y, mr_annotations := snd y\<rparr>" and plain = "\<lambda>x. (mr_name x, mr_namespace x)"
        and f = "\<lambda>p y. (ObjectMeta (fst p) (snd p) (list_of (fst y)))\<lparr>om_annotations := list_of (snd y)\<rparr>",
      of as_Map Map_cell as_Map Map_cell]
  unfolding typed_meta_ref_def den_meta_ref_def reach_meta_ref_def copy_meta_ref_def [abs_def] by simp

interpretation mem_metadata: metadata typed_meta_ref den_meta_ref reach_meta_ref copy_meta_ref
  "\<lambda>_ _. True" "\<lambda>_ x. x" "\<lambda>_ _. {}" State_Monad.return
  by (intro metadata.intro meta_ref_copier plain_copier)

end
