(* ===== verification/Copy_Properties.thy ===== *)
theory Copy_Properties
  imports Deep_Copy_Facts
begin

text \<open>
  The properties of the deep copies: they are well typed, stand for the same value, and share no cell with the
  original.  So the rest of the development may treat the objects of the cluster as values.
\<close>

section \<open>An example heap\<close>

text \<open>A list with one dataset: its specification has one map, and the dataset has labels.\<close>

definition example_item :: "meta_ref dataset_ref" where
  "example_item = \<lparr>dr_TypeMeta = zero_type_meta,
     dr_ObjectMeta = \<lparr>mr_name = ''a'', mr_namespace = ''ns'', mr_labels = Some 1, mr_annotations = None\<rparr>,
     dr_Spec = zero_spec\<lparr>sr_Local := Some 0\<rparr>, dr_Status = empty_status\<rparr>"

definition example_list :: "string list_ref" where
  "example_list = \<lparr>lr_TypeMeta = zero_type_meta, lr_ListMeta = ''7'',
     lr_Items = Some \<lparr>sl_array = 2, sl_offset = 0, sl_length = 1\<rparr>\<rparr>"

definition example_internal :: "meta_ref internal_ref" where
  "example_internal = \<lparr>nr_TypeMeta = zero_type_meta,
     nr_ObjectMeta = \<lparr>mr_name = ''a'', mr_namespace = ''ns'', mr_labels = Some 1, mr_annotations = None\<rparr>,
     nr_Spec = zero_spec\<lparr>sr_Local := Some 0\<rparr>, nr_Status = zero_istatus\<rparr>"

definition example_memory :: example_heap where
  "example_memory = \<lparr>cells = [0 \<mapsto> Map_cell [(''type'', ''COS'')], 1 \<mapsto> Map_cell [(''l'', ''v'')],
     2 \<mapsto> Datasets_array [example_item], 3 \<mapsto> DatasetList_cell example_list, 4 \<mapsto> Internal_cell example_internal],
     next_addr = 5\<rparr>"

lemmas example_memory_defs = example_memory_def example_list_def example_item_def example_internal_def cell_at_def
  typed_list_def typed_dataset_def typed_internal_def typed_meta_ref_def typed_spec_def typed_map_def typed_placement_def
  typed_infos_def placements_of_def zero_spec_def zero_istatus_def zero_caching_def zero_placement_def window_def

lemma example_memory_wf: "wf_heap example_memory"
  by (auto simp: wf_heap_def example_memory_def split: if_splits)

lemma example_list_typed:
  "typed_ptr as_DatasetList (typed_list (\<lambda>_ _. True) (typed_slice as_Datasets (typed_dataset typed_meta_ref)))
     example_memory (Some 3)"
  by (simp add: example_memory_defs)

lemma example_internal_typed: "typed_ptr as_Internal (typed_internal typed_meta_ref) example_memory (Some 4)"
  by (simp add: example_memory_defs)

section \<open>The properties\<close>

text \<open>
  C25. A deep copy of a list of datasets is well typed in a well-formed heap that still has every old cell unchanged;
  it stands for the same list, nil fields included, it is nil only for nil, and every cell it reaches is new.
\<close>

theorem deep_copy_well_typed:
  assumes "deep_copier typed_meta den_meta reach_meta copy_meta"
    and "deep_copier typed_lmeta den_lmeta reach_lmeta copy_lmeta" and "wf_heap h"
    and "typed_ptr as_DatasetList (typed_list typed_lmeta (typed_slice as_Datasets (typed_dataset typed_meta))) h p"
    and "run_state (DatasetList_DeepCopy zm zl copy_meta copy_lmeta p) h = (q, h')"
  shows "wf_heap h' \<and> extends h h' \<and>
    typed_ptr as_DatasetList (typed_list typed_lmeta (typed_slice as_Datasets (typed_dataset typed_meta))) h' q \<and>
    den_ptr as_DatasetList (den_list den_lmeta (den_slice as_Datasets (den_dataset den_meta))) h' q =
      den_ptr as_DatasetList (den_list den_lmeta (den_slice as_Datasets (den_dataset den_meta))) h p \<and>
    (q = None \<longleftrightarrow> p = None) \<and>
    reach_ptr as_DatasetList (reach_list reach_lmeta (reach_slice as_Datasets (reach_dataset reach_meta))) h' q \<inter>
      dom (cells h) = {}"
proof -
  note copy = metadata.dataset_list_copied [OF metadata.intro [OF assms(1,2)] assms(3-5)]
  have "q = None \<longleftrightarrow> p = None"
    using copy assms(4) by (cases p; cases q) (auto split: option.splits)
  then show ?thesis using copy by blast
qed

theorem deep_copy_well_typed_witness:
  "\<exists>q h'. run_state (DatasetList_DeepCopy \<lparr>mr_name = '''', mr_namespace = '''', mr_labels = None, mr_annotations = None\<rparr> ''''
       copy_meta_ref State_Monad.return (Some 3)) example_memory = (Some q, h') \<and> q \<notin> {0, 1, 2, 3, 4} \<and>
     den_ptr as_DatasetList (den_list (\<lambda>_ x. x) (den_slice as_Datasets (den_dataset den_meta_ref))) h' (Some q) =
       den_ptr as_DatasetList (den_list (\<lambda>_ x. x) (den_slice as_Datasets (den_dataset den_meta_ref))) example_memory (Some 3)"
proof -
  let ?zm = "\<lparr>mr_name = '''', mr_namespace = '''', mr_labels = None, mr_annotations = None\<rparr>"
  obtain q h' where run: "run_state (DatasetList_DeepCopy ?zm '''' copy_meta_ref State_Monad.return (Some 3)) example_memory = (q, h')"
    by fastforce
  note c = deep_copy_well_typed [OF meta_ref_copier plain_copier example_memory_wf example_list_typed run]
  then obtain a where q: "q = Some a" by auto
  have "a \<notin> dom (cells example_memory)" using c q by auto
  then have "a \<notin> {0, 1, 2, 3, 4}" by (auto simp: example_memory_def)
  then show ?thesis using c run q by blast
qed

text \<open>
  C26. A deep copy of a DatasetInternal is isolated from the original: whatever is written to the cells that the copy
  reaches, the original keeps its types and its value, and the other way round.
\<close>

theorem deep_copy_isolated:
  assumes "deep_copier typed_meta den_meta reach_meta copy_meta" and "wf_heap h"
    and "typed_ptr as_Internal (typed_internal typed_meta) h p"
    and "run_state (DatasetInternal_DeepCopy zm copy_meta p) h = (q, h')"
  shows "(\<forall>h''. agree_on (- reach_ptr as_Internal (reach_internal reach_meta) h' q) h' h'' \<longrightarrow>
      typed_ptr as_Internal (typed_internal typed_meta) h'' p \<and>
      den_ptr as_Internal (den_internal den_meta) h'' p = den_ptr as_Internal (den_internal den_meta) h p) \<and>
    (\<forall>h''. agree_on (- reach_ptr as_Internal (reach_internal reach_meta) h' p) h' h'' \<longrightarrow>
      typed_ptr as_Internal (typed_internal typed_meta) h'' q \<and>
      den_ptr as_Internal (den_internal den_meta) h'' q = den_ptr as_Internal (den_internal den_meta) h p)"
  using metadata.internal_isolated [OF metadata.intro [OF assms(1) plain_copier] assms(2-4)] by blast

theorem deep_copy_isolated_witness:
  "\<exists>q h'. run_state (DatasetInternal_DeepCopy \<lparr>mr_name = '''', mr_namespace = '''', mr_labels = None, mr_annotations = None\<rparr>
       copy_meta_ref (Some 4)) example_memory = (q, h') \<and>
     (\<forall>h''. agree_on (- reach_ptr as_Internal (reach_internal reach_meta_ref) h' q) h' h'' \<longrightarrow>
        den_ptr as_Internal (den_internal den_meta_ref) h'' (Some 4) =
        den_ptr as_Internal (den_internal den_meta_ref) example_memory (Some 4))"
proof -
  let ?zm = "\<lparr>mr_name = '''', mr_namespace = '''', mr_labels = None, mr_annotations = None\<rparr>"
  obtain q h' where run: "run_state (DatasetInternal_DeepCopy ?zm copy_meta_ref (Some 4)) example_memory = (q, h')"
    by fastforce
  then show ?thesis
    using deep_copy_isolated [OF meta_ref_copier example_memory_wf example_internal_typed run] by blast
qed

end
