(* ===== verification/Rest_Client.thy ===== *)
theory Rest_Client
  imports K8s_Api "HOL-Library.Word"
begin

text \<open>
  The generated client of the custom resources (\<open>src/apiclient/pkg/clientset/versioned\<close>: \<open>clientset.go\<close>,
  \<open>typed/com/v1alpha1/com_client.go\<close>, \<open>dataset.go\<close>, \<open>datasetinternal.go\<close>).  A request of the package \<open>rest\<close> is the
  list of the calls that build it; who sends it and decodes the answer is the parameter \<open>rest_client\<close>.  The options
  of the API are opaque but for those the code reads or writes.  Durations are 64-bit words of nanoseconds.
\<close>

text \<open>A call that may panic.\<close>

datatype 'a go_outcome = Panic | Returns 'a

section \<open>Requests\<close>

record 'o list_options =
  lo_Watch :: bool
  lo_TimeoutSeconds :: "64 word option"
  lo_other :: 'o

datatype 'o params = GetParams 'o | ListParams "'o list_options" | CreateParams 'o | UpdateParams 'o | PatchParams 'o

datatype 'o body = DatasetBody Dataset | InternalBody DatasetInternal | DeleteOptionsBody 'o | BytesBody string

datatype 'o rest_call = VerbGet | VerbPost | VerbPut | VerbDelete | VerbPatch string | Namespace string | Resource string
  | Name string | SubResource "string list" | VersionedParams "'o params" | Timeout "64 word" | Body "'o body"

type_synonym 'o request = "'o rest_call list"

record 'a object_list =
  ol_resourceVersion :: string
  ol_continue :: string
  ol_Items :: "'a list"

text \<open>
  Sending a request: \<open>Do(ctx).Into(result)\<close> at the four result types, which fills \<open>*result\<close> and returns an error;
  \<open>Do(ctx).Error()\<close>; and \<open>Watch(ctx)\<close>.
\<close>

record ('w, 'o, 'x) rest_client =
  rc_dataset :: "'o request \<Rightarrow> ('w, Dataset \<times> api_error option) state"
  rc_datasets :: "'o request \<Rightarrow> ('w, Dataset object_list \<times> api_error option) state"
  rc_internal :: "'o request \<Rightarrow> ('w, DatasetInternal \<times> api_error option) state"
  rc_internals :: "'o request \<Rightarrow> ('w, DatasetInternal object_list \<times> api_error option) state"
  rc_error :: "'o request \<Rightarrow> ('w, api_error option) state"
  rc_watch :: "'o request \<Rightarrow> ('w, api_error + 'x) state"

text \<open>\<open>time.Duration(seconds) * time.Second\<close>, and the zero duration without a timeout.\<close>

definition Second :: "64 word" where "Second = 1000000000"

definition timeout_of :: "'o list_options \<Rightarrow> 64 word" where
  "timeout_of opts = (case lo_TimeoutSeconds opts of None \<Rightarrow> 0 | Some s \<Rightarrow> s * Second)"

section \<open>Datasets (\<open>dataset.go\<close>)\<close>

record ('w, 'o, 'x) resource_client =
  rs_client :: "('w, 'o, 'x) rest_client"
  rs_ns :: string

definition datasets_Get_request :: "string \<Rightarrow> string \<Rightarrow> 'o \<Rightarrow> 'o request" where
  "datasets_Get_request ns name options =
     [VerbGet, Namespace ns, Resource ''datasets'', Name name, VersionedParams (GetParams options)]"

definition datasets_Get ::
  "('w, 'o, 'x) resource_client \<Rightarrow> string \<Rightarrow> 'o \<Rightarrow> ('w, Dataset \<times> api_error option) state" where
  "datasets_Get c name options = rc_dataset (rs_client c) (datasets_Get_request (rs_ns c) name options)"

definition datasets_List_request :: "string \<Rightarrow> 'o list_options \<Rightarrow> 'o request" where
  "datasets_List_request ns opts =
     [VerbGet, Namespace ns, Resource ''datasets'', VersionedParams (ListParams opts), Timeout (timeout_of opts)]"

definition datasets_List ::
  "('w, 'o, 'x) resource_client \<Rightarrow> 'o list_options \<Rightarrow> ('w, Dataset object_list \<times> api_error option) state" where
  "datasets_List c opts = rc_datasets (rs_client c) (datasets_List_request (rs_ns c) opts)"

text \<open>The timeout is read before \<open>Watch\<close> is set; the two fields are independent.\<close>

definition datasets_Watch_request :: "string \<Rightarrow> 'o list_options \<Rightarrow> 'o request" where
  "datasets_Watch_request ns opts =
     (let timeout = timeout_of opts; opts = opts\<lparr>lo_Watch := True\<rparr> in
      [VerbGet, Namespace ns, Resource ''datasets'', VersionedParams (ListParams opts), Timeout timeout])"

definition datasets_Watch ::
  "('w, 'o, 'x) resource_client \<Rightarrow> 'o list_options \<Rightarrow> ('w, api_error + 'x) state" where
  "datasets_Watch c opts = rc_watch (rs_client c) (datasets_Watch_request (rs_ns c) opts)"

definition datasets_Create_request :: "string \<Rightarrow> Dataset \<Rightarrow> 'o \<Rightarrow> 'o request" where
  "datasets_Create_request ns dataset opts =
     [VerbPost, Namespace ns, Resource ''datasets'', VersionedParams (CreateParams opts), Body (DatasetBody dataset)]"

definition datasets_Create ::
  "('w, 'o, 'x) resource_client \<Rightarrow> Dataset \<Rightarrow> 'o \<Rightarrow> ('w, Dataset \<times> api_error option) state" where
  "datasets_Create c dataset opts = rc_dataset (rs_client c) (datasets_Create_request (rs_ns c) dataset opts)"

definition datasets_Update_request :: "string \<Rightarrow> Dataset \<Rightarrow> 'o \<Rightarrow> 'o request" where
  "datasets_Update_request ns dataset opts =
     [VerbPut, Namespace ns, Resource ''datasets'', Name (om_name (ds_meta dataset)), VersionedParams (UpdateParams opts),
      Body (DatasetBody dataset)]"

definition datasets_Update ::
  "('w, 'o, 'x) resource_client \<Rightarrow> Dataset \<Rightarrow> 'o \<Rightarrow> ('w, Dataset \<times> api_error option) state" where
  "datasets_Update c dataset opts = rc_dataset (rs_client c) (datasets_Update_request (rs_ns c) dataset opts)"

definition datasets_Delete_request :: "string \<Rightarrow> string \<Rightarrow> 'o \<Rightarrow> 'o request" where
  "datasets_Delete_request ns name opts =
     [VerbDelete, Namespace ns, Resource ''datasets'', Name name, Body (DeleteOptionsBody opts)]"

definition datasets_Delete :: "('w, 'o, 'x) resource_client \<Rightarrow> string \<Rightarrow> 'o \<Rightarrow> ('w, api_error option) state" where
  "datasets_Delete c name opts = rc_error (rs_client c) (datasets_Delete_request (rs_ns c) name opts)"

definition datasets_DeleteCollection_request :: "string \<Rightarrow> 'o \<Rightarrow> 'o list_options \<Rightarrow> 'o request" where
  "datasets_DeleteCollection_request ns opts listOpts =
     [VerbDelete, Namespace ns, Resource ''datasets'', VersionedParams (ListParams listOpts),
      Timeout (timeout_of listOpts), Body (DeleteOptionsBody opts)]"

definition datasets_DeleteCollection ::
  "('w, 'o, 'x) resource_client \<Rightarrow> 'o \<Rightarrow> 'o list_options \<Rightarrow> ('w, api_error option) state" where
  "datasets_DeleteCollection c opts listOpts =
     rc_error (rs_client c) (datasets_DeleteCollection_request (rs_ns c) opts listOpts)"

definition datasets_Patch_request ::
  "string \<Rightarrow> string \<Rightarrow> string \<Rightarrow> string \<Rightarrow> 'o \<Rightarrow> string list \<Rightarrow> 'o request" where
  "datasets_Patch_request ns name pt data opts subresources =
     [VerbPatch pt, Namespace ns, Resource ''datasets'', Name name, SubResource subresources,
      VersionedParams (PatchParams opts), Body (BytesBody data)]"

definition datasets_Patch :: "('w, 'o, 'x) resource_client \<Rightarrow> string \<Rightarrow> string \<Rightarrow> string \<Rightarrow> 'o \<Rightarrow> string list \<Rightarrow>
    ('w, Dataset \<times> api_error option) state" where
  "datasets_Patch c name pt data opts subresources =
     rc_dataset (rs_client c) (datasets_Patch_request (rs_ns c) name pt data opts subresources)"

section \<open>DatasetInternals (\<open>datasetinternal.go\<close>)\<close>

definition internal_Get_request :: "string \<Rightarrow> string \<Rightarrow> 'o \<Rightarrow> 'o request" where
  "internal_Get_request ns name options =
     [VerbGet, Namespace ns, Resource ''datasetinternal'', Name name, VersionedParams (GetParams options)]"

definition internal_Get ::
  "('w, 'o, 'x) resource_client \<Rightarrow> string \<Rightarrow> 'o \<Rightarrow> ('w, DatasetInternal \<times> api_error option) state" where
  "internal_Get c name options = rc_internal (rs_client c) (internal_Get_request (rs_ns c) name options)"

definition internal_List_request :: "string \<Rightarrow> 'o list_options \<Rightarrow> 'o request" where
  "internal_List_request ns opts =
     [VerbGet, Namespace ns, Resource ''datasetinternal'', VersionedParams (ListParams opts), Timeout (timeout_of opts)]"

definition internal_List ::
  "('w, 'o, 'x) resource_client \<Rightarrow> 'o list_options \<Rightarrow> ('w, DatasetInternal object_list \<times> api_error option) state" where
  "internal_List c opts = rc_internals (rs_client c) (internal_List_request (rs_ns c) opts)"

definition internal_Watch_request :: "string \<Rightarrow> 'o list_options \<Rightarrow> 'o request" where
  "internal_Watch_request ns opts =
     (let timeout = timeout_of opts; opts = opts\<lparr>lo_Watch := True\<rparr> in
      [VerbGet, Namespace ns, Resource ''datasetinternal'', VersionedParams (ListParams opts), Timeout timeout])"

definition internal_Watch :: "('w, 'o, 'x) resource_client \<Rightarrow> 'o list_options \<Rightarrow> ('w, api_error + 'x) state" where
  "internal_Watch c opts = rc_watch (rs_client c) (internal_Watch_request (rs_ns c) opts)"

definition internal_Create_request :: "string \<Rightarrow> DatasetInternal \<Rightarrow> 'o \<Rightarrow> 'o request" where
  "internal_Create_request ns datasetInternal opts =
     [VerbPost, Namespace ns, Resource ''datasetinternal'', VersionedParams (CreateParams opts),
      Body (InternalBody datasetInternal)]"

definition internal_Create ::
  "('w, 'o, 'x) resource_client \<Rightarrow> DatasetInternal \<Rightarrow> 'o \<Rightarrow> ('w, DatasetInternal \<times> api_error option) state" where
  "internal_Create c datasetInternal opts =
     rc_internal (rs_client c) (internal_Create_request (rs_ns c) datasetInternal opts)"

section \<open>The clients of the group and of the clientset\<close>

definition newDatasets :: "('w, 'o, 'x) rest_client \<Rightarrow> string \<Rightarrow> ('w, 'o, 'x) resource_client" where
  "newDatasets c namespace = \<lparr>rs_client = c, rs_ns = namespace\<rparr>"

definition newDatasetInternal :: "('w, 'o, 'x) rest_client \<Rightarrow> string \<Rightarrow> ('w, 'o, 'x) resource_client" where
  "newDatasetInternal c namespace = \<lparr>rs_client = c, rs_ns = namespace\<rparr>"

text \<open>A \<open>rest.Config\<close>, with the queries per second of any ordered type and a rate limiter of any type.\<close>

record ('q, 'r) rest_config =
  rcfg_QPS :: 'q
  rcfg_Burst :: int
  rcfg_RateLimiter :: "'r option"
  rcfg_GroupVersion :: "(string \<times> string) option"
  rcfg_APIPath :: string
  rcfg_NegotiatedSerializer :: string
  rcfg_UserAgent :: string

text \<open>The functions of client-go that make clients.\<close>

record ('w, 'o, 'x, 'q, 'r, 'd) client_go =
  cg_DefaultKubernetesUserAgent :: string
  cg_RESTClientFor :: "('q, 'r) rest_config \<Rightarrow> string + ('w, 'o, 'x) rest_client"
  cg_NewDiscoveryClientForConfig :: "('q, 'r) rest_config \<Rightarrow> string + 'd"
  cg_NewDiscoveryClient :: "('w, 'o, 'x) rest_client \<Rightarrow> 'd"
  cg_NewTokenBucketRateLimiter :: "'q \<Rightarrow> int \<Rightarrow> 'r"

text \<open>\<open>v1alpha1.GroupVersion\<close> (\<open>groupversion_info.go\<close>).\<close>

definition GroupVersion :: "string \<times> string" where "GroupVersion = (''datashim.io'', ''v1alpha1'')"

definition setConfigDefaults ::
  "('w, 'o, 'x, 'q, 'r, 'd) client_go \<Rightarrow> ('q, 'r) rest_config \<Rightarrow> ('q, 'r) rest_config" where
  "setConfigDefaults cg config =
     (let config = config\<lparr>rcfg_GroupVersion := Some GroupVersion, rcfg_APIPath := ''/apis'',
                          rcfg_NegotiatedSerializer := ''scheme.Codecs''\<rparr> in
      if rcfg_UserAgent config = '''' then config\<lparr>rcfg_UserAgent := cg_DefaultKubernetesUserAgent cg\<rparr> else config)"

definition com_NewForConfig ::
  "('w, 'o, 'x, 'q, 'r, 'd) client_go \<Rightarrow> ('q, 'r) rest_config \<Rightarrow> string + ('w, 'o, 'x) rest_client" where
  "com_NewForConfig cg c = cg_RESTClientFor cg (setConfigDefaults cg c)"

record ('w, 'o, 'x, 'd) Clientset =
  cs_comV1alpha1 :: "('w, 'o, 'x) rest_client"
  cs_DiscoveryClient :: 'd

text \<open>The configuration is copied before the rate limiter is put into it, so the caller's stays as it is.\<close>

definition clientset_NewForConfig ::
  "('w, 'o, 'x, 'q :: {zero, ord}, 'r, 'd) client_go \<Rightarrow> ('q, 'r) rest_config \<Rightarrow> string + ('w, 'o, 'x, 'd) Clientset" where
  "clientset_NewForConfig cg c =
     (if rcfg_RateLimiter c = None \<and> rcfg_QPS c > 0 \<and> rcfg_Burst c \<le> 0 then
        Inl ''burst is required to be greater than 0 when RateLimiter is not set and QPS is set to greater than 0''
      else
        let copy = (if rcfg_RateLimiter c = None \<and> rcfg_QPS c > 0
              then c\<lparr>rcfg_RateLimiter := Some (cg_NewTokenBucketRateLimiter cg (rcfg_QPS c) (rcfg_Burst c))\<rparr> else c) in
        case com_NewForConfig cg copy of
          Inl err \<Rightarrow> Inl err
        | Inr com \<Rightarrow>
            (case cg_NewDiscoveryClientForConfig cg copy of
               Inl err \<Rightarrow> Inl err
             | Inr discovery \<Rightarrow> Inr \<lparr>cs_comV1alpha1 = com, cs_DiscoveryClient = discovery\<rparr>))"

text \<open>The variants that panic; they do not look at the rate limiter.\<close>

definition com_NewForConfigOrDie ::
  "('w, 'o, 'x, 'q, 'r, 'd) client_go \<Rightarrow> ('q, 'r) rest_config \<Rightarrow> ('w, 'o, 'x) rest_client go_outcome" where
  "com_NewForConfigOrDie cg c = (case com_NewForConfig cg c of Inl err \<Rightarrow> Panic | Inr client \<Rightarrow> Returns client)"

definition clientset_NewForConfigOrDie :: "('w, 'o, 'x, 'q :: {zero, ord}, 'r, 'd) client_go \<Rightarrow> ('q, 'r) rest_config \<Rightarrow>
    ('w, 'o, 'x, 'd) Clientset go_outcome" where
  "clientset_NewForConfigOrDie cg c =
     (case com_NewForConfigOrDie cg c of
        Panic \<Rightarrow> Panic
      | Returns com \<Rightarrow>
          (case cg_NewDiscoveryClientForConfig cg c of
             Inl err \<Rightarrow> Panic
           | Inr discovery \<Rightarrow> Returns \<lparr>cs_comV1alpha1 = com, cs_DiscoveryClient = discovery\<rparr>))"

text \<open>The clients over a given REST client, without a configuration.\<close>

definition com_New :: "('w, 'o, 'x) rest_client \<Rightarrow> ('w, 'o, 'x) rest_client" where
  "com_New c = c"

definition clientset_New ::
  "('w, 'o, 'x, 'q, 'r, 'd) client_go \<Rightarrow> ('w, 'o, 'x) rest_client \<Rightarrow> ('w, 'o, 'x, 'd) Clientset" where
  "clientset_New cg c = \<lparr>cs_comV1alpha1 = com_New c, cs_DiscoveryClient = cg_NewDiscoveryClient cg c\<rparr>"

text \<open>
  An interface value: nil, a nil pointer inside an interface (which is not equal to nil, but fails at its first
  use), or a client.  The receiver of a method is a pointer, \<open>None\<close> when it is nil: \<open>Discovery\<close> and \<open>RESTClient\<close> test
  for that, \<open>ComV1alpha1\<close> does not and panics.
\<close>

datatype 'a go_interface = NilInterface | NilPointer | Holds 'a

definition clientset_ComV1alpha1 :: "('w, 'o, 'x, 'd) Clientset option \<Rightarrow> ('w, 'o, 'x) rest_client go_outcome" where
  "clientset_ComV1alpha1 c = (case c of None \<Rightarrow> Panic | Some c \<Rightarrow> Returns (cs_comV1alpha1 c))"

definition clientset_Discovery :: "('w, 'o, 'x, 'd) Clientset option \<Rightarrow> 'd go_interface" where
  "clientset_Discovery c = (case c of None \<Rightarrow> NilInterface | Some c \<Rightarrow> Holds (cs_DiscoveryClient c))"

definition com_RESTClient :: "('w, 'o, 'x) rest_client option \<Rightarrow> ('w, 'o, 'x) rest_client go_interface" where
  "com_RESTClient c = (case c of None \<Rightarrow> NilInterface | Some restClient \<Rightarrow> Holds restClient)"

text \<open>\<open>clientset.ComV1alpha1().Datasets(namespace)\<close> and \<open>DatasetInternal(namespace)\<close>.\<close>

definition clientset_Datasets :: "('w, 'o, 'x, 'd) Clientset \<Rightarrow> string \<Rightarrow> ('w, 'o, 'x) resource_client" where
  "clientset_Datasets cs namespace = newDatasets (cs_comV1alpha1 cs) namespace"

definition clientset_DatasetInternal :: "('w, 'o, 'x, 'd) Clientset \<Rightarrow> string \<Rightarrow> ('w, 'o, 'x) resource_client" where
  "clientset_DatasetInternal cs namespace = newDatasetInternal (cs_comV1alpha1 cs) namespace"

text \<open>The resource that the definition of the custom resource registers (\<open>datasetinternal_types.go\<close>, marker \<open>path\<close>).\<close>

definition internal_resource_path :: string where "internal_resource_path = ''datasetsinternal''"

end
