(* ===== verification/Fake_Client.thy ===== *)
theory Fake_Client
  imports Rest_Client
begin

text \<open>
  The fake client for tests (\<open>typed/com/v1alpha1/fake/fake_dataset.go\<close>, \<open>fake_datasetinternal.go\<close>,
  \<open>fake_com_client.go\<close>).  Its operations are actions of the package \<open>client-go/testing\<close>, handed to the parameter
  \<open>fake\<close>, which answers with a nil or typed object.  A failed type assertion is the value \<open>Panic\<close>.
\<close>

section \<open>Actions\<close>

record group_version_resource =
  gvr_Group :: string
  gvr_Version :: string
  gvr_Resource :: string

record group_version_kind =
  gvk_Group :: string
  gvk_Version :: string
  gvk_Kind :: string

datatype fake_object = FakeDataset Dataset | FakeDatasetList "Dataset object_list" | FakeInternal DatasetInternal
  | FakeInternalList "DatasetInternal object_list"

datatype 'o fake_action =
    GetAction group_version_resource string string
  | ListAction group_version_resource group_version_kind string "'o list_options"
  | WatchAction group_version_resource string "'o list_options"
  | CreateAction group_version_resource string fake_object
  | UpdateAction group_version_resource string fake_object
  | DeleteAction group_version_resource string string
  | DeleteCollectionAction group_version_resource string "'o list_options"
  | PatchSubresourceAction group_version_resource string string string string "string list"

text \<open>\<open>Invokes\<close> with the default object, \<open>InvokesWatch\<close>, and the label selector of \<open>ExtractFromListOptions\<close>.\<close>

record ('w, 'o, 'x) fake =
  fk_Invokes :: "'o fake_action \<Rightarrow> fake_object \<Rightarrow> ('w, fake_object option \<times> api_error option) state"
  fk_InvokesWatch :: "'o fake_action \<Rightarrow> ('w, api_error + 'x) state"
  fk_selector :: "'o list_options \<Rightarrow> (smap \<Rightarrow> bool) option"

fun as_dataset :: "fake_object option \<times> api_error option \<Rightarrow> (Dataset option \<times> api_error option) go_outcome" where
  "as_dataset (None, err) = Returns (None, err)"
| "as_dataset (Some (FakeDataset d), err) = Returns (Some d, err)"
| "as_dataset _ = Panic"

fun as_internal :: "fake_object option \<times> api_error option \<Rightarrow> (DatasetInternal option \<times> api_error option) go_outcome" where
  "as_internal (None, err) = Returns (None, err)"
| "as_internal (Some (FakeInternal d), err) = Returns (Some d, err)"
| "as_internal _ = Panic"

text \<open>The loop over the items appends those that match to the new list.\<close>

definition select :: "(smap \<Rightarrow> bool) option \<Rightarrow> ('a \<Rightarrow> smap) \<Rightarrow> 'a object_list \<Rightarrow> 'a object_list" where
  "select label labels_of l =
     (let matches = (case label of None \<Rightarrow> (\<lambda>_. True) | Some p \<Rightarrow> p) in
      l\<lparr>ol_Items := filter (\<lambda>item. matches (labels_of item)) (ol_Items l)\<rparr>)"

definition zero_Dataset :: Dataset where
  "zero_Dataset = \<lparr>ds_meta = ObjectMeta '''' '''' [], ds_Spec = empty_spec, ds_Status = empty_status\<rparr>"

definition zero_DatasetInternal :: DatasetInternal where
  "zero_DatasetInternal = \<lparr>di_meta = ObjectMeta '''' '''' [], di_Spec = empty_spec, di_Placements = empty_placement\<rparr>"

definition zero_object_list :: "'a object_list" where
  "zero_object_list = \<lparr>ol_resourceVersion = '''', ol_continue = '''', ol_Items = []\<rparr>"

section \<open>Datasets\<close>

definition datasetsResource :: group_version_resource where
  "datasetsResource = \<lparr>gvr_Group = ''datashim.io'', gvr_Version = ''v1alpha1'', gvr_Resource = ''datasets''\<rparr>"

definition datasetsKind :: group_version_kind where
  "datasetsKind = \<lparr>gvk_Group = ''datashim.io'', gvk_Version = ''v1alpha1'', gvk_Kind = ''Dataset''\<rparr>"

definition FakeDatasets_Get ::
  "('w, 'o, 'x) fake \<Rightarrow> string \<Rightarrow> string \<Rightarrow> 'o \<Rightarrow> ('w, (Dataset option \<times> api_error option) go_outcome) state" where
  "FakeDatasets_Get f ns name options = do {
     r \<leftarrow> fk_Invokes f (GetAction datasetsResource ns name) (FakeDataset zero_Dataset);
     State_Monad.return (as_dataset r)
   }"

definition FakeDatasets_List :: "('w, 'o, 'x) fake \<Rightarrow> string \<Rightarrow> 'o list_options \<Rightarrow>
    ('w, (Dataset object_list option \<times> api_error option) go_outcome) state" where
  "FakeDatasets_List f ns opts = do {
     r \<leftarrow> fk_Invokes f (ListAction datasetsResource datasetsKind ns opts) (FakeDatasetList zero_object_list);
     State_Monad.return
       (case r of
          (None, err) \<Rightarrow> Returns (None, err)
        | (Some (FakeDatasetList l), err) \<Rightarrow> Returns (Some (select (fk_selector f opts) (\<lambda>d. om_labels (ds_meta d)) l), err)
        | _ \<Rightarrow> Panic)
   }"

definition FakeDatasets_Watch :: "('w, 'o, 'x) fake \<Rightarrow> string \<Rightarrow> 'o list_options \<Rightarrow> ('w, api_error + 'x) state" where
  "FakeDatasets_Watch f ns opts = fk_InvokesWatch f (WatchAction datasetsResource ns opts)"

definition FakeDatasets_Create :: "('w, 'o, 'x) fake \<Rightarrow> string \<Rightarrow> Dataset \<Rightarrow> 'o \<Rightarrow>
    ('w, (Dataset option \<times> api_error option) go_outcome) state" where
  "FakeDatasets_Create f ns dataset opts = do {
     r \<leftarrow> fk_Invokes f (CreateAction datasetsResource ns (FakeDataset dataset)) (FakeDataset zero_Dataset);
     State_Monad.return (as_dataset r)
   }"

definition FakeDatasets_Update :: "('w, 'o, 'x) fake \<Rightarrow> string \<Rightarrow> Dataset \<Rightarrow> 'o \<Rightarrow>
    ('w, (Dataset option \<times> api_error option) go_outcome) state" where
  "FakeDatasets_Update f ns dataset opts = do {
     r \<leftarrow> fk_Invokes f (UpdateAction datasetsResource ns (FakeDataset dataset)) (FakeDataset zero_Dataset);
     State_Monad.return (as_dataset r)
   }"

definition FakeDatasets_Delete :: "('w, 'o, 'x) fake \<Rightarrow> string \<Rightarrow> string \<Rightarrow> 'o \<Rightarrow> ('w, api_error option) state" where
  "FakeDatasets_Delete f ns name opts = do {
     r \<leftarrow> fk_Invokes f (DeleteAction datasetsResource ns name) (FakeDataset zero_Dataset);
     State_Monad.return (snd r)
   }"

definition FakeDatasets_DeleteCollection ::
  "('w, 'o, 'x) fake \<Rightarrow> string \<Rightarrow> 'o \<Rightarrow> 'o list_options \<Rightarrow> ('w, api_error option) state" where
  "FakeDatasets_DeleteCollection f ns opts listOpts = do {
     r \<leftarrow> fk_Invokes f (DeleteCollectionAction datasetsResource ns listOpts) (FakeDatasetList zero_object_list);
     State_Monad.return (snd r)
   }"

definition FakeDatasets_Patch :: "('w, 'o, 'x) fake \<Rightarrow> string \<Rightarrow> string \<Rightarrow> string \<Rightarrow> string \<Rightarrow> 'o \<Rightarrow> string list \<Rightarrow>
    ('w, (Dataset option \<times> api_error option) go_outcome) state" where
  "FakeDatasets_Patch f ns name pt data opts subresources = do {
     r \<leftarrow> fk_Invokes f (PatchSubresourceAction datasetsResource ns name pt data subresources) (FakeDataset zero_Dataset);
     State_Monad.return (as_dataset r)
   }"

section \<open>DatasetInternals\<close>

definition datasetinternalsResource :: group_version_resource where
  "datasetinternalsResource =
     \<lparr>gvr_Group = ''datashim.io'', gvr_Version = ''v1alpha1'', gvr_Resource = ''datasetinternals''\<rparr>"

definition datasetinternalsKind :: group_version_kind where
  "datasetinternalsKind = \<lparr>gvk_Group = ''datashim.io'', gvk_Version = ''v1alpha1'', gvk_Kind = ''DatasetInternal''\<rparr>"

definition FakeDatasetInternal_Get :: "('w, 'o, 'x) fake \<Rightarrow> string \<Rightarrow> string \<Rightarrow> 'o \<Rightarrow>
    ('w, (DatasetInternal option \<times> api_error option) go_outcome) state" where
  "FakeDatasetInternal_Get f ns name options = do {
     r \<leftarrow> fk_Invokes f (GetAction datasetinternalsResource ns name) (FakeInternal zero_DatasetInternal);
     State_Monad.return (as_internal r)
   }"

definition FakeDatasetInternal_List :: "('w, 'o, 'x) fake \<Rightarrow> string \<Rightarrow> 'o list_options \<Rightarrow>
    ('w, (DatasetInternal object_list option \<times> api_error option) go_outcome) state" where
  "FakeDatasetInternal_List f ns opts = do {
     r \<leftarrow> fk_Invokes f (ListAction datasetinternalsResource datasetinternalsKind ns opts) (FakeInternalList zero_object_list);
     State_Monad.return
       (case r of
          (None, err) \<Rightarrow> Returns (None, err)
        | (Some (FakeInternalList l), err) \<Rightarrow> Returns (Some (select (fk_selector f opts) (\<lambda>d. om_labels (di_meta d)) l), err)
        | _ \<Rightarrow> Panic)
   }"

definition FakeDatasetInternal_Watch :: "('w, 'o, 'x) fake \<Rightarrow> string \<Rightarrow> 'o list_options \<Rightarrow> ('w, api_error + 'x) state" where
  "FakeDatasetInternal_Watch f ns opts = fk_InvokesWatch f (WatchAction datasetinternalsResource ns opts)"

definition FakeDatasetInternal_Create :: "('w, 'o, 'x) fake \<Rightarrow> string \<Rightarrow> DatasetInternal \<Rightarrow> 'o \<Rightarrow>
    ('w, (DatasetInternal option \<times> api_error option) go_outcome) state" where
  "FakeDatasetInternal_Create f ns datasetInternal opts = do {
     r \<leftarrow> fk_Invokes f (CreateAction datasetinternalsResource ns (FakeInternal datasetInternal)) (FakeInternal zero_DatasetInternal);
     State_Monad.return (as_internal r)
   }"


section \<open>The fake clientset (\<open>fake/clientset_generated.go\<close>, \<open>fake_com_client.go\<close>)\<close>

text \<open>The object tracker of \<open>client-go/testing\<close>.\<close>

record ('w, 'x) tracker =
  tr_Add :: "fake_object \<Rightarrow> ('w, string option) state"
  tr_Watch :: "group_version_resource \<Rightarrow> string \<Rightarrow> ('w, string + 'x) state"

text \<open>\<open>NewSimpleClientset\<close> puts the objects into the tracker, in their order, and panics at the first one refused.\<close>

primrec NewSimpleClientset_add :: "('w, 'x) tracker \<Rightarrow> fake_object list \<Rightarrow> ('w, unit go_outcome) state" where
  "NewSimpleClientset_add tracker [] = State_Monad.return (Returns ())"
| "NewSimpleClientset_add tracker (obj # objects) = do {
     err \<leftarrow> tr_Add tracker obj;
     (case err of Some _ \<Rightarrow> State_Monad.return Panic | None \<Rightarrow> NewSimpleClientset_add tracker objects)
   }"

text \<open>Its reactor for watches: (handled, watch, error).  An action is its resource and its namespace here.\<close>

definition NewSimpleClientset_watch :: "('w, 'x) tracker \<Rightarrow> group_version_resource \<Rightarrow> string \<Rightarrow>
    ('w, bool \<times> 'x option \<times> string option) state" where
  "NewSimpleClientset_watch tracker gvr ns = do {
     r \<leftarrow> tr_Watch tracker gvr ns;
     State_Monad.return (case r of Inl err \<Rightarrow> (False, None, Some err) | Inr w \<Rightarrow> (True, Some w, None))
   }"

text \<open>\<open>Datasets(namespace)\<close> and \<open>DatasetInternal(namespace)\<close>: the fake and the namespace.\<close>

definition FakeCom_Datasets :: "('w, 'o, 'x) fake \<Rightarrow> string \<Rightarrow> ('w, 'o, 'x) fake \<times> string" where
  "FakeCom_Datasets c namespace = (c, namespace)"

definition FakeCom_DatasetInternal :: "('w, 'o, 'x) fake \<Rightarrow> string \<Rightarrow> ('w, 'o, 'x) fake \<times> string" where
  "FakeCom_DatasetInternal c namespace = (c, namespace)"

text \<open>
  What the clientset uses of the package \<open>testing\<close>: an empty \<open>Fake\<close>, a tracker over the scheme of the clientset,
  the reaction of a tracker, and adding a reactor for a verb and a resource or for the watches of a resource.
\<close>

record ('w, 'o, 'x, 'r) go_testing =
  tg_Fake :: "('w, 'o, 'x) fake"
  tg_NewObjectTracker :: "('w, ('w, 'x) tracker) state"
  tg_ObjectReaction :: "('w, 'x) tracker \<Rightarrow> 'r"
  tg_AddReactor :: "string \<Rightarrow> string \<Rightarrow> 'r \<Rightarrow> ('w, 'o, 'x) fake \<Rightarrow> ('w, 'o, 'x) fake"
  tg_AddWatchReactor :: "string \<Rightarrow>
     (group_version_resource \<Rightarrow> string \<Rightarrow> ('w, bool \<times> 'x option \<times> string option) state) \<Rightarrow>
     ('w, 'o, 'x) fake \<Rightarrow> ('w, 'o, 'x) fake"

text \<open>
  The clientset.  Its discovery client and its group client hold the address of the \<open>Fake\<close> in it, so they see
  the reactors that are added later: both are read off the field.
\<close>

record ('w, 'o, 'x) fake_clientset =
  fcs_Fake :: "('w, 'o, 'x) fake"
  fcs_tracker :: "('w, 'x) tracker"

definition NewSimpleClientset :: "('w, 'o, 'x, 'r) go_testing \<Rightarrow> fake_object list \<Rightarrow>
    ('w, ('w, 'o, 'x) fake_clientset go_outcome) state" where
  "NewSimpleClientset tg objects = do {
     tracker \<leftarrow> tg_NewObjectTracker tg;
     added \<leftarrow> NewSimpleClientset_add tracker objects;
     State_Monad.return (case added of
       Panic \<Rightarrow> Panic
     | Returns _ \<Rightarrow>
         let cs = \<lparr>fcs_Fake = tg_Fake tg, fcs_tracker = tracker\<rparr>;
             cs = cs\<lparr>fcs_Fake := tg_AddReactor tg ''*'' ''*'' (tg_ObjectReaction tg tracker) (fcs_Fake cs)\<rparr>;
             cs = cs\<lparr>fcs_Fake := tg_AddWatchReactor tg ''*'' (NewSimpleClientset_watch tracker) (fcs_Fake cs)\<rparr> in
         Returns cs)
   }"

definition fake_Discovery :: "(('w, 'o, 'x) fake \<Rightarrow> 'd) \<Rightarrow> ('w, 'o, 'x) fake_clientset \<Rightarrow> 'd" where
  "fake_Discovery FakeDiscovery c = FakeDiscovery (fcs_Fake c)"

definition fake_Tracker :: "('w, 'o, 'x) fake_clientset \<Rightarrow> ('w, 'x) tracker" where
  "fake_Tracker c = fcs_tracker c"

definition fake_ComV1alpha1 :: "('w, 'o, 'x) fake_clientset \<Rightarrow> ('w, 'o, 'x) fake" where
  "fake_ComV1alpha1 c = fcs_Fake c"

text \<open>\<open>RESTClient\<close> of the fake: an interface that is not nil and holds a nil pointer.\<close>

definition FakeCom_RESTClient :: "('w, 'o, 'x) fake \<Rightarrow> ('w, 'o, 'x) rest_client go_interface" where
  "FakeCom_RESTClient c = NilPointer"

text \<open>
  A tracker that takes every object gives a clientset, whatever the objects; the first object it refuses makes
  \<open>NewSimpleClientset\<close> panic, and the objects after it are never added.
\<close>

lemma NewSimpleClientset_panics_iff:
  assumes "\<And>obj w. obj \<in> set objects \<Longrightarrow> fst (run_state (tr_Add tracker obj) w) \<noteq> None \<longleftrightarrow> bad obj"
  shows "fst (run_state (NewSimpleClientset_add tracker objects) w) = Panic \<longleftrightarrow> (\<exists>obj \<in> set objects. bad obj)"
  using assms
proof (induction objects arbitrary: w)
  case (Cons obj objects)
  obtain err w1 where r: "run_state (tr_Add tracker obj) w = (err, w1)" by fastforce
  then have "err \<noteq> None \<longleftrightarrow> bad obj" using Cons.prems [of obj w] by simp
  then show ?case using Cons.IH [of w1] Cons.prems r by (cases err) auto
qed simp

lemma NewSimpleClientset_add_stops:
  assumes "run_state (NewSimpleClientset_add tracker front) w = (Returns (), w1)"
    and "run_state (tr_Add tracker obj) w1 = (Some err, w2)"
  shows "run_state (NewSimpleClientset_add tracker (front @ obj # rest)) w = (Panic, w2)"
  using assms(1)
proof (induction front arbitrary: w)
  case (Cons x front)
  obtain e w0 where r: "run_state (tr_Add tracker x) w = (e, w0)" by fastforce
  then show ?case using Cons by (cases e) auto
qed (use assms(2) in simp)

end
