(* ===== verification/Client_Endpoints.thy ===== *)
theory Client_Endpoints
  imports Fake_Client
begin

text \<open>
  What the two clients promise.  An \<open>endpoint\<close> is what a server sees of an operation: verb, resource, namespace, name,
  subresources and payload.  A request of the package \<open>rest\<close> and an action of \<open>client-go/testing\<close> each denote one.  A
  \<open>dataset_server\<close> answers endpoints; both clients are built on it, the real one decoding the answer into its result
  (an answer of another type leaves the zero value), the fake one returning it as an object, or nil beside an error.
\<close>

named_theorems client_simps \<open>the operations of the clients and the endpoints they reach\<close>

section \<open>Endpoints\<close>

datatype verb = GetVerb | ListVerb | WatchVerb | CreateVerb | UpdateVerb | DeleteVerb | DeleteCollectionVerb
  | PatchVerb string

datatype 'o payload = NoPayload | ObjectPayload fake_object | BytesPayload string | SelectPayload "'o list_options"

record 'o endpoint =
  ep_verb :: verb
  ep_resource :: string
  ep_ns :: string
  ep_name :: string
  ep_sub :: "string list"
  ep_payload :: "'o payload"

definition empty_endpoint :: "'o endpoint" where
  "empty_endpoint = \<lparr>ep_verb = GetVerb, ep_resource = '''', ep_ns = '''', ep_name = '''', ep_sub = [], ep_payload = NoPayload\<rparr>"

text \<open>
  Each call of a builder sets its part.  A server takes a read with list options as a list, or a watch when they ask for
  one, and a deletion with list options as the deletion of a collection; the watch flag is then part of the verb.
\<close>

fun apply_params :: "'o params \<Rightarrow> 'o endpoint \<Rightarrow> 'o endpoint" where
  "apply_params (ListParams l) e =
     e\<lparr>ep_verb := (if ep_verb e = DeleteVerb then DeleteCollectionVerb else if lo_Watch l then WatchVerb else ListVerb),
       ep_payload := SelectPayload (l\<lparr>lo_Watch := False\<rparr>)\<rparr>"
| "apply_params _ e = e"

fun apply_body :: "'o body \<Rightarrow> 'o endpoint \<Rightarrow> 'o endpoint" where
  "apply_body (DatasetBody d) e = e\<lparr>ep_payload := ObjectPayload (FakeDataset d)\<rparr>"
| "apply_body (InternalBody d) e = e\<lparr>ep_payload := ObjectPayload (FakeInternal d)\<rparr>"
| "apply_body (BytesBody s) e = e\<lparr>ep_payload := BytesPayload s\<rparr>"
| "apply_body (DeleteOptionsBody _) e = e"

fun apply_call :: "'o rest_call \<Rightarrow> 'o endpoint \<Rightarrow> 'o endpoint" where
  "apply_call VerbGet e = e\<lparr>ep_verb := GetVerb\<rparr>"
| "apply_call VerbPost e = e\<lparr>ep_verb := CreateVerb\<rparr>"
| "apply_call VerbPut e = e\<lparr>ep_verb := UpdateVerb\<rparr>"
| "apply_call VerbDelete e = e\<lparr>ep_verb := DeleteVerb\<rparr>"
| "apply_call (VerbPatch pt) e = e\<lparr>ep_verb := PatchVerb pt\<rparr>"
| "apply_call (Namespace ns) e = e\<lparr>ep_ns := ns\<rparr>"
| "apply_call (Resource r) e = e\<lparr>ep_resource := r\<rparr>"
| "apply_call (Name n) e = e\<lparr>ep_name := n\<rparr>"
| "apply_call (SubResource s) e = e\<lparr>ep_sub := s\<rparr>"
| "apply_call (VersionedParams p) e = apply_params p e"
| "apply_call (Timeout _) e = e"
| "apply_call (Body b) e = apply_body b e"

definition request_endpoint :: "'o request \<Rightarrow> 'o endpoint" where
  "request_endpoint r = fold apply_call r empty_endpoint"

text \<open>The name of an object that is created or updated is in the object.\<close>

fun object_name :: "fake_object \<Rightarrow> string" where
  "object_name (FakeDataset d) = om_name (ds_meta d)"
| "object_name (FakeInternal d) = om_name (di_meta d)"
| "object_name _ = ''''"

definition mk_endpoint ::
  "verb \<Rightarrow> group_version_resource \<Rightarrow> string \<Rightarrow> string \<Rightarrow> string list \<Rightarrow> 'o payload \<Rightarrow> 'o endpoint" where
  "mk_endpoint v gvr ns name sub p =
     \<lparr>ep_verb = v, ep_resource = gvr_Resource gvr, ep_ns = ns, ep_name = name, ep_sub = sub, ep_payload = p\<rparr>"

fun action_endpoint :: "'o fake_action \<Rightarrow> 'o endpoint" where
  "action_endpoint (GetAction gvr ns name) = mk_endpoint GetVerb gvr ns name [] NoPayload"
| "action_endpoint (ListAction gvr kind ns l) = mk_endpoint ListVerb gvr ns '''' [] (SelectPayload (l\<lparr>lo_Watch := False\<rparr>))"
| "action_endpoint (WatchAction gvr ns l) = mk_endpoint WatchVerb gvr ns '''' [] (SelectPayload (l\<lparr>lo_Watch := False\<rparr>))"
| "action_endpoint (CreateAction gvr ns obj) = mk_endpoint CreateVerb gvr ns '''' [] (ObjectPayload obj)"
| "action_endpoint (UpdateAction gvr ns obj) = mk_endpoint UpdateVerb gvr ns (object_name obj) [] (ObjectPayload obj)"
| "action_endpoint (DeleteAction gvr ns name) = mk_endpoint DeleteVerb gvr ns name [] NoPayload"
| "action_endpoint (DeleteCollectionAction gvr ns l) =
     mk_endpoint DeleteCollectionVerb gvr ns '''' [] (SelectPayload (l\<lparr>lo_Watch := False\<rparr>))"
| "action_endpoint (PatchSubresourceAction gvr ns name pt data sub) =
     mk_endpoint (PatchVerb pt) gvr ns name sub (BytesPayload data)"

text \<open>
  A list request whose options already ask for a watch is a watch to the server: \<open>List\<close> leaves the flag as it is.
\<close>

lemmas endpoint_simps = request_endpoint_def empty_endpoint_def mk_endpoint_def

section \<open>A server of the custom resources, and the clients on it\<close>

type_synonym ('w, 'o) server = "'o endpoint \<Rightarrow> ('w, fake_object \<times> api_error option) state"

definition decode :: "'a \<Rightarrow> (fake_object \<Rightarrow> 'a option) \<Rightarrow> fake_object \<times> api_error option \<Rightarrow> 'a \<times> api_error option" where
  "decode zero get r = (case r of (obj, None) \<Rightarrow> (case get obj of Some a \<Rightarrow> (a, None) | None \<Rightarrow> (zero, None)) | (_, Some err) \<Rightarrow> (zero, Some err))"

fun get_dataset :: "fake_object \<Rightarrow> Dataset option" where
  "get_dataset (FakeDataset d) = Some d" | "get_dataset _ = None"

fun get_datasets :: "fake_object \<Rightarrow> Dataset object_list option" where
  "get_datasets (FakeDatasetList l) = Some l" | "get_datasets _ = None"

fun get_internal :: "fake_object \<Rightarrow> DatasetInternal option" where
  "get_internal (FakeInternal d) = Some d" | "get_internal _ = None"

fun get_internals :: "fake_object \<Rightarrow> DatasetInternal object_list option" where
  "get_internals (FakeInternalList l) = Some l" | "get_internals _ = None"

definition send :: "('w, 'o) server \<Rightarrow> (fake_object \<times> api_error option \<Rightarrow> 'a) \<Rightarrow> 'o request \<Rightarrow> ('w, 'a) state" where
  "send srv f r = do { ans \<leftarrow> srv (request_endpoint r); State_Monad.return (f ans) }"

definition watch_answer :: "fake_object \<times> api_error option \<Rightarrow> api_error + fake_object" where
  "watch_answer r = (case r of (obj, None) \<Rightarrow> Inr obj | (_, Some err) \<Rightarrow> Inl err)"

definition client_of :: "('w, 'o) server \<Rightarrow> ('w, 'o, fake_object) rest_client" where
  "client_of srv =
     \<lparr>rc_dataset = send srv (decode zero_Dataset get_dataset),
      rc_datasets = send srv (decode zero_object_list get_datasets),
      rc_internal = send srv (decode zero_DatasetInternal get_internal),
      rc_internals = send srv (decode zero_object_list get_internals),
      rc_error = send srv snd,
      rc_watch = send srv watch_answer\<rparr>"

definition answer_object :: "fake_object \<times> api_error option \<Rightarrow> fake_object option \<times> api_error option" where
  "answer_object r = (case r of (obj, None) \<Rightarrow> (Some obj, None) | (_, Some err) \<Rightarrow> (None, Some err))"

definition fake_of :: "('w, 'o) server \<Rightarrow> ('o list_options \<Rightarrow> (smap \<Rightarrow> bool) option) \<Rightarrow> ('w, 'o, fake_object) fake" where
  "fake_of srv sel =
     \<lparr>fk_Invokes = (\<lambda>a default. do { ans \<leftarrow> srv (action_endpoint a); State_Monad.return (answer_object ans) }),
      fk_InvokesWatch = (\<lambda>a. do { ans \<leftarrow> srv (action_endpoint a); State_Monad.return (watch_answer ans) }),
      fk_selector = sel\<rparr>"

end
