(* ===== verification/Client_Properties.thy ===== *)
theory Client_Properties
  imports Client_Endpoints
begin

text \<open>
  The properties of the generated clients: on one server the fake client of the datasets behaves as the real one, the
  client of the internal datasets asks for a resource that is not registered, and the timeouts of the requests are exact
  within the range of a duration.
\<close>

section \<open>A server and its promises\<close>

text \<open>
  The resources that the definitions of the custom resources register (\<open>path\<close> markers of \<open>dataset_types.go\<close> and
  \<open>datasetinternal_types.go\<close>).
\<close>

definition registered_resources :: "string list" where
  "registered_resources = [''datasets'', internal_resource_path]"

text \<open>
  An answer without an error is of the type its endpoint asks for, a list holds what its options select, and a resource
  that is not registered is not found.
\<close>

locale dataset_server =
  fixes srv :: "('w, 'o) server" and sel :: "'o list_options \<Rightarrow> (smap \<Rightarrow> bool) option"
  assumes object_answer: "ep_resource e = ''datasets'' \<Longrightarrow> ep_verb e \<in> {GetVerb, CreateVerb, UpdateVerb} \<union> range PatchVerb \<Longrightarrow>
      fst (run_state (srv e) w) = (obj, None) \<Longrightarrow> \<exists>d. obj = FakeDataset d"
    and list_answer: "ep_resource e = ''datasets'' \<Longrightarrow> ep_verb e = ListVerb \<Longrightarrow> ep_payload e = SelectPayload l \<Longrightarrow>
      fst (run_state (srv e) w) = (obj, None) \<Longrightarrow>
      \<exists>ds. obj = FakeDatasetList ds \<and> (\<forall>p d. sel l = Some p \<longrightarrow> d \<in> set (ol_Items ds) \<longrightarrow> p (om_labels (ds_meta d)))"
    and unknown_resource: "ep_resource e \<notin> set registered_resources \<Longrightarrow>
      \<exists>obj. run_state (srv e) w = ((obj, Some (NotFound (ep_resource e))), w)"

text \<open>What the caller of the fake sees of a result of the real client.\<close>

definition observed :: "'a \<times> api_error option \<Rightarrow> ('a option \<times> api_error option) go_outcome" where
  "observed r = (case r of (a, None) \<Rightarrow> Returns (Some a, None) | (_, Some err) \<Rightarrow> Returns (None, Some err))"

lemmas client_op_defs = newDatasets_def newDatasetInternal_def client_of_def fake_of_def send_def
  datasets_Get_def datasets_List_def datasets_Watch_def datasets_Create_def datasets_Update_def datasets_Delete_def
  datasets_DeleteCollection_def datasets_Patch_def FakeDatasets_Get_def FakeDatasets_List_def FakeDatasets_Watch_def
  FakeDatasets_Create_def FakeDatasets_Update_def FakeDatasets_Delete_def FakeDatasets_DeleteCollection_def
  FakeDatasets_Patch_def internal_Get_def internal_List_def internal_Watch_def internal_Create_def

lemmas request_defs = endpoint_simps datasetsResource_def
  datasets_Get_request_def datasets_List_request_def datasets_Watch_request_def datasets_Create_request_def
  datasets_Update_request_def datasets_Delete_request_def datasets_DeleteCollection_request_def datasets_Patch_request_def
  internal_Get_request_def internal_List_request_def internal_Watch_request_def internal_Create_request_def

section \<open>The endpoints of the requests\<close>

lemma datasets_endpoints [client_simps]:
  "request_endpoint (datasets_Get_request ns name o1) = mk_endpoint GetVerb datasetsResource ns name [] NoPayload"
  "request_endpoint (datasets_Watch_request ns l) =
     mk_endpoint WatchVerb datasetsResource ns [] [] (SelectPayload (l\<lparr>lo_Watch := False\<rparr>))"
  "request_endpoint (datasets_Create_request ns d o1) =
     mk_endpoint CreateVerb datasetsResource ns [] [] (ObjectPayload (FakeDataset d))"
  "request_endpoint (datasets_Update_request ns d o1) =
     mk_endpoint UpdateVerb datasetsResource ns (om_name (ds_meta d)) [] (ObjectPayload (FakeDataset d))"
  "request_endpoint (datasets_Delete_request ns name o1) = mk_endpoint DeleteVerb datasetsResource ns name [] NoPayload"
  "request_endpoint (datasets_DeleteCollection_request ns o1 l) =
     mk_endpoint DeleteCollectionVerb datasetsResource ns [] [] (SelectPayload (l\<lparr>lo_Watch := False\<rparr>))"
  "request_endpoint (datasets_Patch_request ns name pt data o1 sub) =
     mk_endpoint (PatchVerb pt) datasetsResource ns name sub (BytesPayload data)"
  by (simp_all add: request_defs Let_def)

lemma datasets_list_endpoint [client_simps]:
  "\<not> lo_Watch l \<Longrightarrow> request_endpoint (datasets_List_request ns l) =
     mk_endpoint ListVerb datasetsResource ns [] [] (SelectPayload (l\<lparr>lo_Watch := False\<rparr>))"
  by (simp add: request_defs)

lemma internal_endpoints [client_simps]:
  "ep_resource (request_endpoint (internal_Get_request ns name o1)) = ''datasetinternal''"
  "ep_resource (request_endpoint (internal_List_request ns l)) = ''datasetinternal''"
  "ep_resource (request_endpoint (internal_Watch_request ns l)) = ''datasetinternal''"
  "ep_resource (request_endpoint (internal_Create_request ns d o1)) = ''datasetinternal''"
  by (simp_all add: request_defs Let_def)

lemma bind_bind_return:
  "do { r \<leftarrow> do { a \<leftarrow> m; State_Monad.return (f a) }; State_Monad.return (g r) } = do { a \<leftarrow> m; State_Monad.return (g (f a)) }"
  by simp

lemma select_all:
  assumes "\<And>p d. sel = Some p \<Longrightarrow> d \<in> set (ol_Items ds) \<Longrightarrow> p (labels_of d)"
  shows "select sel labels_of ds = ds"
proof -
  have "filter (\<lambda>d. case sel of None \<Rightarrow> True | Some p \<Rightarrow> p (labels_of d)) (ol_Items ds) = ol_Items ds"
    using assms by (auto intro!: filter_True split: option.splits)
  then show ?thesis by (cases sel) (simp_all add: select_def)
qed

lemma snd_answer_object [simp]: "snd (answer_object r) = snd r"
  by (simp add: answer_object_def split: prod.splits option.splits)

lemma mk_endpoint_sel [simp]:
  "ep_verb (mk_endpoint v gvr ns name sub p) = v" "ep_resource (mk_endpoint v gvr ns name sub p) = gvr_Resource gvr"
  "ep_payload (mk_endpoint v gvr ns name sub p) = p"
  by (simp_all add: mk_endpoint_def)

lemma datasets_resource [simp]: "gvr_Resource datasetsResource = ''datasets''"
  by (simp add: datasetsResource_def)

lemma not_watching [simp]: "\<not> lo_Watch l \<Longrightarrow> l\<lparr>lo_Watch := False\<rparr> = l"
  by (cases l) simp

lemma bind_return_cong:
  assumes "\<And>w. f (fst (run_state m w)) = g (fst (run_state m w))"
  shows "do { a \<leftarrow> m; State_Monad.return (f a) } = do { a \<leftarrow> m; State_Monad.return (g a) }"
  using assms by (intro state.expand ext) (auto simp: State_Monad.bind_def State_Monad.return_def split: prod.splits; metis fst_conv)

section \<open>The clients on such a server\<close>

context dataset_server
begin

text \<open>The four operations that answer one dataset.\<close>

lemma dataset_op:
  assumes "ep_resource e = ''datasets''" "ep_verb e \<in> {GetVerb, CreateVerb, UpdateVerb} \<union> range PatchVerb"
  shows "do { ans \<leftarrow> srv e; State_Monad.return (as_dataset (answer_object ans)) } =
    do { ans \<leftarrow> srv e; State_Monad.return (observed (decode zero_Dataset get_dataset ans)) }"
proof (rule bind_return_cong)
  fix w
  obtain obj err where r: "fst (run_state (srv e) w) = (obj, err)" by (cases "fst (run_state (srv e) w)")
  show "as_dataset (answer_object (fst (run_state (srv e) w))) =
    observed (decode zero_Dataset get_dataset (fst (run_state (srv e) w)))"
    using object_answer [OF assms, of w obj] r
    by (cases err; cases obj) (simp_all add: answer_object_def observed_def decode_def)
qed

text \<open>Filtering the items again by what the server selected them by changes nothing.\<close>

lemma list_op:
  assumes "ep_resource e = ''datasets''" "ep_verb e = ListVerb" "ep_payload e = SelectPayload l"
  shows "do { ans \<leftarrow> srv e; State_Monad.return
      (case answer_object ans of
         (None, err) \<Rightarrow> Returns (None, err)
       | (Some (FakeDatasetList ds), err) \<Rightarrow> Returns (Some (select (sel l) (\<lambda>d. om_labels (ds_meta d)) ds), err)
       | _ \<Rightarrow> Panic) } =
    do { ans \<leftarrow> srv e; State_Monad.return (observed (decode zero_object_list get_datasets ans)) }"
proof (rule bind_return_cong)
  fix w
  obtain obj err where r: "fst (run_state (srv e) w) = (obj, err)" by (cases "fst (run_state (srv e) w)")
  show "(case answer_object (fst (run_state (srv e) w)) of
         (None, err) \<Rightarrow> Returns (None, err)
       | (Some (FakeDatasetList ds), err) \<Rightarrow> Returns (Some (select (sel l) (\<lambda>d. om_labels (ds_meta d)) ds), err)
       | _ \<Rightarrow> Panic) = observed (decode zero_object_list get_datasets (fst (run_state (srv e) w)))"
  proof (cases err)
    case None
    then obtain ds where "obj = FakeDatasetList ds"
      and "\<And>p d. sel l = Some p \<Longrightarrow> d \<in> set (ol_Items ds) \<Longrightarrow> p (om_labels (ds_meta d))"
      using list_answer [OF assms, of w obj] r by auto
    moreover from this have "select (sel l) (\<lambda>d. om_labels (ds_meta d)) ds = ds"
      by (auto intro: select_all)
    ultimately show ?thesis using None r by (simp add: answer_object_def observed_def decode_def)
  qed (use r in \<open>simp add: answer_object_def observed_def decode_def\<close>)
qed

lemma fake_simulates:
  "FakeDatasets_Get (fake_of srv sel) ns name o1 =
     do { r \<leftarrow> datasets_Get (newDatasets (client_of srv) ns) name o2; State_Monad.return (observed r) }"
  "\<not> lo_Watch l \<Longrightarrow> FakeDatasets_List (fake_of srv sel) ns l =
     do { r \<leftarrow> datasets_List (newDatasets (client_of srv) ns) l; State_Monad.return (observed r) }"
  "FakeDatasets_Watch (fake_of srv sel) ns l = datasets_Watch (newDatasets (client_of srv) ns) l"
  "FakeDatasets_Create (fake_of srv sel) ns d o1 =
     do { r \<leftarrow> datasets_Create (newDatasets (client_of srv) ns) d o2; State_Monad.return (observed r) }"
  "FakeDatasets_Update (fake_of srv sel) ns d o1 =
     do { r \<leftarrow> datasets_Update (newDatasets (client_of srv) ns) d o2; State_Monad.return (observed r) }"
  "FakeDatasets_Delete (fake_of srv sel) ns name o1 = datasets_Delete (newDatasets (client_of srv) ns) name o2"
  "FakeDatasets_DeleteCollection (fake_of srv sel) ns o1 l =
     datasets_DeleteCollection (newDatasets (client_of srv) ns) o2 l"
  "FakeDatasets_Patch (fake_of srv sel) ns name pt data o1 sub =
     do { r \<leftarrow> datasets_Patch (newDatasets (client_of srv) ns) name pt data o2 sub; State_Monad.return (observed r) }"
  by (simp_all only: client_op_defs client_simps resource_client.simps rest_client.simps fake.simps action_endpoint.simps
        bind_bind_return object_name.simps not_watching snd_answer_object)
    (simp_all add: dataset_op list_op datasets_list_endpoint)

lemma unregistered_send:
  assumes "ep_resource (request_endpoint r) \<notin> set registered_resources"
  shows "run_state (send srv (decode zero get) r) w = ((zero, Some (NotFound (ep_resource (request_endpoint r)))), w)"
    and "run_state (send srv watch_answer r) w = (Inl (NotFound (ep_resource (request_endpoint r))), w)"
  using unknown_resource [OF assms, of w] by (auto simp: send_def decode_def watch_answer_def)

lemma internal_unregistered: "''datasetinternal'' \<notin> set registered_resources"
  by (simp add: registered_resources_def internal_resource_path_def)

lemma internal_lost:
  "run_state (internal_Get (newDatasetInternal (client_of srv) ns) name o1) w =
     ((zero_DatasetInternal, Some (NotFound ''datasetinternal'')), w)"
  "run_state (internal_List (newDatasetInternal (client_of srv) ns) l) w =
     ((zero_object_list, Some (NotFound ''datasetinternal'')), w)"
  "run_state (internal_Watch (newDatasetInternal (client_of srv) ns) l) w = (Inl (NotFound ''datasetinternal''), w)"
  "run_state (internal_Create (newDatasetInternal (client_of srv) ns) d o1) w =
     ((zero_DatasetInternal, Some (NotFound ''datasetinternal'')), w)"
  by (simp_all add: internal_Get_def internal_List_def internal_Watch_def internal_Create_def newDatasetInternal_def
      client_of_def unregistered_send internal_endpoints internal_unregistered)

end

section \<open>A server in memory\<close>

text \<open>
  It keeps the datasets of all namespaces in a list, the latest first, and serves no patches.  The options are pairs of a
  label and its wanted value.
\<close>

type_synonym label_options = "(string \<times> string) list"

definition label_selector :: "label_options list_options \<Rightarrow> (smap \<Rightarrow> bool) option" where
  "label_selector l =
     (if lo_other l = [] then None else Some (\<lambda>labels. \<forall>(k, v) \<in> set (lo_other l). mget labels k = v))"

definition at_key :: "string \<Rightarrow> string \<Rightarrow> Dataset \<Rightarrow> bool" where
  "at_key ns name d = (om_namespace (ds_meta d) = ns \<and> om_name (ds_meta d) = name)"

definition selected :: "label_options endpoint \<Rightarrow> Dataset \<Rightarrow> bool" where
  "selected e d = (om_namespace (ds_meta d) = ep_ns e \<and>
     (case ep_payload e of
        SelectPayload l \<Rightarrow> (case label_selector l of None \<Rightarrow> True | Some p \<Rightarrow> p (om_labels (ds_meta d)))
      | _ \<Rightarrow> True))"

definition mem_find :: "string \<Rightarrow> string \<Rightarrow> Dataset list \<Rightarrow> fake_object \<times> api_error option" where
  "mem_find ns name ds =
     (case find (at_key ns name) ds of Some d \<Rightarrow> (FakeDataset d, None) | None \<Rightarrow> (FakeDataset zero_Dataset, Some (NotFound name)))"

definition mem_answer :: "label_options endpoint \<Rightarrow> Dataset list \<Rightarrow> (fake_object \<times> api_error option) \<times> Dataset list" where
  "mem_answer e ds =
     (let found = (\<exists>d \<in> set ds. at_key (ep_ns e) (ep_name e) d);
          others = filter (\<lambda>d. \<not> at_key (ep_ns e) (ep_name e) d) ds;
          listed = FakeDatasetList (zero_object_list\<lparr>ol_Items := filter (selected e) ds\<rparr>) in
      case ep_verb e of
        GetVerb \<Rightarrow> (mem_find (ep_ns e) (ep_name e) ds, ds)
      | ListVerb \<Rightarrow> ((listed, None), ds)
      | WatchVerb \<Rightarrow> ((listed, None), ds)
      | CreateVerb \<Rightarrow>
          (case ep_payload e of
             ObjectPayload (FakeDataset d) \<Rightarrow>
               (if \<exists>d' \<in> set ds. at_key (ep_ns e) (om_name (ds_meta d)) d'
                then ((FakeDataset d, Some (AlreadyExists (om_name (ds_meta d)))), ds) else ((FakeDataset d, None), d # ds))
           | _ \<Rightarrow> ((FakeDataset zero_Dataset, Some (BadRequest ''body'')), ds))
      | UpdateVerb \<Rightarrow>
          (case ep_payload e of
             ObjectPayload (FakeDataset d) \<Rightarrow>
               (if found then ((FakeDataset d, None), d # others) else ((FakeDataset d, Some (NotFound (ep_name e))), ds))
           | _ \<Rightarrow> ((FakeDataset zero_Dataset, Some (BadRequest ''body'')), ds))
      | DeleteVerb \<Rightarrow> (mem_find (ep_ns e) (ep_name e) ds, others)
      | DeleteCollectionVerb \<Rightarrow> ((listed, None), filter (\<lambda>d. \<not> selected e d) ds)
      | PatchVerb _ \<Rightarrow> ((FakeDataset zero_Dataset, Some (BadRequest ''patch'')), ds))"

definition mem_datasets :: "(Dataset list, label_options) server" where
  "mem_datasets e = State (\<lambda>ds.
     if ep_resource e = ''datasets'' then mem_answer e ds
     else if ep_resource e = internal_resource_path then ((FakeInternal zero_DatasetInternal, Some (NotFound (ep_name e))), ds)
     else ((FakeDataset zero_Dataset, Some (NotFound (ep_resource e))), ds))"

lemma mem_find_typed: "mem_find ns name ds = (obj, None) \<Longrightarrow> \<exists>d. obj = FakeDataset d"
  by (auto simp: mem_find_def split: option.splits)

interpretation mem_server: dataset_server mem_datasets label_selector
proof
  fix e :: "label_options endpoint" and w obj
  assume "ep_resource e = ''datasets''" "fst (run_state (mem_datasets e) w) = (obj, None)"
    "ep_verb e \<in> {GetVerb, CreateVerb, UpdateVerb} \<union> range PatchVerb"
  then show "\<exists>d. obj = FakeDataset d"
    by (auto simp: mem_datasets_def mem_answer_def Let_def dest: mem_find_typed
        split: payload.splits fake_object.splits if_splits)
next
  fix e :: "label_options endpoint" and w obj l
  assume "ep_resource e = ''datasets''" "fst (run_state (mem_datasets e) w) = (obj, None)"
    "ep_verb e = ListVerb" "ep_payload e = SelectPayload l"
  then show "\<exists>ds. obj = FakeDatasetList ds \<and>
      (\<forall>p d. label_selector l = Some p \<longrightarrow> d \<in> set (ol_Items ds) \<longrightarrow> p (om_labels (ds_meta d)))"
    by (auto simp: mem_datasets_def mem_answer_def selected_def)
next
  fix e :: "label_options endpoint" and w
  assume "ep_resource e \<notin> set registered_resources"
  then show "\<exists>obj. run_state (mem_datasets e) w = ((obj, Some (NotFound (ep_resource e))), w)"
    by (simp add: mem_datasets_def registered_resources_def)
qed

section \<open>The properties\<close>


text \<open>The witness runs both clients on the server in memory: a labelled dataset is created and then listed by its label.\<close>

definition labelled_dataset :: Dataset where
  "labelled_dataset = zero_Dataset\<lparr>ds_meta := (ds_meta zero_Dataset)
     \<lparr>om_name := ''ex'', om_namespace := ''ns'', om_labels := [(''k'', ''v'')]\<rparr>\<rparr>"

definition label_options :: "label_options list_options" where
  "label_options = \<lparr>lo_Watch = False, lo_TimeoutSeconds = Some 5, lo_other = [(''k'', ''v'')]\<rparr>"


text \<open>
  C40. On a server that knows the registered resources only, every operation of the client of the internal datasets fails:
  it asks for \<open>datasetinternal\<close> where the definition of the resource registers \<open>datasetsinternal\<close>, gets NotFound for any
  name and any object, and leaves the server as it is.  The fake asks for a third name, \<open>datasetinternals\<close>.
\<close>

theorem internal_client_not_found:
  assumes "dataset_server srv sel"
  shows "run_state (internal_Get (newDatasetInternal (client_of srv) ns) name o1) w =
      ((zero_DatasetInternal, Some (NotFound ''datasetinternal'')), w) \<and>
    run_state (internal_List (newDatasetInternal (client_of srv) ns) l) w =
      ((zero_object_list, Some (NotFound ''datasetinternal'')), w) \<and>
    run_state (internal_Watch (newDatasetInternal (client_of srv) ns) l) w = (Inl (NotFound ''datasetinternal''), w) \<and>
    run_state (internal_Create (newDatasetInternal (client_of srv) ns) d o1) w =
      ((zero_DatasetInternal, Some (NotFound ''datasetinternal'')), w) \<and>
    gvr_Resource datasetinternalsResource \<notin> set registered_resources"
  by (intro conjI; (rule dataset_server.internal_lost [OF assms])?)
    (simp add: datasetinternalsResource_def registered_resources_def internal_resource_path_def)

theorem internal_client_not_found_witness:
  "snd (fst (run_state (internal_Create (newDatasetInternal (client_of mem_datasets) ''ns'') zero_DatasetInternal []) [])) =
     Some (NotFound ''datasetinternal'')"
  using internal_client_not_found [OF mem_server.dataset_server_axioms, where w = "[]" and d = zero_DatasetInternal and ns = "''ns''"]
  by simp

text \<open>
  The timeout that a list, a watch or the deletion of a collection puts into its request is the asked number of seconds
  in nanoseconds exactly when that number is at most 9223372036 either way; beyond, the 64-bit product wraps around.
\<close>

theorem timeout_exact:
  "list_all (\<lambda>r. Timeout (timeout_of l) \<in> set r)
     [datasets_List_request ns l, datasets_Watch_request ns l, datasets_DeleteCollection_request ns o1 l,
      internal_List_request ns l, internal_Watch_request ns l] \<and>
   (case lo_TimeoutSeconds l of
      None \<Rightarrow> timeout_of l = 0
    | Some s \<Rightarrow> sint (timeout_of l) = sint s * 1000000000 \<longleftrightarrow> \<bar>sint s\<bar> \<le> 9223372036)"
proof -
  have "sint (s * Second) = sint s * 1000000000 \<longleftrightarrow> \<bar>sint s\<bar> \<le> 9223372036" for s :: "64 word"
  proof -
    have "sint (s * Second) = signed_take_bit 63 (sint s * 1000000000)"
      by (simp add: Second_def sint_word_ariths)
    then show ?thesis by (simp add: signed_take_bit_int_eq_self_iff) linarith
  qed
  then show ?thesis
    by (simp add: timeout_of_def datasets_List_request_def datasets_Watch_request_def datasets_DeleteCollection_request_def
        internal_List_request_def internal_Watch_request_def Let_def split: option.splits)
qed

end
