(* ===== verification/Nfs_Driver.thy ===== *)
theory Nfs_Driver
  imports Csi_Api Os_Api Sha1
begin

text \<open>
  The NFS CSI driver (\<open>csi-driver-nfs/pkg/nfs\<close>): the node service, the stubs of the controller and identity services,
  the endpoint it listens on, and the properties of each.  Mounts and directories are requests to the host, a
  parameter; the proofs use its contracts \<open>host_mounts\<close> and \<open>mount_table\<close>.
\<close>

section \<open>The driver (\<open>nfs.go\<close>, \<open>utils.go\<close>)\<close>

record nfsDriver =
  nfs_name :: string
  nfs_nodeID :: string
  nfs_version :: string
  nfs_endpoint :: string
  nfs_cap :: "AccessMode list"
  nfs_cscap :: "ControllerRPC list"

definition nfs_driverName :: string where "nfs_driverName = ''csi-nfsplugin''"

definition AddVolumeCapabilityAccessModes :: "AccessMode list \<Rightarrow> nfsDriver \<Rightarrow> nfsDriver" where
  "AddVolumeCapabilityAccessModes vc n = n\<lparr>nfs_cap := vc\<rparr>"

definition AddControllerServiceCapabilities :: "ControllerRPC list \<Rightarrow> nfsDriver \<Rightarrow> nfsDriver" where
  "AddControllerServiceCapabilities cl n = n\<lparr>nfs_cscap := cl\<rparr>"

definition NewNFSdriver :: "string \<Rightarrow> string \<Rightarrow> nfsDriver" where
  "NewNFSdriver nodeID endpoint =
     (let n = \<lparr>nfs_name = nfs_driverName, nfs_nodeID = nodeID, nfs_version = ''1.0.0-rc2'', nfs_endpoint = endpoint,
        nfs_cap = [], nfs_cscap = []\<rparr> in
      AddControllerServiceCapabilities [RPC_UNKNOWN]
        (AddVolumeCapabilityAccessModes [MULTI_NODE_MULTI_WRITER] n))"

text \<open>\<open>strings.SplitN(s, sep, 2)\<close> for a separator that occurs: the parts around its first occurrence.\<close>

fun split_first :: "string \<Rightarrow> string \<Rightarrow> (string \<times> string) option" where
  "split_first sep [] = (if sep = [] then Some ([], []) else None)"
| "split_first sep (c # s) =
     (if HasPrefix (c # s) sep then Some ([], drop (length sep) (c # s))
      else map_option (\<lambda>(a, b). (c # a, b)) (split_first sep s))"

definition ParseEndpoint :: "string \<Rightarrow> string + string \<times> string" where
  "ParseEndpoint ep =
     (if HasPrefix (ToLower ep) ''unix://'' \<or> HasPrefix (ToLower ep) ''tcp://'' then
        case split_first ''://'' ep of
          Some (proto, addr) \<Rightarrow>
            if addr \<noteq> '''' then Inr (proto, addr) else Inl (''Invalid endpoint: '' @ ep)
        | None \<Rightarrow> Inl (''Invalid endpoint: '' @ ep)
      else Inl (''Invalid endpoint: '' @ ep))"

text \<open>The network and address that \<open>serve\<close> listens on (\<open>server.go\<close>).\<close>

definition serve_address :: "string \<Rightarrow> string + string \<times> string" where
  "serve_address endpoint =
     (case ParseEndpoint endpoint of
        Inl err \<Rightarrow> Inl err
      | Inr (proto, addr) \<Rightarrow> Inr (proto, if proto = ''unix'' then ''/'' @ addr else addr))"

section \<open>Identity and controller services\<close>

definition GetPluginInfo :: "nfsDriver \<Rightarrow> grpc_error + string \<times> string" where
  "GetPluginInfo d =
     (if nfs_name d = '''' then Inl (Status Unavailable ''Driver name not configured'')
      else if nfs_version d = '''' then Inl (Status Unavailable ''Driver is missing version'')
      else Inr (nfs_name d, nfs_version d))"

definition nfs_ControllerGetCapabilities :: "nfsDriver \<Rightarrow> ControllerRPC list" where
  "nfs_ControllerGetCapabilities d = nfs_cscap d"

text \<open>The methods of the controller service that answer \<open>Unimplemented\<close>.\<close>

datatype nfs_controller_call = Nfs_CreateVolume | Nfs_DeleteVolume | Nfs_ControllerPublishVolume
  | Nfs_ControllerUnpublishVolume | Nfs_ValidateVolumeCapabilities | Nfs_ListVolumes | Nfs_GetCapacity
  | Nfs_CreateSnapshot | Nfs_DeleteSnapshot | Nfs_ListSnapshots | Nfs_ControllerExpandVolume

definition nfs_controller :: "nfs_controller_call \<Rightarrow> grpc_error + unit" where
  "nfs_controller c = unimplemented ''''"

section \<open>The node service\<close>

text \<open>What a call does: it answers, or the process exits in \<open>log.Fatal\<close>.\<close>

datatype nfs_outcome = Answer "grpc_error option" | Exit string

definition nfs_internal :: "os_error \<Rightarrow> nfs_outcome" where
  "nfs_internal err = Answer (Some (Status Internal (error_text err)))"

definition mount_error :: "os_error \<Rightarrow> nfs_outcome" where
  "mount_error err =
     (if os_IsPermission err then Answer (Some (Status PermissionDenied (error_text err)))
      else if Contains (error_text err) ''invalid argument'' then
        Answer (Some (Status InvalidArgument (error_text err)))
      else nfs_internal err)"

definition mount_flags :: "NodePublishRequest \<Rightarrow> string list" where
  "mount_flags req =
     (case np_VolumeCapability req of None \<Rightarrow> [] | Some c \<Rightarrow> vc_MountFlags c) @
     (if np_Readonly req then [''ro''] else [])"

definition nfs_source :: "NodePublishRequest \<Rightarrow> string" where
  "nfs_source req = mget (np_VolumeContext req) ''server'' @ '':'' @ mget (np_VolumeContext req) ''share''"

definition nfs_mount_target :: "'w os_api \<Rightarrow> NodePublishRequest \<Rightarrow> string \<Rightarrow> ('w, nfs_outcome) state" where
  "nfs_mount_target os req source = do {
     e \<leftarrow> os_Mount os source (np_TargetPath req) ''nfs'' (mount_flags req);
     State_Monad.return (case e of Some err \<Rightarrow> mount_error err | None \<Rightarrow> Answer None)
   }"

text \<open>The part under \<open>createDirPVC\<close>: the directory of the volume is made in a temporary mount of the share.\<close>

definition create_dir :: "'w os_api \<Rightarrow> NodePublishRequest \<Rightarrow> string \<Rightarrow> ('w, nfs_outcome + string) state" where
  "create_dir os req source = do {
     t \<leftarrow> os_TempDir os;
     case t of
       Inl err \<Rightarrow> State_Monad.return (Inl (Exit (error_text err)))
     | Inr dir \<Rightarrow> do {
         e \<leftarrow> os_Mount os source dir ''nfs'' (mount_flags req);
         case e of
           Some err \<Rightarrow> State_Monad.return (Inl (mount_error err))
         | None \<Rightarrow> do {
             m \<leftarrow> os_MkdirAll os (path_Join [dir, np_VolumeId req]);
             case m of
               Some err \<Rightarrow> State_Monad.return (Inl (nfs_internal err))
             | None \<Rightarrow> do {
                 r \<leftarrow> os_IsLikelyNotMountPoint os dir;
                 case r of
                   Inl err \<Rightarrow> State_Monad.return (Inl
                     (if os_IsNotExist err then Answer (Some (Status NotFoundCode ''Targetpath not found''))
                      else nfs_internal err))
                 | Inr True \<Rightarrow> State_Monad.return (Inl (Answer (Some (Status NotFoundCode ''Volume not mounted''))))
                 | Inr False \<Rightarrow> do {
                     c \<leftarrow> os_CleanupMountPoint os dir;
                     State_Monad.return (case c of
                       Some err \<Rightarrow> Inl (nfs_internal err)
                     | None \<Rightarrow> Inr (path_Join [source, np_VolumeId req]))
                   }
               }
           }
       }
   }"

definition nfs_publish_fresh :: "'w os_api \<Rightarrow> NodePublishRequest \<Rightarrow> ('w, nfs_outcome) state" where
  "nfs_publish_fresh os req =
     (if parse_bool_or_false (mget (np_VolumeContext req) ''createDirPVC'') then do {
        r \<leftarrow> create_dir os req (nfs_source req);
        case r of Inl out \<Rightarrow> State_Monad.return out | Inr source \<Rightarrow> nfs_mount_target os req source
      }
      else nfs_mount_target os req (nfs_source req))"

definition nfs_NodePublishVolume :: "'w os_api \<Rightarrow> NodePublishRequest \<Rightarrow> ('w, nfs_outcome) state" where
  "nfs_NodePublishVolume os req = do {
     r \<leftarrow> os_IsLikelyNotMountPoint os (np_TargetPath req);
     case r of
       Inl err \<Rightarrow>
         if os_IsNotExist err then do {
           e \<leftarrow> os_MkdirAll os (np_TargetPath req);
           case e of Some err \<Rightarrow> State_Monad.return (nfs_internal err) | None \<Rightarrow> nfs_publish_fresh os req
         }
         else State_Monad.return (nfs_internal err)
     | Inr notMnt \<Rightarrow> if \<not> notMnt then State_Monad.return (Answer None) else nfs_publish_fresh os req
   }"

definition nfs_NodeUnpublishVolume :: "'w os_api \<Rightarrow> NodeUnpublishRequest \<Rightarrow> ('w, nfs_outcome) state" where
  "nfs_NodeUnpublishVolume os req = do {
     r \<leftarrow> os_IsLikelyNotMountPoint os (nu_TargetPath req);
     case r of
       Inl err \<Rightarrow> State_Monad.return
         (if os_IsNotExist err then Answer (Some (Status NotFoundCode ''Targetpath not found'')) else nfs_internal err)
     | Inr True \<Rightarrow> State_Monad.return (Answer (Some (Status NotFoundCode ''Volume not mounted'')))
     | Inr False \<Rightarrow> do {
         c \<leftarrow> os_CleanupMountPoint os (nu_TargetPath req);
         State_Monad.return (case c of Some err \<Rightarrow> nfs_internal err | None \<Rightarrow> Answer None)
       }
   }"

definition nfs_NodeGetInfo :: "nfsDriver \<Rightarrow> string" where "nfs_NodeGetInfo d = nfs_nodeID d"

definition nfs_NodeGetCapabilities :: "NodeRPC list" where "nfs_NodeGetCapabilities = [NODE_RPC_UNKNOWN]"

definition nfs_NodeGetVolumeStats :: "grpc_error + unit" where "nfs_NodeGetVolumeStats = unimplemented ''''"

definition nfs_NodeStageVolume :: "NodeStageRequest \<Rightarrow> nfs_outcome" where "nfs_NodeStageVolume req = Answer None"

definition nfs_NodeUnstageVolume :: "NodeUnstageRequest \<Rightarrow> nfs_outcome" where
  "nfs_NodeUnstageVolume req = Answer None"

definition nfs_NodeExpandVolume :: "grpc_error + unit" where "nfs_NodeExpandVolume = unimplemented ''''"

section \<open>Lemmas\<close>

lemma nfs_internal_answer [simp]: "nfs_internal err \<noteq> Answer None" "Answer None \<noteq> nfs_internal err"
  by (simp_all add: nfs_internal_def)

lemma mount_error_answer [simp]: "mount_error err \<noteq> Answer None" "Answer None \<noteq> mount_error err"
  by (simp_all add: mount_error_def)

lemma create_dir_fails: "run_state (create_dir os req source) w = (Inl out, w') \<Longrightarrow> out \<noteq> Answer None"
  by (auto simp: create_dir_def split: prod.splits sum.splits option.splits bool.splits if_splits)

text \<open>The first occurrence of a separator that cannot start earlier in the first part.\<close>

lemma split_first_some: "split_first sep s = Some (a, b) \<Longrightarrow> s = a @ sep @ b"
  by (induction s arbitrary: a) (auto simp: HasPrefix_iff split: if_splits)

lemma split_first_colon:
  "CHR '':'' \<notin> set a \<Longrightarrow> split_first ''://'' (a @ ''://'' @ b) = Some (a, b)"
  by (induction a) (auto simp: HasPrefix_iff)

lemma ToLower_append: "ToLower (a @ b) = ToLower a @ ToLower b"
  by (simp add: ToLower_def)

lemma lower_char_fixed:
  assumes "(of_char d :: nat) \<notin> {65..90}" and "(of_char d :: nat) \<notin> {97..122}"
  shows "lower_char c = d \<longleftrightarrow> c = d"
proof
  assume l: "lower_char c = d"
  show "c = d"
  proof (cases "65 \<le> (of_char c :: nat) \<and> of_char c \<le> (90 :: nat)")
    case True
    then have "(of_char d :: nat) = of_char c + 32" using l by (auto simp: lower_char_def Let_def)
    then show ?thesis using assms True by auto
  qed (use l in \<open>auto simp: lower_char_def Let_def\<close>)
qed (use assms in \<open>auto simp: lower_char_def Let_def\<close>)

lemma lower_colon: "lower_char c = CHR '':'' \<longleftrightarrow> c = CHR '':''" and lower_slash: "lower_char c = CHR ''/'' \<longleftrightarrow> c = CHR ''/''"
  by (rule lower_char_fixed; simp)+

lemma ToLower_separator: "ToLower s = ''://'' \<longleftrightarrow> s = ''://''"
  by (auto simp: ToLower_def lower_colon lower_slash map_eq_Cons_conv)

lemma ToLower_no_colon: "CHR '':'' \<notin> set (ToLower s) \<Longrightarrow> CHR '':'' \<notin> set s"
proof (erule contrapos_nn)
  assume "CHR '':'' \<in> set s"
  then have "lower_char (CHR '':'') \<in> set (ToLower s)" unfolding ToLower_def set_map by (rule imageI)
  then show "CHR '':'' \<in> set (ToLower s)" by (simp only: lower_colon [of "CHR '':''", simplified])
qed

lemma network_no_colon: "ToLower p = ''unix'' \<or> ToLower p = ''tcp'' \<Longrightarrow> CHR '':'' \<notin> set p"
  by (rule ToLower_no_colon) auto

text \<open>An endpoint with a lower-case prefix of a network splits after that network.\<close>

lemma ToLower_eq_append:
  assumes "ToLower s = x @ y"
  obtains a b where "s = a @ b" and "ToLower a = x" and "ToLower b = y"
proof
  show "s = take (length x) s @ drop (length x) s" by simp
  show "ToLower (take (length x) s) = x" using arg_cong [OF assms, of "take (length x)"] by (simp add: ToLower_def take_map)
  show "ToLower (drop (length x) s) = y" using arg_cong [OF assms, of "drop (length x)"] by (simp add: ToLower_def drop_map)
qed

lemma endpoint_prefix:
  assumes "HasPrefix (ToLower ep) (net @ ''://'')"
  obtains proto addr where "ep = proto @ ''://'' @ addr" and "ToLower proto = net"
proof -
  from assms obtain t where "ToLower ep = net @ (''://'' @ t)" unfolding HasPrefix_iff by auto
  then obtain proto rest where e: "ep = proto @ rest" "ToLower proto = net" "ToLower rest = ''://'' @ t"
    by (rule ToLower_eq_append)
  from e(3) obtain sep addr where s: "rest = sep @ addr" "ToLower sep = ''://''"
    by (rule ToLower_eq_append)
  show thesis by (rule that [OF _ e(2)]) (simp only: e(1) s(1) s(2) [unfolded ToLower_separator])
qed

text \<open>What a publication mounts: the share, or the directory of the volume in it.\<close>

definition nfs_volume_mount :: "NodePublishRequest \<Rightarrow> mount" where
  "nfs_volume_mount req =
     \<lparr>mnt_source = (if parse_bool_or_false (mget (np_VolumeContext req) ''createDirPVC'')
        then path_Join [nfs_source req, np_VolumeId req] else nfs_source req),
      mnt_fstype = ''nfs'', mnt_options = mount_flags req\<rparr>"

context mount_table
begin

lemma nfs_mount_target_ok:
  "run_state (nfs_mount_target os req source) w = (Answer None, w') \<Longrightarrow>
    table w' = (table w)(np_TargetPath req \<mapsto> \<lparr>mnt_source = source, mnt_fstype = ''nfs'', mnt_options = mount_flags req\<rparr>)"
  by (auto simp: nfs_mount_target_def split: prod.splits option.splits dest: mount_table_call)

text \<open>When the directory was made, the temporary mount is gone again.\<close>

lemma create_dir_ok:
  assumes "run_state (create_dir os req source) w = (Inr s, w')"
  shows "table w' = table w \<and> s = path_Join [source, np_VolumeId req]"
proof -
  obtain t w1 where t: "run_state (os_TempDir os) w = (t, w1)" by fastforce
  with assms obtain dir where dir: "t = Inr dir" by (cases t) (auto simp: create_dir_def)
  obtain e w2 where e: "run_state (os_Mount os source dir ''nfs'' (mount_flags req)) w1 = (e, w2)" by fastforce
  with assms t dir have "e = None" by (cases e) (auto simp: create_dir_def)
  obtain m w3 where m: "run_state (os_MkdirAll os (path_Join [dir, np_VolumeId req])) w2 = (m, w3)" by fastforce
  with assms t dir e \<open>e = None\<close> have "m = None" by (cases m) (auto simp: create_dir_def)
  obtain r w4 where r: "run_state (os_IsLikelyNotMountPoint os dir) w3 = (r, w4)" by fastforce
  with assms t dir e m \<open>e = None\<close> \<open>m = None\<close> have "r = Inr False"
    by (auto simp: create_dir_def split: sum.splits bool.splits)
  obtain c w5 where c: "run_state (os_CleanupMountPoint os dir) w4 = (c, w5)" by fastforce
  with assms t dir e m r \<open>e = None\<close> \<open>m = None\<close> \<open>r = Inr False\<close>
  have "c = None" and "w' = w5" and "s = path_Join [source, np_VolumeId req]"
    by (auto simp: create_dir_def split: option.splits)
  moreover have "(table w)(dir := None) = table w" using tempdir_table [OF t] dir by (simp add: fun_upd_idem)
  ultimately show ?thesis
    using tempdir_table [OF t] mount_table_call [OF e] \<open>e = None\<close> mkdirall_table [OF m] likely_table [OF r]
      cleanup_table_ok [of dir w4 w5] c by simp
qed

lemma nfs_publish_fresh_ok:
  "run_state (nfs_publish_fresh os req) w = (Answer None, w') \<Longrightarrow>
    table w' = (table w)(np_TargetPath req \<mapsto> nfs_volume_mount req)"
  by (auto simp: nfs_publish_fresh_def nfs_volume_mount_def split: prod.splits sum.splits if_splits
      dest!: nfs_mount_target_ok create_dir_ok dest: create_dir_fails)

lemma nfs_publish_ok:
  assumes "run_state (nfs_NodePublishVolume os req) w = (Answer None, w')"
  shows "table w' = (table w)(np_TargetPath req \<mapsto> nfs_volume_mount req) \<or>
    table w' = table w \<and> table w (np_TargetPath req) \<noteq> None"
proof -
  obtain r w1 where r: "run_state (os_IsLikelyNotMountPoint os (np_TargetPath req)) w = (r, w1)" by fastforce
  obtain e w2 where e: "run_state (os_MkdirAll os (np_TargetPath req)) w1 = (e, w2)" by fastforce
  consider "r = Inr False" "w' = w1" | "run_state (nfs_publish_fresh os req) w1 = (Answer None, w')"
    | "run_state (nfs_publish_fresh os req) w2 = (Answer None, w')"
    using assms r e by (cases r) (auto simp: nfs_NodePublishVolume_def split: if_splits option.splits)
  then show ?thesis
    using likely_table [OF r] mkdirall_table [OF e] by cases (auto dest: nfs_publish_fresh_ok)
qed

lemma nfs_unpublish_ok:
  "run_state (nfs_NodeUnpublishVolume os req) w = (Answer None, w') \<Longrightarrow>
    table w' = (table w)(nu_TargetPath req := None) \<and> table w (nu_TargetPath req) \<noteq> None"
  by (auto simp: nfs_NodeUnpublishVolume_def split: prod.splits sum.splits bool.splits option.splits if_splits
      dest!: likely_table cleanup_table_ok)

end

section \<open>Properties\<close>

text \<open>
  Endpoints round trip: reading an endpoint gives a network and an address exactly when the endpoint is
  their text around \<open>://\<close>, the network is \<open>unix\<close> or \<open>tcp\<close> in any case, and the address is not empty.
\<close>

theorem endpoint_roundtrip:
  "ParseEndpoint ep = Inr (proto, addr) \<longleftrightarrow>
   ep = proto @ ''://'' @ addr \<and> ToLower proto \<in> {''unix'', ''tcp''} \<and> addr \<noteq> ''''"
proof
  assume r: "ParseEndpoint ep = Inr (proto, addr)"
  then have "HasPrefix (ToLower ep) (''unix'' @ ''://'') \<or> HasPrefix (ToLower ep) (''tcp'' @ ''://'')"
    by (auto simp: ParseEndpoint_def split: if_splits)
  then consider "HasPrefix (ToLower ep) (''unix'' @ ''://'')" | "HasPrefix (ToLower ep) (''tcp'' @ ''://'')" by blast
  then obtain p a where ep: "ep = p @ ''://'' @ a" and p: "ToLower p = ''unix'' \<or> ToLower p = ''tcp''"
    by cases (erule endpoint_prefix; blast)+
  from network_no_colon [OF p] have "split_first ''://'' ep = Some (p, a)" unfolding ep by (rule split_first_colon)
  then show "ep = proto @ ''://'' @ addr \<and> ToLower proto \<in> {''unix'', ''tcp''} \<and> addr \<noteq> ''''"
    using r ep p by (auto simp: ParseEndpoint_def split: if_splits)
next
  assume l: "ep = proto @ ''://'' @ addr \<and> ToLower proto \<in> {''unix'', ''tcp''} \<and> addr \<noteq> ''''"
  have sep: "ToLower ''://'' = ''://''" by (simp add: ToLower_separator)
  have low: "ToLower ep = (ToLower proto @ ''://'') @ ToLower addr" using l by (simp only: ToLower_append sep append_assoc)
  have "CHR '':'' \<notin> set proto" using l by (intro network_no_colon) blast
  then have "split_first ''://'' ep = Some (proto, addr)" using l split_first_colon by metis
  moreover have "HasPrefix (ToLower ep) ''unix://'' \<or> HasPrefix (ToLower ep) ''tcp://''"
    unfolding low using l by (auto simp: HasPrefix_iff)
  ultimately show "ParseEndpoint ep = Inr (proto, addr)" using l by (simp add: ParseEndpoint_def)
qed

text \<open>
  C24. After a publication without an error the target has been added to the mount table, with the share, or the
  directory of the volume in it, as its source and the flags of the request, also when the directory was made in a
  temporary mount; only a target that is mounted already stays as it is.  After an unpublication without an
  error exactly the target, which was mounted, is gone.
\<close>

theorem nfs_mounts_exact:
  assumes "mount_table os table"
  shows "(run_state (nfs_NodePublishVolume os preq) w = (Answer None, w') \<longrightarrow>
      table w' = (table w)(np_TargetPath preq \<mapsto> nfs_volume_mount preq) \<or>
      table w' = table w \<and> table w (np_TargetPath preq) \<noteq> None) \<and>
    (run_state (nfs_NodeUnpublishVolume os ureq) w = (Answer None, w') \<longrightarrow>
      table w' = (table w)(nu_TargetPath ureq := None) \<and> table w (nu_TargetPath ureq) \<noteq> None)"
  using mount_table.nfs_publish_ok [OF assms] mount_table.nfs_unpublish_ok [OF assms] by blast

definition nfs_example :: NodePublishRequest where
  "nfs_example = \<lparr>np_VolumeId = ''pvc-1'', np_TargetPath = ''/pods/1'', np_StagingTargetPath = '''',
     np_VolumeCapability = None, np_Readonly = True,
     np_VolumeContext = [(''server'', ''nas''), (''share'', ''/data''), (''createDirPVC'', ''true'')],
     np_Secrets = []\<rparr>"

theorem nfs_mounts_exact_witness:
  "let run = run_state (nfs_NodePublishVolume (mem_os (\<lambda>_ _. None)) nfs_example) idle_host in
   fst run = Answer None \<and> mh_table (snd run) =
     [''/pods/1'' \<mapsto> \<lparr>mnt_source = ''nas:/data/pvc-1'', mnt_fstype = ''nfs'', mnt_options = [''ro'']\<rparr>]"
proof -
  let ?m = "nfs_NodePublishVolume (mem_os (\<lambda>_ _. None)) nfs_example"
  have ok: "fst (run_state ?m idle_host) = Answer None" by code_simp
  then have run: "run_state ?m idle_host = (Answer None, snd (run_state ?m idle_host))" by (simp add: prod_eq_iff)
  have "np_TargetPath nfs_example = ''/pods/1''" "mh_table idle_host = Map.empty"
    by (simp_all add: nfs_example_def idle_host_def)
  moreover have "nfs_volume_mount nfs_example =
      \<lparr>mnt_source = ''nas:/data/pvc-1'', mnt_fstype = ''nfs'', mnt_options = [''ro'']\<rparr>"
    by code_simp
  ultimately show ?thesis
    using nfs_mounts_exact [OF mem_mounts.mount_table_axioms, THEN conjunct1, rule_format, OF run] ok
    by (simp add: Let_def)
qed

text \<open>
  When the directory of the volume cannot be made, the request fails with the share still mounted at the
  temporary directory: nothing unmounts it, and the next attempt mounts it once more elsewhere.
\<close>

theorem nfs_temporary_mount_leaks:
  assumes "host_mounts os mounts"
    and "parse_bool_or_false (mget (np_VolumeContext req) ''createDirPVC'')"
    and "run_state (os_IsLikelyNotMountPoint os (np_TargetPath req)) w = (Inr True, w1)"
    and "run_state (os_TempDir os) w1 = (Inr dir, w2)"
    and "run_state (os_Mount os (nfs_source req) dir ''nfs'' (mount_flags req)) w2 = (None, w3)"
    and "run_state (os_MkdirAll os (path_Join [dir, np_VolumeId req])) w3 = (Some err, w4)"
  shows "run_state (nfs_NodePublishVolume os req) w = (Answer (Some (Status Internal (error_text err))), w4) \<and>
    mounts w4 = insert dir (mounts w) \<and> dir \<notin> mounts w"
proof -
  have "mounts w4 = insert dir (mounts w)" "dir \<notin> mounts w"
    using host_mounts.likely [OF assms(1,3)] host_mounts.tempdir [OF assms(1,4)]
      host_mounts.mount_call [OF assms(1,5)] host_mounts.mkdirall [OF assms(1,6)] by auto
  moreover have "run_state (nfs_NodePublishVolume os req) w = (Answer (Some (Status Internal (error_text err))), w4)"
    using assms(2-) by (simp add: nfs_NodePublishVolume_def nfs_publish_fresh_def create_dir_def nfs_internal_def)
  ultimately show ?thesis by blast
qed

definition share_mount :: mount where
  "share_mount = \<lparr>mnt_source = ''nas:/data'', mnt_fstype = ''nfs'', mnt_options = [''ro'']\<rparr>"

definition full_host :: mem_host where
  "full_host = idle_host\<lparr>mh_faults := [None, None, Some (ErrOther ''read-only file system'')]\<rparr>"

theorem nfs_temporary_mount_leaks_witness:
  "run_state (nfs_NodePublishVolume (mem_os (\<lambda>_ _. None)) nfs_example) full_host =
     (Answer (Some (Status Internal ''read-only file system'')), idle_host\<lparr>mh_table := [''/tmp/0'' \<mapsto> share_mount]\<rparr>)"
proof -
  let ?os = "mem_os (\<lambda>_ _. None)"
  let ?w1 = "idle_host\<lparr>mh_faults := [None, Some (ErrOther ''read-only file system'')]\<rparr>"
  let ?w3 = "idle_host\<lparr>mh_table := [''/tmp/0'' \<mapsto> share_mount], mh_faults := [Some (ErrOther ''read-only file system'')]\<rparr>"
  have p: "parse_bool_or_false (mget (np_VolumeContext nfs_example) ''createDirPVC'')"
    by (simp add: nfs_example_def parse_bool_or_false_def ParseBool_def)
  have a: "run_state (os_IsLikelyNotMountPoint ?os (np_TargetPath nfs_example)) full_host = (Inr True, ?w1)"
    by (simp add: mem_os_def host_request_def full_host_def idle_host_def)
  have mounted: "\<lparr>mnt_source = nfs_source nfs_example, mnt_fstype = ''nfs'', mnt_options = mount_flags nfs_example\<rparr> = share_mount"
    by code_simp
  have b: "run_state (os_TempDir ?os) ?w1 = (Inr ''/tmp/0'', ?w1)"
    by (simp add: mem_os_def idle_host_def)
  have c: "run_state (os_Mount ?os (nfs_source nfs_example) ''/tmp/0'' ''nfs'' (mount_flags nfs_example)) ?w1 = (None, ?w3)"
    by (simp add: mem_os_def host_request_def host_effect_def idle_host_def mounted)
  have d: "run_state (os_MkdirAll ?os (path_Join [''/tmp/0'', np_VolumeId nfs_example])) ?w3 =
       (Some (ErrOther ''read-only file system''), idle_host\<lparr>mh_table := [''/tmp/0'' \<mapsto> share_mount]\<rparr>)"
    by (simp add: mem_os_def host_request_def host_effect_def idle_host_def)
  show ?thesis
    using nfs_temporary_mount_leaks [OF mem_mounts.host_mounts_axioms p a b c d] by simp
qed

end
