(* ===== verification/Grpc_Server.thy ===== *)
theory Grpc_Server
  imports Nfs_Driver
begin

text \<open>
  The gRPC server of the NFS driver (\<open>pkg/nfs/server.go\<close>) and the identity service on it, as a step relation: the callers
  of \<open>Start\<close>, \<open>Stop\<close> and \<open>ForceStop\<close> interleave with the goroutines that \<open>Start\<close> spawns, each between two calls of
  \<open>serve\<close> that other threads can see.  The outcomes of removing the socket, of listening and of accepting are open.
\<close>

section \<open>State\<close>

text \<open>
  What a goroutine of \<open>serve\<close> is about to do: parse its endpoint, listen at an address, make its server, or accept at the
  server with a number.  Servers are numbered in the order in which they are made.
\<close>

datatype serve_pc = Parsing string | Listening string string | Creating | Accepting nat | Finished

record grpc_state =
  gs_wg :: nat
  gs_server :: "nat option"
  gs_stopped :: "bool list"
  gs_serving :: "serve_pc list"

datatype grpc_process = Alive grpc_state | FatalExit | NilPanic

definition NewNonBlockingGRPCServer :: grpc_state where
  "NewNonBlockingGRPCServer = \<lparr>gs_wg = 0, gs_server = None, gs_stopped = [], gs_serving = []\<rparr>"

section \<open>Operations\<close>

text \<open>\<open>s.wg.Add(1); go s.serve(endpoint, ...)\<close>.\<close>

definition grpc_Start :: "string \<Rightarrow> grpc_state \<Rightarrow> grpc_state" where
  "grpc_Start endpoint s = s\<lparr>gs_wg := gs_wg s + 1, gs_serving := gs_serving s @ [Parsing endpoint]\<rparr>"

text \<open>\<open>s.wg.Wait()\<close> returns when the counter is 0.\<close>

definition grpc_Wait_returns :: "grpc_state \<Rightarrow> bool" where
  "grpc_Wait_returns s = (gs_wg s = 0)"

text \<open>\<open>s.server.GracefulStop()\<close> and \<open>s.server.Stop()\<close>: the server is nil before \<open>serve\<close> has made it.\<close>

definition grpc_Stop :: "grpc_state \<Rightarrow> grpc_process" where
  "grpc_Stop s = (case gs_server s of None \<Rightarrow> NilPanic | Some k \<Rightarrow> Alive (s\<lparr>gs_stopped := (gs_stopped s)[k := True]\<rparr>))"

definition grpc_ForceStop :: "grpc_state \<Rightarrow> grpc_process" where
  "grpc_ForceStop s = (case gs_server s of None \<Rightarrow> NilPanic | Some k \<Rightarrow> Alive (s\<lparr>gs_stopped := (gs_stopped s)[k := True]\<rparr>))"

text \<open>The steps of \<open>serve\<close>.  The socket of a Unix address is removed before listening; its absence is no failure.\<close>

definition serve_parse :: "bool \<Rightarrow> string \<Rightarrow> serve_pc option" where
  "serve_parse removed endpoint =
     (case serve_address endpoint of
        Inl err \<Rightarrow> None
      | Inr (proto, addr) \<Rightarrow> if proto = ''unix'' \<and> \<not> removed then None else Some (Listening proto addr))"

definition serve_create :: "nat \<Rightarrow> grpc_state \<Rightarrow> grpc_state" where
  "serve_create i s = s\<lparr>gs_stopped := gs_stopped s @ [False], gs_server := Some (length (gs_stopped s)),
     gs_serving := (gs_serving s)[i := Accepting (length (gs_stopped s))]\<rparr>"

definition goto :: "nat \<Rightarrow> serve_pc \<Rightarrow> grpc_state \<Rightarrow> grpc_state" where
  "goto i pc s = s\<lparr>gs_serving := (gs_serving s)[i := pc]\<rparr>"

inductive grpc_step :: "grpc_process \<Rightarrow> grpc_process \<Rightarrow> bool" where
  start: "grpc_step (Alive s) (Alive (grpc_Start endpoint s))"
| stop: "grpc_step (Alive s) (grpc_Stop s)"
| force_stop: "grpc_step (Alive s) (grpc_ForceStop s)"
| parse: "i < length (gs_serving s) \<Longrightarrow> gs_serving s ! i = Parsing endpoint \<Longrightarrow>
    grpc_step (Alive s) (case serve_parse removed endpoint of Some pc \<Rightarrow> Alive (goto i pc s) | None \<Rightarrow> FatalExit)"
| listen: "i < length (gs_serving s) \<Longrightarrow> gs_serving s ! i = Listening proto addr \<Longrightarrow>
    grpc_step (Alive s) (if listened then Alive (goto i Creating s) else FatalExit)"
| create: "i < length (gs_serving s) \<Longrightarrow> gs_serving s ! i = Creating \<Longrightarrow> grpc_step (Alive s) (Alive (serve_create i s))"
| return: "i < length (gs_serving s) \<Longrightarrow> gs_serving s ! i = Accepting k \<Longrightarrow> gs_stopped s ! k \<or> accept_failed \<Longrightarrow>
    grpc_step (Alive s) (Alive (goto i Finished s))"

inductive_cases grpc_step_cases: "grpc_step p q"
inductive_simps grpc_step_simps: "grpc_step FatalExit q" "grpc_step NilPanic q"

section \<open>The driver on it (\<open>nfs.go\<close>, \<open>indentityserver.go\<close>, \<open>utils.go\<close>)\<close>

text \<open>\<open>Run\<close> starts one server at the endpoint of the driver and then waits: its state when it waits.\<close>

definition nfs_Run_start :: "nfsDriver \<Rightarrow> grpc_state" where
  "nfs_Run_start n = grpc_Start (nfs_endpoint n) NewNonBlockingGRPCServer"

datatype plugin_capability = CONTROLLER_SERVICE | VOLUME_ACCESSIBILITY_CONSTRAINTS

definition nfs_Probe :: "grpc_error + unit" where "nfs_Probe = Inr ()"

definition nfs_GetPluginCapabilities :: "grpc_error + plugin_capability list" where
  "nfs_GetPluginCapabilities = Inr [CONTROLLER_SERVICE]"

text \<open>\<open>logGRPC\<close> hands the request to the handler and its answer back.\<close>

definition logGRPC :: "('q \<Rightarrow> ('w, 'e + 'r) state) \<Rightarrow> 'q \<Rightarrow> ('w, 'e + 'r) state" where
  "logGRPC handler req = do { r \<leftarrow> handler req; State_Monad.return r }"

section \<open>Invariants\<close>

text \<open>
  Every goroutine counts once, whatever it has done; the server the receiver holds is one that was made, and every server
  a goroutine accepts at was made.
\<close>

definition grpc_inv :: "grpc_state \<Rightarrow> bool" where
  "grpc_inv s \<longleftrightarrow> gs_wg s = length (gs_serving s) \<and>
     gs_server s = (if gs_stopped s = [] then None else Some (length (gs_stopped s) - 1)) \<and>
     (\<forall>k. Accepting k \<in> set (gs_serving s) \<longrightarrow> k < length (gs_stopped s))"

fun alive_inv :: "grpc_process \<Rightarrow> bool" where
  "alive_inv (Alive s) = grpc_inv s"
| "alive_inv _ = True"

lemma grpc_inv_init: "grpc_inv NewNonBlockingGRPCServer"
  by (simp add: grpc_inv_def NewNonBlockingGRPCServer_def)

lemma grpc_inv_Start: "grpc_inv s \<Longrightarrow> grpc_inv (grpc_Start endpoint s)"
  by (auto simp: grpc_inv_def grpc_Start_def)

lemma grpc_inv_Stop: "grpc_inv s \<Longrightarrow> alive_inv (grpc_Stop s)" "grpc_inv s \<Longrightarrow> alive_inv (grpc_ForceStop s)"
  by (auto simp: grpc_inv_def grpc_Stop_def grpc_ForceStop_def split: option.splits)

lemma set_update: "x \<in> set (xs[i := y]) \<Longrightarrow> x = y \<or> x \<in> set xs"
  using set_update_subset_insert [of xs i y] by auto

lemma grpc_inv_goto: "grpc_inv s \<Longrightarrow> \<forall>k. pc \<noteq> Accepting k \<Longrightarrow> grpc_inv (goto i pc s)"
  by (auto simp: grpc_inv_def goto_def dest: set_update)

lemma grpc_inv_create: "grpc_inv s \<Longrightarrow> grpc_inv (serve_create i s)"
  by (auto simp: grpc_inv_def serve_create_def less_SucI dest!: set_update)

lemma serve_parse_pc: "serve_parse removed endpoint = Some pc \<Longrightarrow> pc \<noteq> Accepting k"
  by (auto simp: serve_parse_def split: sum.splits prod.splits if_splits)

lemma grpc_step_inv: "grpc_step p q \<Longrightarrow> alive_inv p \<Longrightarrow> alive_inv q"
  by (induction rule: grpc_step.induct)
    (auto simp: grpc_inv_Start grpc_inv_Stop grpc_inv_create grpc_inv_goto dest: serve_parse_pc split: option.splits
      intro!: grpc_inv_goto)

text \<open>Nothing takes a goroutine back out of the list, and a process that has ended stays ended.\<close>

lemma grpc_step_spawned: "grpc_step (Alive s) (Alive t) \<Longrightarrow> length (gs_serving s) \<le> length (gs_serving t)"
  by (erule grpc_step_cases)
    (auto simp: grpc_Start_def grpc_Stop_def grpc_ForceStop_def goto_def serve_create_def split: option.splits if_splits)

lemma grpc_step_from: "grpc_step p (Alive t) \<Longrightarrow> \<exists>s. p = Alive s"
  by (cases p) (auto simp: grpc_step_simps)

lemma grpc_reach_inv: "grpc_step\<^sup>*\<^sup>* p q \<Longrightarrow> alive_inv p \<Longrightarrow> alive_inv q"
  by (induction rule: rtranclp_induct) (auto intro: grpc_step_inv)

lemma grpc_reach_spawned:
  assumes "grpc_step\<^sup>*\<^sup>* (Alive s) q"
  shows "q = Alive t \<Longrightarrow> length (gs_serving s) \<le> length (gs_serving t)"
  using assms
proof (induction arbitrary: t rule: rtranclp_induct)
  case (step p q)
  then obtain u where "p = Alive u" using grpc_step_from by blast
  then show ?case using step grpc_step_spawned by fastforce
qed simp

section \<open>The properties\<close>

text \<open>
  C34. Once the driver runs its server, \<open>Wait\<close> never returns, whatever the goroutines and the callers of \<open>Start\<close> and \<open>Stop\<close> do:
  each \<open>Start\<close> adds to the group of waiters and nothing takes from it, so that the counter is the number of goroutines
  ever started, also when all of them have finished.  A \<open>Stop\<close> panics exactly as long as no goroutine has made a server.
\<close>

theorem grpc_wait_never_returns:
  assumes "grpc_step\<^sup>*\<^sup>* (Alive (nfs_Run_start n)) (Alive s)"
  shows "gs_wg s = length (gs_serving s) \<and> \<not> grpc_Wait_returns s \<and> (grpc_Stop s = NilPanic \<longleftrightarrow> gs_stopped s = [])"
proof -
  have "alive_inv (Alive (nfs_Run_start n))"
    by (simp add: nfs_Run_start_def grpc_inv_Start grpc_inv_init)
  then have "grpc_inv s" using grpc_reach_inv [OF assms] by simp
  moreover have "1 \<le> length (gs_serving s)"
    using grpc_reach_spawned [OF assms refl] by (simp add: nfs_Run_start_def grpc_Start_def)
  ultimately show ?thesis
    by (auto simp: grpc_inv_def grpc_Wait_returns_def grpc_Stop_def)
qed

text \<open>The witness: the driver listens, is stopped, and its only goroutine finishes.\<close>

definition stopped_server :: grpc_state where
  "stopped_server = \<lparr>gs_wg = 1, gs_server = Some 0, gs_stopped = [True], gs_serving = [Finished]\<rparr>"

lemma stopped_server_reachable:
  "grpc_step\<^sup>*\<^sup>* (Alive (nfs_Run_start (NewNFSdriver ''node'' ''tcp://:80''))) (Alive stopped_server)"
proof -
  define at where "at pc = \<lparr>gs_wg = 1, gs_server = None, gs_stopped = [], gs_serving = [pc]\<rparr>" for pc
  define on where "on b pc = \<lparr>gs_wg = 1, gs_server = Some 0, gs_stopped = [b], gs_serving = [pc]\<rparr>" for b pc
  have "serve_parse True ''tcp://:80'' = Some (Listening ''tcp'' '':80'')" by code_simp
  then have steps: "grpc_step (Alive (at (Parsing ''tcp://:80''))) (Alive (at (Listening ''tcp'' '':80'')))"
    "grpc_step (Alive (at (Listening ''tcp'' '':80''))) (Alive (at Creating))"
    "grpc_step (Alive (at Creating)) (Alive (on False (Accepting 0)))"
    "grpc_step (Alive (on False (Accepting 0))) (Alive (on True (Accepting 0)))"
    "grpc_step (Alive (on True (Accepting 0))) (Alive stopped_server)"
    using parse [of 0 "at (Parsing ''tcp://:80'')" _ True] listen [of 0 "at (Listening ''tcp'' '':80'')" _ _ True]
      create [of 0 "at Creating"] stop [of "on False (Accepting 0)"] return [of 0 "on True (Accepting 0)" 0]
    by (simp_all add: at_def on_def stopped_server_def goto_def serve_create_def grpc_Stop_def)
  have "nfs_Run_start (NewNFSdriver ''node'' ''tcp://:80'') = at (Parsing ''tcp://:80'')"
    unfolding at_def by code_simp
  then show ?thesis
    by (simp only: converse_rtranclp_into_rtranclp [where r = grpc_step, OF steps(1)]
      converse_rtranclp_into_rtranclp [where r = grpc_step, OF steps(2)]
      converse_rtranclp_into_rtranclp [where r = grpc_step, OF steps(3)]
      converse_rtranclp_into_rtranclp [where r = grpc_step, OF steps(4)] r_into_rtranclp [where r = grpc_step, OF steps(5)])
qed

theorem grpc_wait_never_returns_witness: "\<not> grpc_Wait_returns stopped_server \<and> grpc_Stop stopped_server \<noteq> NilPanic"
  using grpc_wait_never_returns [OF stopped_server_reachable] by (simp add: stopped_server_def)

end
