(* ===== verification/Startup.thy ===== *)
theory Startup
  imports Nfs_Driver S3_Driver K8s_Api
begin

text \<open>
  The programs of the repository: \<open>main\<close> of the operator (\<open>dataset-operator/main.go\<close>), of the Ceph plugin
  (\<open>ceph-cache-plugin/cmd/manager/main.go\<close>, \<open>pkg/controller\<close>) and of the two CSI drivers.  Each is the sequence of the
  calls it makes to libraries; what a call answers is a parameter (a nil error is \<open>None\<close>).  A program ends with the
  status of \<open>os.Exit\<close>, or returns from \<open>main\<close> (\<open>None\<close>).  Log output and the parsing of flags are left out.
\<close>

named_theorems startup_simps \<open>runs of a program on a scripted host\<close>

text \<open>\<open>if err := m; err != nil { ...; os.Exit(1) }\<close>, and then the rest.\<close>

definition or_exit :: "('w, string option) state \<Rightarrow> ('w, int option) state \<Rightarrow> ('w, int option) state" where
  "or_exit m rest = do {
     err \<leftarrow> m;
     (case err of Some _ \<Rightarrow> State_Monad.return (Some 1) | None \<Rightarrow> rest)
   }"

section \<open>The operator\<close>

record operator_flags =
  of_metricsAddr :: string
  of_probeAddr :: string
  of_enableLeaderElection :: bool

definition default_operator_flags :: operator_flags where
  "default_operator_flags = \<lparr>of_metricsAddr = '':8080'', of_probeAddr = '':8081'', of_enableLeaderElection = False\<rparr>"

record manager_options =
  mo_HealthProbeBindAddress :: string
  mo_LeaderElection :: bool
  mo_LeaderElectionID :: string

datatype operator_call = NewManager manager_options | NewClientset | CompleteController kind | AddHealthzCheck string
  | AddReadyzCheck string | RegisterWebhook string | StartManager

text \<open>\<open>perform\<close> makes a call of a library that answers an error or nil; \<open>Register\<close> answers nothing.\<close>

record 'w operator_host =
  oh_perform :: "operator_call \<Rightarrow> ('w, string option) state"
  oh_Register :: "string \<Rightarrow> ('w, unit) state"

definition dataset_SetupWithManager :: "'w operator_host \<Rightarrow> ('w, string option) state" where
  "dataset_SetupWithManager h = oh_perform h (CompleteController KDataset)"

definition internal_SetupWithManager :: "'w operator_host \<Rightarrow> ('w, string option) state" where
  "internal_SetupWithManager h = oh_perform h (CompleteController KDatasetInternal)"

definition operator_main :: "'w operator_host \<Rightarrow> operator_flags \<Rightarrow> ('w, int option) state" where
  "operator_main h flags =
     or_exit (oh_perform h (NewManager
       \<lparr>mo_HealthProbeBindAddress = of_probeAddr flags, mo_LeaderElection = of_enableLeaderElection flags,
        mo_LeaderElectionID = ''9889c07a.datashim.io''\<rparr>))
     (or_exit (oh_perform h NewClientset)
     (or_exit (dataset_SetupWithManager h)
     (or_exit (internal_SetupWithManager h)
     (or_exit (oh_perform h (AddHealthzCheck ''healthz''))
     (or_exit (oh_perform h (AddReadyzCheck ''readyz''))
     (do {
        _ \<leftarrow> oh_Register h ''/mutate-v1-pod'';
        or_exit (oh_perform h StartManager) (State_Monad.return None)
      }))))))"

text \<open>\<open>getWatchNamespace\<close>, on the environment; the second result of \<open>LookupEnv\<close> says that the variable is set.\<close>

definition getWatchNamespace :: "(string \<rightharpoonup> string) \<Rightarrow> string + string" where
  "getWatchNamespace env =
     (let (ns, hasErr) = (case env ''WATCH_NAMESPACE'' of Some v \<Rightarrow> (v, True) | None \<Rightarrow> ('''', False)) in
      if hasErr then Inl ''could not get the watch namespace'' else Inr ns)"

section \<open>The Ceph plugin\<close>

record ceph_manager_options =
  cmo_Namespace :: string
  cmo_NewCache :: "string list option"
  cmo_MetricsBindAddress :: string

datatype ceph_call = GetConfig | BecomeLeader string | NewCephManager ceph_manager_options | AddToScheme string
  | NewController string | WatchKind string string | StartCephManager
  | GenerateAndServeCRMetrics "string list" string string int
  | CreateServiceMonitors string "string option list"

datatype operator_namespace_error = ErrRunLocal | ErrNamespace string

record ServicePort =
  sp_Port :: int
  sp_Name :: string

text \<open>
  The calls that answer more than an error: the namespace to watch, the namespace of the operator, the kinds of the
  scheme, the namespaces for metrics, and the metrics service (its name, or nil beside an error);
  and the two names of ports that the package \<open>metrics\<close> declares.
\<close>

record 'w ceph_host =
  ch_perform :: "ceph_call \<Rightarrow> ('w, string option) state"
  ch_GetWatchNamespace :: "('w, string + string) state"
  ch_GetOperatorNamespace :: "('w, operator_namespace_error + string) state"
  ch_GetGVKsFromAddToScheme :: "('w, string + string) state"
  ch_GetNamespacesForMetrics :: "string \<Rightarrow> ('w, string + string list) state"
  ch_OperatorPortName :: string
  ch_CRPortName :: string
  ch_CreateMetricsService :: "ServicePort list \<Rightarrow> ('w, string option \<times> string option) state"

definition metricsHost :: string where "metricsHost = ''0.0.0.0''"
definition metricsPort :: int where "metricsPort = 8383"
definition operatorMetricsPort :: int where "operatorMetricsPort = 8686"

definition serveCRMetrics :: "'w ceph_host \<Rightarrow> string \<Rightarrow> ('w, string option) state" where
  "serveCRMetrics h operatorNs = do {
     r \<leftarrow> ch_GetGVKsFromAddToScheme h;
     (case r of
        Inl err \<Rightarrow> State_Monad.return (Some err)
      | Inr filteredGVK \<Rightarrow> do {
          r \<leftarrow> ch_GetNamespacesForMetrics h operatorNs;
          (case r of
             Inl err \<Rightarrow> State_Monad.return (Some err)
           | Inr ns \<Rightarrow> ch_perform h (GenerateAndServeCRMetrics ns filteredGVK metricsHost operatorMetricsPort))
        })
   }"

text \<open>An error of \<open>GetOperatorNamespace\<close> other than \<open>ErrRunLocal\<close> leaves the namespace empty and goes on.\<close>

definition addMetrics :: "'w ceph_host \<Rightarrow> ('w, unit) state" where
  "addMetrics h = do {
     r \<leftarrow> ch_GetOperatorNamespace h;
     (if r = Inl ErrRunLocal then State_Monad.return ()
      else do {
        let operatorNs = (case r of Inr ns \<Rightarrow> ns | Inl _ \<Rightarrow> '''');
        _ \<leftarrow> serveCRMetrics h operatorNs;
        (service, _) \<leftarrow> ch_CreateMetricsService h
          [\<lparr>sp_Port = metricsPort, sp_Name = ch_OperatorPortName h\<rparr>, \<lparr>sp_Port = operatorMetricsPort, sp_Name = ch_CRPortName h\<rparr>];
        _ \<leftarrow> ch_perform h (CreateServiceMonitors operatorNs [service]);
        State_Monad.return ()
      })
   }"

text \<open>\<open>add\<close> of the package \<open>dataset\<close>, which \<open>init\<close> puts into \<open>AddToManagerFuncs\<close>, and the loop over these.\<close>

definition ceph_add :: "'w ceph_host \<Rightarrow> ('w, string option) state" where
  "ceph_add h = do {
     err \<leftarrow> ch_perform h (NewController ''dataset-controller'');
     (case err of
        Some err \<Rightarrow> State_Monad.return (Some err)
      | None \<Rightarrow> do {
          err \<leftarrow> ch_perform h (WatchKind ''Dataset'' ''EnqueueRequestForObject'');
          State_Monad.return err
        })
   }"

primrec AddToManager :: "('w, string option) state list \<Rightarrow> ('w, string option) state" where
  "AddToManager [] = State_Monad.return None"
| "AddToManager (f # fs) = do {
     err \<leftarrow> f;
     (case err of Some err \<Rightarrow> State_Monad.return (Some err) | None \<Rightarrow> AddToManager fs)
   }"

definition AddToManagerFuncs :: "'w ceph_host \<Rightarrow> ('w, string option) state list" where
  "AddToManagerFuncs h = [ceph_add h]"

definition ceph_options :: "string \<Rightarrow> ceph_manager_options" where
  "ceph_options namespace =
     (let options = \<lparr>cmo_Namespace = namespace, cmo_NewCache = None,
          cmo_MetricsBindAddress = metricsHost @ '':'' @ Itoa metricsPort\<rparr> in
      if CHR '','' \<in> set namespace
      then options\<lparr>cmo_Namespace := '''', cmo_NewCache := Some (Split namespace (CHR '',''))\<rparr> else options)"

definition ceph_main :: "'w ceph_host \<Rightarrow> ('w, int option) state" where
  "ceph_main h = do {
     r \<leftarrow> ch_GetWatchNamespace h;
     (case r of
        Inl err \<Rightarrow> State_Monad.return (Some 1)
      | Inr namespace \<Rightarrow>
          or_exit (ch_perform h GetConfig)
          (or_exit (ch_perform h (BecomeLeader ''ceph-cache-plugin-lock''))
          (or_exit (ch_perform h (NewCephManager (ceph_options namespace)))
          (or_exit (ch_perform h (AddToScheme ''apis''))
          (or_exit (ch_perform h (AddToScheme ''comv1alpha1''))
          (or_exit (ch_perform h (AddToScheme ''cephv1''))
          (or_exit (AddToManager (AddToManagerFuncs h))
          (do {
             _ \<leftarrow> addMetrics h;
             or_exit (ch_perform h StartCephManager) (State_Monad.return None)
           }))))))))
   }"

section \<open>The CSI drivers (\<open>s3-driver.go\<close>, \<open>nfs.go\<close>, \<open>cmd/\<close>)\<close>

text \<open>
  The S3 driver hands its capabilities to the driver of \<open>csi-common\<close> and its services to that package's server.  A nil
  driver ends the program with \<open>glog.Fatalln\<close>, status 255.
\<close>

datatype s3_call = S3_AddControllerServiceCapabilities "ControllerRPC list"
  | S3_AddVolumeCapabilityAccessModes "AccessMode list" | S3_StartServer string | S3_Wait

record s3_driver =
  s3_name :: string
  s3_version :: string
  s3_nodeID :: string
  s3_endpoint :: string

definition NewS3 :: "bool \<Rightarrow> string \<Rightarrow> string \<Rightarrow> int + s3_driver" where
  "NewS3 driver_made nodeID endpoint =
     (if \<not> driver_made then Inl 255
      else Inr \<lparr>s3_name = driverName, s3_version = vendorVersion, s3_nodeID = nodeID, s3_endpoint = endpoint\<rparr>)"

definition s3_Run :: "(s3_call \<Rightarrow> ('w, unit) state) \<Rightarrow> s3_driver \<Rightarrow> ('w, unit) state" where
  "s3_Run perform s3 = do {
     _ \<leftarrow> perform (S3_AddControllerServiceCapabilities controller_capabilities);
     _ \<leftarrow> perform (S3_AddVolumeCapabilityAccessModes access_modes);
     _ \<leftarrow> perform (S3_StartServer (s3_endpoint s3));
     perform S3_Wait
   }"

record driver_flags =
  df_endpoint :: string
  df_nodeID :: string

definition default_s3_flags :: driver_flags where
  "default_s3_flags = \<lparr>df_endpoint = ''unix://tmp/csi.sock'', df_nodeID = ''''\<rparr>"

definition s3_main :: "(s3_call \<Rightarrow> ('w, unit) state) \<Rightarrow> bool \<Rightarrow> driver_flags \<Rightarrow> ('w, int option) state" where
  "s3_main perform driver_made flags =
     (case NewS3 driver_made (df_nodeID flags) (df_endpoint flags) of
        Inl status \<Rightarrow> State_Monad.return (Some status)
      | Inr driver \<Rightarrow> do { _ \<leftarrow> s3_Run perform driver; State_Monad.return (Some 0) })"

text \<open>
  \<open>handle\<close> of the NFS plugin makes the driver and runs it.  The command of cobra runs it when both flags are given, and
  fails otherwise.
\<close>

definition nfs_handle :: "(nfsDriver \<Rightarrow> ('w, unit) state) \<Rightarrow> driver_flags \<Rightarrow> ('w, unit) state" where
  "nfs_handle run flags = run (NewNFSdriver (df_nodeID flags) (df_endpoint flags))"

definition nfs_main :: "(('w, unit) state \<Rightarrow> ('w, string option) state) \<Rightarrow> (nfsDriver \<Rightarrow> ('w, unit) state) \<Rightarrow> driver_flags \<Rightarrow>
    ('w, int option) state" where
  "nfs_main execute run flags = do {
     err \<leftarrow> execute (nfs_handle run flags);
     State_Monad.return (case err of Some _ \<Rightarrow> Some 1 | None \<Rightarrow> Some 0)
   }"

end
