(* ===== verification/Startup_Properties.thy ===== *)
theory Startup_Properties
  imports Startup
begin

text \<open>
  The programs on a scripted host, whose calls answer what a script says and are logged in their order: both managers
  make the calls of their list one by one up to the first that fails, and start only when none does.
\<close>

section \<open>Scripted calls\<close>

definition logged :: "('c \<Rightarrow> 'r) \<Rightarrow> 'c \<Rightarrow> ('c list, 'r) state" where
  "logged answer c = State (\<lambda>log. (answer c, log @ [c]))"

text \<open>The calls that a program makes of a list it works through until one fails.\<close>

fun until_failure :: "('c \<Rightarrow> bool) \<Rightarrow> 'c list \<Rightarrow> 'c list" where
  "until_failure fails [] = []"
| "until_failure fails (c # cs) = c # (if fails c then [] else until_failure fails cs)"

definition exit_status :: "('c \<Rightarrow> bool) \<Rightarrow> 'c list \<Rightarrow> int option" where
  "exit_status fails cs = (if list_ex fails cs then Some 1 else None)"

lemma exit_status_simps [startup_simps]:
  "exit_status fails [] = None"
  "exit_status fails (c # cs) = (if fails c then Some 1 else exit_status fails cs)"
  by (simp_all add: exit_status_def)

lemma run_logged [startup_simps]: "run_state (logged answer c) log = (answer c, log @ [c])"
  by (simp add: logged_def)

lemma run_or_exit_logged [startup_simps]:
  "run_state (or_exit (logged answer c) rest) log =
     (if answer c \<noteq> None then (Some 1, log @ [c]) else run_state rest (log @ [c]))"
  by (auto simp: or_exit_def logged_def split: option.splits)

section \<open>The operator\<close>

definition scripted_operator :: "(operator_call \<Rightarrow> string option) \<Rightarrow> operator_call list operator_host" where
  "scripted_operator script = \<lparr>oh_perform = logged script, oh_Register = (\<lambda>path. logged (\<lambda>_. ()) (RegisterWebhook path))\<rparr>"

definition operator_calls :: "operator_flags \<Rightarrow> operator_call list" where
  "operator_calls flags =
     [NewManager \<lparr>mo_HealthProbeBindAddress = of_probeAddr flags, mo_LeaderElection = of_enableLeaderElection flags,
        mo_LeaderElectionID = ''9889c07a.datashim.io''\<rparr>,
      NewClientset, CompleteController KDataset, CompleteController KDatasetInternal, AddHealthzCheck ''healthz'',
      AddReadyzCheck ''readyz'', RegisterWebhook ''/mutate-v1-pod'', StartManager]"

definition operator_fails :: "(operator_call \<Rightarrow> string option) \<Rightarrow> operator_call \<Rightarrow> bool" where
  "operator_fails script c = (case c of RegisterWebhook _ \<Rightarrow> False | _ \<Rightarrow> script c \<noteq> None)"

text \<open>
  The operator makes its start-up calls in order up to the first that fails, and then exits with status 1: the manager
  starts only after the manager, the clientset, both controllers and both checks were set up and the webhook was
  registered.  The calls depend on the flags of the probe and the election only, not on the address of the metrics.
\<close>

theorem operator_start_up:
  "run_state (operator_main (scripted_operator script) flags) log =
     (exit_status (operator_fails script) (operator_calls flags),
      log @ until_failure (operator_fails script) (operator_calls flags)) \<and>
   operator_main h (flags\<lparr>of_metricsAddr := addr\<rparr>) = operator_main h flags"
  by (simp add: operator_main_def scripted_operator_def operator_calls_def operator_fails_def startup_simps
      dataset_SetupWithManager_def internal_SetupWithManager_def)

section \<open>The Ceph plugin\<close>

record ceph_script =
  cs_call :: "ceph_call \<Rightarrow> string option"
  cs_watch_namespace :: "string + string"
  cs_operator_namespace :: "operator_namespace_error + string"
  cs_gvks :: "string + string"
  cs_metrics_namespaces :: "string \<Rightarrow> string + string list"
  cs_service :: "string option \<times> string option"

definition scripted_ceph :: "ceph_script \<Rightarrow> ceph_call list ceph_host" where
  "scripted_ceph s = \<lparr>ch_perform = logged (cs_call s), ch_GetWatchNamespace = State_Monad.return (cs_watch_namespace s),
     ch_GetOperatorNamespace = State_Monad.return (cs_operator_namespace s),
     ch_GetGVKsFromAddToScheme = State_Monad.return (cs_gvks s),
     ch_GetNamespacesForMetrics = (\<lambda>ns. State_Monad.return (cs_metrics_namespaces s ns)),
     ch_OperatorPortName = ''http'', ch_CRPortName = ''cr'', ch_CreateMetricsService = (\<lambda>_. State_Monad.return (cs_service s))\<rparr>"

definition ceph_calls :: "string \<Rightarrow> ceph_call list" where
  "ceph_calls namespace =
     [GetConfig, BecomeLeader ''ceph-cache-plugin-lock'', NewCephManager (ceph_options namespace), AddToScheme ''apis'',
      AddToScheme ''comv1alpha1'', AddToScheme ''cephv1'', NewController ''dataset-controller'',
      WatchKind ''Dataset'' ''EnqueueRequestForObject'', StartCephManager]"

fun metrics_call :: "ceph_call \<Rightarrow> bool" where
  "metrics_call (GenerateAndServeCRMetrics _ _ _ _) = True"
| "metrics_call (CreateServiceMonitors _ _) = True"
| "metrics_call _ = False"

text \<open>Adding the metrics makes calls of its own only.\<close>

lemma serveCRMetrics_calls:
  "\<exists>err ms. run_state (serveCRMetrics (scripted_ceph s) ns) log = (err, log @ ms) \<and> filter (Not \<circ> metrics_call) ms = []"
  by (auto simp: serveCRMetrics_def scripted_ceph_def logged_def split: sum.splits)

lemma addMetrics_calls:
  "\<exists>ms. run_state (addMetrics (scripted_ceph s)) log = ((), log @ ms) \<and> filter (Not \<circ> metrics_call) ms = []"
proof -
  let ?ns = "case cs_operator_namespace s of Inr ns \<Rightarrow> ns | Inl _ \<Rightarrow> ''''"
  obtain err ms where "run_state (serveCRMetrics (scripted_ceph s) ?ns) log = (err, log @ ms)"
    "filter (Not \<circ> metrics_call) ms = []"
    using serveCRMetrics_calls by blast
  then show ?thesis
    by (auto simp: addMetrics_def scripted_ceph_def logged_def Let_def split: prod.splits)
qed

text \<open>
  The Ceph plugin exits with status 1 at once without a namespace to watch, and otherwise makes its start-up calls in
  order up to the first that fails: it is the leader before it makes its manager, and the manager starts last.  No error
  while adding metrics changes its status or these calls.
\<close>

theorem ceph_start_up:
  "case run_state (ceph_main (scripted_ceph s)) [] of
     (status, log) \<Rightarrow>
       (case cs_watch_namespace s of
          Inl err \<Rightarrow> status = Some 1 \<and> log = []
        | Inr namespace \<Rightarrow>
            status = exit_status (\<lambda>c. cs_call s c \<noteq> None) (ceph_calls namespace) \<and>
            filter (Not \<circ> metrics_call) log = until_failure (\<lambda>c. cs_call s c \<noteq> None) (ceph_calls namespace))"
proof -
  have perform: "ch_perform (scripted_ceph s) = logged (cs_call s)"
    "ch_GetWatchNamespace (scripted_ceph s) = State_Monad.return (cs_watch_namespace s)"
    by (simp_all add: scripted_ceph_def)
  have add: "run_state (or_exit (AddToManager (AddToManagerFuncs (scripted_ceph s))) rest) log =
    run_state (or_exit (logged (cs_call s) (NewController ''dataset-controller''))
      (or_exit (logged (cs_call s) (WatchKind ''Dataset'' ''EnqueueRequestForObject'')) rest)) log" for rest log
    by (simp add: AddToManagerFuncs_def ceph_add_def or_exit_def perform logged_def split: option.splits)
  show ?thesis
  proof (cases "cs_watch_namespace s")
    case (Inr namespace)
    obtain ms where "run_state (addMetrics (scripted_ceph s))
        [GetConfig, BecomeLeader ''ceph-cache-plugin-lock'', NewCephManager (ceph_options namespace), AddToScheme ''apis'',
         AddToScheme ''comv1alpha1'', AddToScheme ''cephv1'', NewController ''dataset-controller'',
         WatchKind ''Dataset'' ''EnqueueRequestForObject''] =
        ((), [GetConfig, BecomeLeader ''ceph-cache-plugin-lock'', NewCephManager (ceph_options namespace), AddToScheme ''apis'',
         AddToScheme ''comv1alpha1'', AddToScheme ''cephv1'', NewController ''dataset-controller'',
         WatchKind ''Dataset'' ''EnqueueRequestForObject''] @ ms)" "filter (Not \<circ> metrics_call) ms = []"
      using addMetrics_calls by blast
    with Inr show ?thesis
      by (simp add: ceph_main_def ceph_calls_def perform add startup_simps)
  qed (simp add: ceph_main_def perform)
qed

section \<open>The namespaces of the Ceph plugin\<close>

lemma Split_join_with: "ps \<noteq> [] \<Longrightarrow> \<forall>p \<in> set ps. sep \<notin> set p \<Longrightarrow> Split (join_with sep ps) sep = ps"
  by (induction sep ps rule: join_with.induct) (simp_all add: Split_no_sep Split_append)

definition watched_namespaces :: "ceph_manager_options \<Rightarrow> string list" where
  "watched_namespaces options = (case cmo_NewCache options of Some nss \<Rightarrow> nss | None \<Rightarrow> [cmo_Namespace options])"

text \<open>
  The manager of the Ceph plugin watches exactly the namespaces that the variable lists, separated by commas: joining
  what it watches gives the variable back, and a list of names without commas is watched as it was joined.
\<close>

theorem ceph_watches_listed:
  assumes "nss \<noteq> []" and "\<forall>ns \<in> set nss. CHR '','' \<notin> set ns"
  shows "watched_namespaces (ceph_options (join_with (CHR '','') nss)) = nss \<and>
    join_with (CHR '','') (watched_namespaces (ceph_options namespace)) = namespace"
proof
  have "watched_namespaces (ceph_options namespace) = Split namespace (CHR '','')" for namespace
    by (simp add: watched_namespaces_def ceph_options_def Let_def Split_no_sep)
  then show "watched_namespaces (ceph_options (join_with (CHR '','') nss)) = nss"
    "join_with (CHR '','') (watched_namespaces (ceph_options namespace)) = namespace"
    using assms by (simp_all add: Split_join_with join_with_Split)
qed

theorem ceph_watches_listed_witness:
  "watched_namespaces (ceph_options ''ns1,ns2'') = [''ns1'', ''ns2'']"
  using ceph_watches_listed [of "[''ns1'', ''ns2'']"] by simp

end
