(* ===== verification/Spec2Isabelle.thy ===== *)
theory Spec2Isabelle
  imports Pod_Webhook Test_Helpers Fleet_Properties S3_Properties S3_Programs Ceph_Properties Copy_Properties Client_Properties Grpc_Server Startup_Properties
begin

text \<open>
  Datashim lets users of Kubernetes describe data sources as \<open>Dataset\<close> objects and mounts them into pods.  This
  development models the programs that do so, from the sources under \<open>src/\<close>, and proves what makes them correct.

  \<^bold>\<open>The program and its parts.\<close>  A user creates a Dataset.  The Dataset controller of the operator
  (\<open>src/src/dataset-operator/controllers/dataset_controller.go\<close>) checks its name, decides whether a caching plugin
  takes it, and otherwise creates a DatasetInternal of the same name; an archive is first unpacked by a download
  job (\<open>archive_handler.go\<close>).  A caching plugin, such as the Ceph plugin
  (\<open>src/plugins/ceph-cache-plugin/pkg/controller/dataset\<close>), sets up its cache and creates the DatasetInternal itself.
  The DatasetInternal controller (\<open>datasetinternal_controller.go\<close>) turns the DatasetInternal into a config map, a
  secret, a volume and a claim; for a catalog it asks a Hive metastore (\<open>metastore_client.go\<close>).  The claim is served by
  a CSI driver, for S3 (\<open>src/src/csi-s3/pkg/s3\<close>) or NFS (\<open>src/src/csi-driver-nfs/pkg/nfs\<close>), which reads the secret.
  A pod names its datasets in labels, and the admission webhook (\<open>admissioncontroller/mutatingwebhook.go\<close>) mounts
  their claims and config maps into it.

  \<^bold>\<open>Theories and sources.\<close>
  \<^item> \<open>Prelude\<close>, \<open>Go_Strings\<close>, \<open>Base64\<close>, \<open>Sha1\<close>: Go maps as association lists, judgements on
    stateful computations, and the functions of Go's \<open>strings\<close>, \<open>strconv\<close>, \<open>path\<close>, \<open>crypto/sha1\<close> and \<open>encoding\<close>
    packages that the sources call.
  \<^item> \<open>K8s_Api\<close>: \<open>api/v1alpha1/dataset_types.go\<close> and \<open>datasetinternal_types.go\<close> field by field, the core
    objects, the controller-runtime client as the record \<open>cluster_api\<close> over an opaque world, and its contract, the locale
    \<open>api_server\<close> (failed writes may have taken effect) with \<open>calm_api_server\<close> for clusters without faults.
    \<open>Shared_World\<close> puts a second service beside it in one world.
  \<^item> \<open>Pod_Mutator\<close> is \<open>mutatingwebhook.go\<close>; \<open>Pod_Json\<close> is JSON Patch (RFC 6902) on pods; \<open>Pod_Labels\<close>,
    \<open>Pod_Patch\<close> and \<open>Pod_Webhook\<close> hold the facts about labels, patches and the handler.
  \<^item> \<open>Metastore\<close> is \<open>metastore_client.go\<close> with the locale \<open>catalog\<close>; \<open>Dataset_Internal\<close> is
    \<open>datasetinternal_controller.go\<close>; \<open>Internal_Frame\<close>, \<open>Internal_Proofs\<close>, \<open>Internal_Controller\<close> and
    \<open>Internal_Lifecycle\<close> prove what its operations change and achieve, and \<open>Internal_Properties\<close> collects it.
    A deletion is followed through failing runs by \<open>winding_down\<close>, and through calm ones by \<open>remaining\<close>.
  \<^item> \<open>Archive\<close> is \<open>archive_handler.go\<close>; \<open>Dataset_Controller\<close> is \<open>dataset_controller.go\<close>; \<open>Dataset_Proofs\<close>,
    \<open>Dataset_Steps\<close>, \<open>Dataset_Creation\<close> and \<open>Dataset_Calm\<close> are its lemmas, and \<open>Dataset_Properties\<close> has the
    state machine of the status and histories of runs, user actions and plugin reports.
  \<^item> \<open>Provisioning\<close> and \<open>Operator_Schedule\<close> run both controllers on one dataset: the step relation
    \<open>operator_step\<close>, the stages of a dataset, and its progress under every interleaving.
    \<open>Fleet\<close> (\<open>fleet_trace\<close>) interleaves the actions on many datasets, \<open>independent_fleet\<close> says when they do not disturb
    each other; \<open>Recovery\<close> says what a phase of failing requests can leave behind (\<open>stage_step_faulty\<close>), so that the
    stages of a dataset survive it; \<open>Fleet_Properties\<close> adds the webhook: pods of ready datasets mount claims that are
    bound.
  \<^item> \<open>Csi_Api\<close> and \<open>Os_Api\<close>: the messages of CSI, and the operating system as the record \<open>os_api\<close> with
    the contracts \<open>host_mounts\<close> (with \<open>mount_table\<close>), \<open>host_clock\<close>, \<open>host_files\<close> and \<open>host_programs\<close>.
  \<^item> \<open>S3_Store\<close> is \<open>s3-client.go\<close> and \<open>config.go\<close> with the locale \<open>object_store\<close>; \<open>S3_Mounter\<close> is
    \<open>mounter.go\<close>, the four \<open>mounter_*.go\<close> and \<open>util.go\<close> with the locale \<open>mounter_interface\<close> for the Go interface
    \<open>Mounter\<close>, a sublocale for each of its implementations; \<open>S3_Driver\<close> is \<open>controllerserver.go\<close> and \<open>nodeserver.go\<close>; \<open>S3_Waiting\<close>,
    \<open>S3_Programs\<close> (which commands it runs) and \<open>S3_Properties\<close> their lemmas and properties.
  \<^item> \<open>Nfs_Driver\<close> is \<open>nodeserver.go\<close>, \<open>controllerserver.go\<close>, \<open>indentityserver.go\<close>, \<open>nfs.go\<close> and
    \<open>utils.go\<close> of the NFS driver; \<open>Grpc_Server\<close> is its \<open>server.go\<close>, the step relation \<open>grpc_step\<close> of the callers of
    the server and its goroutines.
  \<^item> \<open>Ceph_Plugin\<close> is \<open>ceph_related_objects.go\<close>, \<open>dataset_finalizer.go\<close> and \<open>dataset_controller.go\<close> of the plugin;
    \<open>Ceph_Facts\<close> (locale \<open>ceph_server\<close>) and \<open>Ceph_Properties\<close> its lemmas and properties.
  \<^item> \<open>Go_Heap\<close>, \<open>Deep_Copy\<close>: \<open>zz_generated.deepcopy.go\<close> on a heap of typed cells, where pointers, slices and maps
    are references; the locale \<open>deep_copier\<close> is the contract of a copy (types, value, isolation), kept by pairs,
    pointers, slices and maps, and the locale \<open>metadata\<close> takes the copies of \<open>ObjectMeta\<close> and \<open>ListMeta\<close> as such;
    \<open>Deep_Copy_Facts\<close> and \<open>Copy_Properties\<close> are its lemmas and properties.
  \<^item> \<open>Rest_Client\<close> and \<open>Fake_Client\<close>: the generated client set under \<open>src/src/apiclient/pkg/clientset/versioned\<close> and its
    fake, each operation with the request or action it makes; \<open>Client_Endpoints\<close> says what a server sees of both, and
    \<open>Client_Properties\<close> (locale \<open>dataset_server\<close>) compares them.
  \<^item> \<open>Startup\<close> and \<open>Startup_Properties\<close>: the \<open>main\<close> functions of the four programs and the registration of the
    controllers.  \<open>Test_Helpers\<close>: the builders of \<open>testing/wrapper.go\<close>; the model of the webhook passes the table of
    \<open>mutatingwebhook_test.go\<close> built with them.
  \<^item> This theory: the compositions of the operator with the S3 driver and with the NFS driver, and of the Ceph
    plugin, the operator and the S3 driver.

  \<^bold>\<open>State, operations, errors.\<close>  Structs are records, enumerations and interfaces datatypes, maps
  association lists in the order of a \<open>range\<close> loop (statements about such loops quantify over that order).  A
  handler is a computation in the state monad over the world of its parameters; every request to the cluster, the
  object store or the host may fail, and every early return is a branch with its error as a value: \<open>Inl\<close>, an
  \<open>option\<close>, or the pair of result and error of a reconciler.  A function that gets its caller's map and writes into it
  returns the map.  Panics of the webhook are values too.

  \<^bold>\<open>What the lemmas show.\<close>  Webhook: labels are read as described, whatever their order; the patch is one
  that the API server can apply, and applying it gives the pod with the volumes, mounts and references of its
  datasets.  Operator: a run changes only the objects of its dataset; what it creates is what the dataset says;
  runs are idempotent; deletion is guarded by the finalizer, and ends, with nothing left behind, after any number of
  failed runs; the status follows a small state machine in every history; under every schedule of the two controllers
  over any number of independent new datasets, with any number of failing requests before the cluster becomes calm, each
  becomes OK once its claim is bound, and a pod that the webhook admits then mounts bound claims only.
  S3 driver: volume ids are bounded; creation and deletion change at most the volume's bucket; after a publication
  without an error the target is mounted; the waits are bounded.  NFS driver: a publication changes one mount point and
  mounts the volume there.  Ceph plugin: the cache is exposed only once all of its parts exist and are the dataset's.
  Deep copies only allocate, keep types and value, and share nothing with the original.  The fake client of the datasets
  does what the real one does.  The managers start only after every start-up call succeeded.
  Composition: the driver reads from the operator's secret the configuration of the dataset, and its volume is the
  dataset's bucket, which it mounts by running exactly the command of the dataset; the NFS driver mounts the share
  that the NFS dataset names; for a dataset whose cache is ready it reads the address and the keys of the gateway of
  the cache, but never that the dataset is read-only. Beside these stand theorems about faults of the code: entries
  that accumulate over containers, volumes of the same name in two namespaces, jobs, mounts and object stores that are
  left behind, credentials that are overwritten in part, a client whose resource is not registered, a server that
  cannot be waited for.

  \<^bold>\<open>Loops and bounds.\<close>  Loops over lists and maps are structural recursions.  The loop of
  \<open>waitForMount\<close> has the measure \<open>timeout - elapsed\<close> (durations are unbounded integers of nanoseconds, far
  below \<open>2 ^ 63\<close> in the code), and \<open>waitForProcess\<close> counts its 64-bit backoff up to 20 with the measure
  \<open>20 - backoff\<close>, which wraps as the code does.  Indices of the webhook are integers, parsed within 64 bits by
  \<open>Atoi\<close>.  The timeouts of the generated client are 64-bit
  words of nanoseconds (\<open>timeout_exact\<close> says when they are exact).  No definition uses fuel.

  \<^bold>\<open>Assumptions.\<close>  Packages outside the sources are parameters: the client of controller-runtime and
  \<open>SetControllerReference\<close>, the UUID generator, the admission decoder, the metastore client, \<open>url.Parse\<close>,
  \<open>minio-go\<close>, the mount library, \<open>go-ps\<close>, the operating system, Rook's resources, the packages
  \<open>rest\<close> and \<open>testing\<close> of client-go, the controller manager, and the copies of Kubernetes' own metadata.  The locales named above state
  what is assumed of them; each is interpreted by an in-memory model with a schedule of faults, on which every
  property is evaluated.  In \<open>emptyBucket\<close> the listing is read before the first removal.  Text is a list of bytes;
  \<open>ToLower\<close> is that of ASCII.

  \<^bold>\<open>Not modelled.\<close>  The parsing of flags, log output, and the contents of schemes (\<open>register.go\<close>): calls of libraries
  without logic of their own.  What the packages of gRPC, \<open>csi-common\<close> and controller-runtime do once they are started.
\<close>

section \<open>From the dataset to the bucket\<close>

text \<open>What the S3 driver should be told about an object-storage dataset.\<close>

definition dataset_config :: "DatasetInternal \<Rightarrow> string \<times> string \<Rightarrow> Config" where
  "dataset_config cr ks =
     \<lparr>AccessKeyID = fst ks, SecretAccessKey = snd ks, Region = mget (spec_local cr) ''region'',
      Endpoint = mget (spec_local cr) ''endpoint'', Mounter = '''', Bucket = bucket_of cr, Folder = folder_of cr,
      RemoveOnDelete = parse_bool_or_false (mget (om_labels (di_meta cr)) ''remove-on-delete''),
      Readonly = parse_bool_or_false (mget (spec_local cr) ''readonly''),
      Provision = parse_bool_or_false (mget (spec_local cr) ''provision'')\<rparr>"

lemma secrets_config_cong: "map_of s = map_of s' \<Longrightarrow> secrets_config s = secrets_config s'"
  by (simp add: secrets_config_def mget_def)

lemma boolean_string_read_back:
  "parse_bool_or_false (getBooleanStringForKeyInMap ''false'' k m) = parse_bool_or_false (mget m k)"
proof -
  have "ParseBool '''' = None" "ParseBool ''false'' = Some False" by (simp_all add: ParseBool_def)
  then show ?thesis
    by (auto simp: getBooleanStringForKeyInMap_def parse_bool_or_false_def mget_def split: option.splits)
qed

lemma cos_provision_read_back:
  "parse_bool_or_false (cos_provision cr) = parse_bool_or_false (mget (spec_local cr) ''provision'')"
  using boolean_string_read_back [of "''provision''" "spec_local cr"]
  by (auto simp: cos_provision_def Let_def getBooleanStringForKeyInMap_def split: option.splits)

text \<open>The driver reads back from the secret what the operator wrote into it.\<close>

lemma cos_secret_read_back: "secrets_config (sec_StringData (cos_secret cr ks)) = dataset_config cr ks"
  by (simp add: secrets_config_def dataset_config_def cos_secret_def cos_readonly_def cos_remove_on_delete_def
      boolean_string_read_back cos_provision_read_back)

lemma client_config: "newS3ClientFromSecrets mc parse secrets = Inr s3 \<Longrightarrow> sc_cfg s3 = secrets_config secrets"
  by (auto simp: newS3ClientFromSecrets_def newS3Client_def Let_def split: sum.splits if_splits)

lemma fresh_secret_config:
  assumes "api_server api view" and "run_state (processLocalDatasetCOS api cr) w = ((res, None), w')"
    and "view w (secret_key (name_of cr)) = None" and "view w (pvc_key (name_of cr)) = None"
    and "view w' (secret_key (name_of cr)) = Some (OSecret s)"
    and "newS3ClientFromSecrets mc parse (sec_Data s) = Inr s3"
  obtains ks where "credentials_of (view w) cr = Some ks" "sc_cfg s3 = dataset_config cr ks"
proof -
  obtain ks where ks: "credentials_of (view w) cr = Some ks"
    and data: "map_of (sec_Data s) = map_of (sec_StringData (cos_secret cr ks))"
    using api_server.COS_fresh_contents_in [OF assms(1-4)] assms(5) by auto
  moreover have "sc_cfg s3 = dataset_config cr ks"
    using client_config [OF assms(6)] secrets_config_cong [OF data] cos_secret_read_back by simp
  ultimately show thesis using that by blast
qed

text \<open>
  C15. From the dataset to its bucket: the secret the operator creates for a new object-storage dataset carries
  the dataset's configuration to the S3 driver, and the volume the driver creates from it is the bucket the
  dataset names: it exists afterwards, and it is made, empty, only when the dataset asks for provisioning.
\<close>

theorem dataset_reaches_bucket:
  assumes "api_server api view" and "run_state (processLocalDatasetCOS api cr) w = ((res, None), w')"
    and "view w (secret_key (name_of cr)) = None" and "view w (pvc_key (name_of cr)) = None"
    and "view w' (secret_key (name_of cr)) = Some (OSecret s)"
    and "object_store mc buckets" and "cv_Secrets req = sec_Data s"
    and "newS3ClientFromSecrets mc parse (sec_Data s) = Inr s3" and "bucket_of cr \<noteq> ''''"
    and "run_state (CreateVolume mc parse validate req) u = (answer, u')"
  shows "\<exists>ks. credentials_of (view w) cr = Some ks \<and> sc_cfg s3 = dataset_config cr ks \<and>
    (\<forall>vol. answer = Inr vol \<longrightarrow> bucket_of cr \<in> dom (buckets (sc_minio s3) u')) \<and>
    (buckets (sc_minio s3) u' = buckets (sc_minio s3) u \<or>
     parse_bool_or_false (mget (spec_local cr) ''provision'') \<and> buckets (sc_minio s3) u (bucket_of cr) = None \<and>
       buckets (sc_minio s3) u' = (buckets (sc_minio s3) u)(bucket_of cr \<mapsto> {}))"
proof -
  obtain ks where ks: "credentials_of (view w) cr = Some ks" and cfg: "sc_cfg s3 = dataset_config cr ks"
    by (rule fresh_secret_config [OF assms(1-5,8)])
  have "volume_bucket (sc_cfg s3) v = bucket_of cr" for v
    using assms(9) by (simp add: cfg volume_bucket_def dataset_config_def)
  moreover have "Provision (sc_cfg s3) = parse_bool_or_false (mget (spec_local cr) ''provision'')"
    by (simp add: cfg dataset_config_def)
  ultimately show ?thesis
    using object_store.create_run [OF assms(6) assms(8) [folded assms(7)] assms(10)] ks cfg by (auto simp: Let_def)
qed

theorem dataset_reaches_bucket_witness:
  "\<exists>w' s s3 ks. mem_view w' (secret_key (''ns'', ''a'')) = Some (OSecret s) \<and>
     newS3ClientFromSecrets mem_minio example_url (sec_Data s) = Inr s3 \<and> sc_cfg s3 = dataset_config example_cos ks \<and>
     Bucket (sc_cfg s3) = ''b'' \<and> Folder (sc_cfg s3) = ''c''"
proof -
  obtain r e w' where run: "run_state (processLocalDatasetCOS mem_api example_cos) (world_of []) = ((r, e), w')"
    by (metis prod.exhaust)
  have "credentials_of (mem_view (world_of [])) example_cos \<noteq> None"
    by (simp add: credentials_of_def secret_ok_def example_cos_def secret_keys_def)
  then have e: "e = None"
    using mem_calm.COS_calm [OF world_of_calm [of "[]"], of example_cos] run by auto
  have n: "name_of example_cos = (''ns'', ''a'')" by (simp add: name_of_def example_cos_def ObjectMeta_def)
  have none: "mem_view (world_of []) k = None" for k by (simp add: view_world_of)
  obtain ks s where s: "mem_view w' (secret_key (''ns'', ''a'')) = Some (OSecret s)"
    and data: "map_of (sec_Data s) = map_of (sec_StringData (cos_secret example_cos ks))"
    using mem.COS_fresh_contents_in [OF run [unfolded e] none none] n by auto
  have b: "bucket_of example_cos = ''b''" "folder_of example_cos = ''c''"
    by (simp_all add: bucket_of_def folder_of_def example_cos_def Cut_def)
  have cfg: "secrets_config (sec_Data s) = dataset_config example_cos ks"
    using secrets_config_cong [OF data] cos_secret_read_back by simp
  have "Endpoint (dataset_config example_cos ks) \<noteq> ''''" by (simp add: dataset_config_def example_cos_def)
  then obtain s3 where s3: "newS3ClientFromSecrets mem_minio example_url (sec_Data s) = Inr s3"
    by (auto simp: newS3ClientFromSecrets_def newS3Client_def cfg example_url_def mem_minio_def Let_def)
  obtain answer u' where "run_state (CreateVolume mem_minio example_url None (example_create\<lparr>cv_Secrets := sec_Data s\<rparr>))
      (store_of []) = (answer, u')"
    by fastforce
  from dataset_reaches_bucket [OF mem.api_server_axioms run [unfolded e] none none s [folded n]
      mem_store.object_store_axioms _ s3 _ this] b
  obtain ks' where "sc_cfg s3 = dataset_config example_cos ks'" by auto
  moreover from this have "Bucket (sc_cfg s3) = bucket_of example_cos" "Folder (sc_cfg s3) = folder_of example_cos"
    by (simp_all add: dataset_config_def)
  ultimately show ?thesis using s s3 unfolding b by blast
qed

section \<open>From the dataset to the command of its mounter\<close>

text \<open>
  The command that should mount an object-storage dataset: its endpoint, region and bucket, read-only if the dataset
  says so.  Only goofys is told the folder; its keys are in the profile of the volume.
\<close>

definition dataset_command :: "string \<Rightarrow> DatasetInternal \<Rightarrow> string \<times> string \<Rightarrow> string \<Rightarrow> string \<Rightarrow> string \<times> string list" where
  "dataset_command mounter cr ks volume target =
     (let endpoint = mget (spec_local cr) ''endpoint''; region = mget (spec_local cr) ''region'';
          ro = (if parse_bool_or_false (mget (spec_local cr) ''readonly'') then [''-o'', ''ro''] else []) in
      if mounter = ''goofys'' then
        (''goofys'',
         [''--endpoint='' @ endpoint, ''--type-cache-ttl'', ''1s'', ''--stat-cache-ttl'', ''1s'', ''--dir-mode'', ''0777'',
          ''--file-mode'', ''0777'', ''--http-timeout'', ''5m'', ''-o'', ''allow_other''] @
         (if fst ks \<noteq> '''' \<and> snd ks \<noteq> '''' then [''--profile='' @ volume] else []) @
         (if region \<noteq> '''' then [''--region'', region] else []) @ ro @
         [if folder_of cr = '''' then bucket_of cr else bucket_of cr @ '':'' @ folder_of cr, target])
      else if mounter = ''rclone'' then
        (''rclone'',
         [''mount'', '':s3:'' @ bucket_of cr @ ''//'', target, ''--daemon'', ''--s3-provider=AWS'', ''--s3-env-auth=true'',
          ''--s3-region='' @ region, ''--s3-endpoint='' @ endpoint, ''--allow-other'', ''--vfs-cache-mode=writes''])
      else
        (''s3fs'',
         [bucket_of cr, target, ''-o'', ''use_path_request_style'', ''-o'', ''url='' @ endpoint, ''-o'', ''endpoint='' @ region,
          ''-o'', ''allow_other'', ''-o'', ''umask=0000''] @ ro))"

lemma dataset_command_chosen:
  "mounter \<noteq> ''s3backer'' \<Longrightarrow>
   fuse_command (chosen_mounter \<lparr>bk_Name = Bucket (dataset_config cr ks), bk_Folder = Folder (dataset_config cr ks),
     bk_Mounter = mounter\<rparr> (dataset_config cr ks) volume) target = dataset_command mounter cr ks volume target"
  by (simp add: fuse_command_def chosen_mounter_def dataset_command_def dataset_config_def newGoofysMounter_def
      newRcloneMounter_def newS3fsMounter_def goofys_args_def rclone_args_def s3fs_args_def Let_def)


definition cos_publish :: NodePublishRequest where
  "cos_publish = example_publish\<lparr>np_Secrets := [(''accessKeyID'', ''k''), (''secretAccessKey'', ''s''), (''endpoint'', ''e''),
     (''bucket'', ''b''), (''folder'', ''c''), (''region'', ''''), (''readonly'', ''false''), (''extract'', ''false''),
     (''provision'', ''false''), (''remove-on-delete'', ''false'')]\<rparr>"

lemma cos_runs:
  "fst (run_state (processLocalDatasetCOS mem_api example_cos) (world_of [])) = (Result, None)"
  "case mem_view (snd (run_state (processLocalDatasetCOS mem_api example_cos) (world_of []))) (secret_key (name_of example_cos)) of
     Some (OSecret s) \<Rightarrow> np_Secrets cos_publish = sec_Data s | _ \<Rightarrow> False"
  "case newS3ClientFromSecrets idle_minio example_url (np_Secrets cos_publish) of Inl _ \<Rightarrow> False | Inr _ \<Rightarrow> True"
  "fst (run_state (NodePublishVolume idle_minio (mem_os mounting_program) example_url cos_publish) idle_host) = None"
  by code_simp+


section \<open>From the dataset to the share\<close>

text \<open>
  What a pod should see of an NFS dataset: its share, or, if the dataset asks for a directory, the directory of the
  volume in it.
\<close>

definition dataset_share :: "DatasetInternal \<Rightarrow> string \<Rightarrow> string list \<Rightarrow> mount" where
  "dataset_share cr volume flags =
     (let share = mget (spec_local cr) ''server'' @ '':'' @ mget (spec_local cr) ''share'' in
      \<lparr>mnt_source = (if parse_bool_or_false (mget (spec_local cr) ''createDirPVC'') then path_Join [share, volume] else share),
       mnt_fstype = ''nfs'', mnt_options = flags\<rparr>)"

text \<open>The driver reads back from the attributes of the volume what the operator wrote into them.\<close>

lemma boolean_default_read_back:
  "parse_bool_or_false (case map_of m k of None \<Rightarrow> ''false'' | Some v \<Rightarrow> v) = parse_bool_or_false (mget m k)"
proof -
  have "ParseBool '''' = None" "ParseBool ''false'' = Some False" by (simp_all add: ParseBool_def)
  then show ?thesis by (cases "map_of m k") (simp_all add: parse_bool_or_false_def mget_def)
qed

lemma nfs_attributes_read_back:
  assumes "pv_source (nfs_pv cr uuid) = CSIPersistentVolumeSource driver volume attributes"
    and "np_VolumeId req = volume" and "np_VolumeContext req = attributes"
  shows "nfs_volume_mount req = dataset_share cr volume (mount_flags req)"
proof -
  have id: "np_VolumeId req = volume" using assms(2) .
  have attrs: "np_VolumeContext req = [(''server'', mget (spec_local cr) ''server''), (''share'', mget (spec_local cr) ''share''),
      (''createDirPVC'', case map_of (spec_local cr) ''createDirPVC'' of None \<Rightarrow> ''false'' | Some v \<Rightarrow> v)]"
    using assms(1,3) by (simp add: nfs_pv_def)
  have "parse_bool_or_false (mget (np_VolumeContext req) ''createDirPVC'') =
      parse_bool_or_false (mget (spec_local cr) ''createDirPVC'')"
    unfolding attrs using boolean_default_read_back [of "spec_local cr" "''createDirPVC''"]
    by (simp add: mget_def [of "_ # _"])
  moreover have "nfs_source req = mget (spec_local cr) ''server'' @ '':'' @ mget (spec_local cr) ''share''"
    unfolding nfs_source_def attrs by (simp add: mget_def [of "_ # _"])
  ultimately show ?thesis unfolding nfs_volume_mount_def dataset_share_def id Let_def by simp
qed


definition nfs_dataset :: DatasetInternal where
  "nfs_dataset = example_nfs\<lparr>di_Spec := empty_spec\<lparr>sp_Local := Some
     [(''type'', ''NFS''), (''server'', ''h''), (''share'', ''/x''), (''createDirPVC'', ''true'')]\<rparr>\<rparr>"

definition nfs_request :: NodePublishRequest where
  "nfs_request = nfs_example\<lparr>np_VolumeId := ''a-000000'',
     np_VolumeContext := [(''server'', ''h''), (''share'', ''/x''), (''createDirPVC'', ''true'')]\<rparr>"

lemma nfs_runs:
  "fst (run_state (processLocalDatasetNFS mem_api nfs_dataset) (world_of [])) = (Result, None)"
  "case mem_view (snd (run_state (processLocalDatasetNFS mem_api nfs_dataset) (world_of []))) (pv_key (name_of nfs_dataset)) of
     Some (OPersistentVolume pv) \<Rightarrow> pv_source pv = CSIPersistentVolumeSource ''csi-nfsplugin'' ''a-000000''
       [(''server'', ''h''), (''share'', ''/x''), (''createDirPVC'', ''true'')]
   | _ \<Rightarrow> False"
  "fst (run_state (nfs_NodePublishVolume (mem_os (\<lambda>_ _. None)) nfs_request) idle_host) = Answer None"
  by code_simp+


section \<open>From a cached dataset to the gateway of its cache\<close>

text \<open>
  What the driver is told about a dataset whose cache is ready: what it would be told without the cache, but for the
  keys and the address of the gateway, and never that the dataset is read-only.
\<close>

definition gateway_config :: "Dataset \<Rightarrow> Secret \<Rightarrow> Service \<Rightarrow> Config" where
  "gateway_config ds secret svc =
     (dataset_config (new_internal ds (ds_Spec ds)) (mget (sec_Data secret) ''AccessKey'', mget (sec_Data secret) ''SecretKey''))
       \<lparr>Endpoint := ''http://'' @ svc_ClusterIP svc, Readonly := False\<rparr>"

lemma exposed_instance:
  assumes "exposes y ds secret svc" and "obj_key y = internal_key n"
  obtains cr where "y = ODatasetInternal cr" "name_of cr = n" "om_deletionTimestamp (di_meta cr) = None"
    "di_Spec cr = di_Spec (ceph_internal ds secret svc)"
    "om_labels (di_meta cr) = om_labels (di_meta (ceph_internal ds secret svc))"
proof -
  obtain rs where "payload y = payload (ODatasetInternal (ceph_internal ds secret svc
      \<lparr>di_meta := (di_meta (ceph_internal ds secret svc))\<lparr>om_ownerReferences := rs\<rparr>\<rparr>))"
    using assms(1) by (auto simp: exposes_def)
  then obtain cr where cr: "y = ODatasetInternal cr" "di_Spec cr = di_Spec (ceph_internal ds secret svc)"
    "om_labels (di_meta cr) = om_labels (di_meta (ceph_internal ds secret svc))"
    by (rule payload_internal) auto
  then show ?thesis
    using that [of cr] assms by (simp add: exposes_def obj_key_internal internal_key_def)
qed

lemma exposed_config:
  assumes "di_Spec cr = di_Spec (ceph_internal ds secret svc)"
    and "om_labels (di_meta cr) = om_labels (di_meta (ceph_internal ds secret svc))"
  shows "sp_Local (di_Spec cr) \<noteq> None" and "mget (spec_local cr) ''type'' = ''COS''"
    and "credentials_of v cr = Some (mget (sec_Data secret) ''AccessKey'', mget (sec_Data secret) ''SecretKey'')"
    and "dataset_config cr (mget (sec_Data secret) ''AccessKey'', mget (sec_Data secret) ''SecretKey'') = gateway_config ds secret svc"
proof -
  have l: "spec_local cr = [(''type'', ''COS''), (''accessKeyID'', mget (sec_Data secret) ''AccessKey''),
      (''secretAccessKey'', mget (sec_Data secret) ''SecretKey''), (''endpoint'', ''http://'' @ svc_ClusterIP svc),
      (''bucket'', mget (local_map (ds_Spec ds)) ''bucket''), (''provision'', mget (local_map (ds_Spec ds)) ''provision''),
      (''region'', mget (local_map (ds_Spec ds)) ''region'')]"
    by (simp add: assms(1) ceph_internal_def Let_def)
  show "sp_Local (di_Spec cr) \<noteq> None" by (simp add: assms(1) ceph_internal_def Let_def)
  show "mget (spec_local cr) ''type'' = ''COS''" by (simp add: l)
  show "credentials_of v cr = Some (mget (sec_Data secret) ''AccessKey'', mget (sec_Data secret) ''SecretKey'')"
    by (simp add: credentials_of_def secret_ok_def secret_keys_def l)
  show "dataset_config cr (mget (sec_Data secret) ''AccessKey'', mget (sec_Data secret) ''SecretKey'') = gateway_config ds secret svc"
    by (simp add: gateway_config_def dataset_config_def l assms(2) ceph_internal_def Let_def new_internal_def ObjectMeta_def
        bucket_of_def folder_of_def parse_bool_or_false_def ParseBool_def)
qed

text \<open>
  C19. From a cached dataset to its gateway: when the Ceph plugin exposes the cache of a dataset, two runs of the
  DatasetInternal controller make the claim and a secret from which the S3 driver reads the bucket, folder, region and flags
  that the dataset has, with the address of the gateway and the keys of the user that Rook made for it in place of the
  dataset's own; but whatever the dataset says, the volume is not read-only.
\<close>

theorem cached_dataset_reaches_gateway:
  assumes "ceph_server api view ceph stores users" and "catalog api view hms" and "calm_api_server api view calm"
    and "run_state (CephReconcile api ceph n) w = (r, w1)"
    and "view w (internal_key n) = None" and "view w1 (internal_key n) \<noteq> None"
    and "calm w1" and "view w1 (secret_key n) = None" and "view w1 (pvc_key n) = None"
    and "run_state (reconcile_times 2 api hms parse_url n) w1 = (u, w2)"
  shows "\<exists>ds secret svc s. view w (dataset_key n) = Some (ODataset ds) \<and>
    cache_ready api (view w) (stores w) (users w) ds secret svc \<and>
    view w2 (pvc_key n) \<noteq> None \<and> view w2 (secret_key n) = Some (OSecret s) \<and>
    secrets_config (sec_Data s) = gateway_config ds secret svc \<and>
    (\<forall>mc parse s3. newS3ClientFromSecrets mc parse (sec_Data s) = Inr s3 \<longrightarrow> sc_cfg s3 = gateway_config ds secret svc)"
proof -
  obtain y where y: "view w1 (internal_key n) = Some y" using assms(6) by blast
  obtain ds secret svc where g: "view w (dataset_key n) = Some (ODataset ds)"
    "cache_ready api (view w) (stores w) (users w) ds secret svc" "exposes y ds secret svc"
    using ceph_server.reconcile_guarded [OF assms(1,4) assms(5) [unfolded internal_key_def] y [unfolded internal_key_def]]
    by auto
  have k: "obj_key y = internal_key n" using calm_api_server.axioms(1) [OF assms(3)] y by (rule api_server.view_key)
  obtain cr where cr: "y = ODatasetInternal cr" "name_of cr = n" "om_deletionTimestamp (di_meta cr) = None"
    "di_Spec cr = di_Spec (ceph_internal ds secret svc)"
    "om_labels (di_meta cr) = om_labels (di_meta (ceph_internal ds secret svc))"
    by (rule exposed_instance [OF g(3) k])
  note c = exposed_config [OF cr(4,5)]
  let ?ks = "(mget (sec_Data secret) ''AccessKey'', mget (sec_Data secret) ''SecretKey'')"
  obtain w' s where w': "run_state (reconcile_times 2 api hms parse_url (name_of cr)) w1 = ((), w')"
    "view w' (secret_key (name_of cr)) = Some (OSecret s)" "view w' (pvc_key (name_of cr)) \<noteq> None"
    "map_of (sec_Data s) = map_of (sec_StringData (cos_secret cr ?ks))"
    by (rule calm_catalog.two_runs_serve_cos [where cr = cr and ks = ?ks and parse_url = parse_url,
        OF calm_catalog.intro [OF assms(2,3)] assms(7)])
      (use y cr(1-3) c assms(8,9) in simp_all)
  have cfg: "secrets_config (sec_Data s) = gateway_config ds secret svc"
    using secrets_config_cong [OF w'(4)] cos_secret_read_back c(4) by simp
  have "w2 = w'" using w'(1) assms(10) cr(2) by simp
  moreover have "sc_cfg s3 = gateway_config ds secret svc" if "newS3ClientFromSecrets mc parse (sec_Data s) = Inr s3" for mc parse s3
    using client_config [OF that] cfg by simp
  ultimately show ?thesis using g(1,2) w'(2,3) cr(2) cfg by blast
qed

text \<open>The cache of the example is ready: the run of the plugin, then two of the controller.\<close>

definition exposed_world :: "mem_world \<times> rook_world" where
  "exposed_world = snd (run_state (CephReconcile rook_api mem_rook (''ns'', ''a'')) ready_world)"

lemma exposed_world_facts:
  "mem_view (fst ready_world) (internal_key (''ns'', ''a'')) = None"
  "mem_view (fst exposed_world) (internal_key (''ns'', ''a'')) \<noteq> None" "mem_calm (fst exposed_world)"
  "mem_view (fst exposed_world) (secret_key (''ns'', ''a'')) = None"
  "mem_view (fst exposed_world) (pvc_key (''ns'', ''a'')) = None"
  by code_simp+

lemma ready_world_objects:
  "mem_view (fst ready_world) (dataset_key (''ns'', ''a'')) = Some (ODataset cached_dataset)"
  "mem_view (fst ready_world) (KSecret, ('''', user_secret_name ''a'')) = Some (OSecret \<lparr>sec_meta = ObjectMeta (user_secret_name ''a'') '''' [],
     sec_Data = [(''AccessKey'', ''ak''), (''SecretKey'', ''sk'')], sec_StringData = []\<rparr>)"
  "mem_view (fst ready_world) (KService, ('''', ''rook-ceph-rgw-a'')) =
     Some (OService \<lparr>svc_meta = ObjectMeta ''rook-ceph-rgw-a'' '''' [], svc_ClusterIP = ''10.0.0.1'', svc_Ports = []\<rparr>)"
  by code_simp+

lemma rook_catalog: "catalog rook_api (\<lambda>w. mem_view (fst w)) (table_metastore tables)"
  by (intro catalog.intro api_server_on_fst mem.api_server_axioms catalog_axioms.intro) (auto simp: table_metastore_def)

theorem cached_dataset_reaches_gateway_witness:
  "\<exists>w2 s. run_state (reconcile_times 2 rook_api (table_metastore (\<lambda>_. None)) (\<lambda>_. None) (''ns'', ''a'')) exposed_world = ((), w2) \<and>
     mem_view (fst w2) (secret_key (''ns'', ''a'')) = Some (OSecret s) \<and>
     AccessKeyID (secrets_config (sec_Data s)) = ''ak'' \<and> Endpoint (secrets_config (sec_Data s)) = ''http://10.0.0.1'' \<and>
     Bucket (secrets_config (sec_Data s)) = ''b''"
proof -
  let ?times = "run_state (reconcile_times 2 rook_api (table_metastore (\<lambda>_. None)) (\<lambda>_. None) (''ns'', ''a'')) exposed_world"
  obtain r where run: "run_state (CephReconcile rook_api mem_rook (''ns'', ''a'')) ready_world = (r, exposed_world)"
    using prod.collapse [of "run_state (CephReconcile rook_api mem_rook (''ns'', ''a'')) ready_world"]
    unfolding exposed_world_def by metis
  obtain w2 where times: "?times = ((), w2)" by (metis old.unit.exhaust surj_pair)
  from cached_dataset_reaches_gateway [OF rook.ceph_server_axioms rook_catalog calm_on_fst [OF mem_calm.calm_api_server_axioms]
      run exposed_world_facts times]
  obtain ds secret svc s where ds: "mem_view (fst ready_world) (dataset_key (''ns'', ''a'')) = Some (ODataset ds)"
    and c: "cache_ready rook_api (mem_view (fst ready_world)) (rw_stores (snd ready_world)) (rw_users (snd ready_world)) ds secret svc"
    and s: "mem_view (fst w2) (secret_key (''ns'', ''a'')) = Some (OSecret s)" "secrets_config (sec_Data s) = gateway_config ds secret svc"
    by blast
  have d: "ds = cached_dataset" using ds ready_world_objects(1) by simp
  have n: "rook_namespace rook_api = ''''" "om_name (ds_meta cached_dataset) = ''a''"
    by (simp_all add: rook_namespace_def cluster_on_fst_def mem_api_def cached_dataset_def ObjectMeta_def)
  have "sec_Data secret = [(''AccessKey'', ''ak''), (''SecretKey'', ''sk'')]" "svc_ClusterIP svc = ''10.0.0.1''"
    using c ready_world_objects(2,3) by (auto simp: cache_ready_def d n Let_def)
  then have "AccessKeyID (gateway_config ds secret svc) = ''ak''" "Endpoint (gateway_config ds secret svc) = ''http://10.0.0.1''"
    "Bucket (gateway_config ds secret svc) = ''b''"
    by (simp_all add: gateway_config_def dataset_config_def d cached_dataset_def new_internal_def bucket_of_def Cut_def)
  then show ?thesis using times s by auto
qed

end
